theory Spec2Isabelle
  imports Main "HOL-Library.AList" "HOL-Library.Word"
begin

section \<open>Identifiers, locations and errors\<close>

text \<open>
  The strong ids of the packer are indices. An id that the source tests with
  \<open>is_valid()\<close> is an \<open>option\<close> (\<open>None\<close> is the invalid id); ids that only
  ever come out of a container of valid ids are plain naturals.
\<close>

type_synonym PackMoleculeId = nat
type_synonym LegalizationClusterId = nat
type_synonym ClusterBlockId = nat
type_synonym APBlockId = nat
type_synonym AtomBlockId = "nat option"
type_synonym LogicalModelId = "nat option"
type_synonym t_logical_block_type_ptr = nat
type_synonym t_physical_tile_type_ptr = nat

text \<open>
  \<open>t_physical_tile_loc\<close> has the fields \<open>x\<close>, \<open>y\<close>, \<open>layer_num\<close> and \<open>t_pl_loc\<close> the
  fields \<open>x\<close>, \<open>y\<close>, \<open>sub_tile\<close>, \<open>layer\<close>; the fields carry a prefix here because a
  record field is a constant of the theory.
\<close>

record t_physical_tile_loc =
  tile_x :: int
  tile_y :: int
  tile_layer_num :: int

record t_pl_loc =
  pl_x :: int
  pl_y :: int
  pl_sub_tile :: int
  pl_layer :: int

datatype e_block_pack_status =
  BLK_PASSED | BLK_FAILED_FEASIBLE | BLK_FAILED_ROUTE | BLK_FAILED_FLOORPLANNING | BLK_STATUS_UNDEFINED

datatype ClusterLegalizationStrategy = SKIP_INTRA_LB_ROUTE | FULL

text \<open>
  Every \<open>VPR_FATAL_ERROR\<close> and every failed \<open>VTR_ASSERT\<close> of the modelled functions is a
  value of this type; a function that can raise returns \<open>error + 'a\<close>.
\<close>

datatype error =
  Unable_to_create_cluster
  | Could_not_determine_block_type PackMoleculeId
  | Clusters_remain_unplaced nat
  | Unable_to_find_valid_place
  | VTR_ASSERT_failed string

section \<open>The cluster legalizer and the netlist, as the passes use them\<close>

text \<open>
  \<open>t_pb\<close> as \<open>has_empty_primitive\<close> reads it: the number of modes of the node's
  \<open>pb_type\<close>, the name, and the children, one row per child type of the current mode and
  one entry per instance (\<open>None\<close> when \<open>child_pbs\<close> is the null pointer).
\<close>

datatype t_pb = T_pb (pb_num_modes: int) (pb_name: "string option") (child_pbs: "t_pb list list option")

fun has_empty_primitive_pb :: "t_pb \<Rightarrow> bool" where
  "has_empty_primitive_pb (T_pb nm nam ch) =
     (if nm = 0 then nam = None
      else (case ch of
              None \<Rightarrow> True
            | Some rows \<Rightarrow> list_ex (\<lambda>row. list_ex has_empty_primitive_pb row) rows))"

definition has_empty_primitive :: "t_pb option \<Rightarrow> bool" where
  "has_empty_primitive pb = (case pb of None \<Rightarrow> False | Some p \<Rightarrow> has_empty_primitive_pb p)"

text \<open>
  The class \<open>ClusterLegalizer\<close> is used through its interface only. Its methods are the
  fields of this record; \<open>'s\<close> is the legalizer's state, which every mutating method
  returns updated.
\<close>

record 's ClusterLegalizer =
  start_new_cluster :: "PackMoleculeId \<Rightarrow> t_logical_block_type_ptr \<Rightarrow> int \<Rightarrow> 's
                          \<Rightarrow> (e_block_pack_status \<times> LegalizationClusterId) \<times> 's"
  add_mol_to_cluster :: "PackMoleculeId \<Rightarrow> LegalizationClusterId \<Rightarrow> 's \<Rightarrow> e_block_pack_status \<times> 's"
  is_molecule_compatible :: "PackMoleculeId \<Rightarrow> LegalizationClusterId \<Rightarrow> 's \<Rightarrow> bool"
  is_mol_clustered :: "PackMoleculeId \<Rightarrow> 's \<Rightarrow> bool"
  check_cluster_legality :: "LegalizationClusterId \<Rightarrow> 's \<Rightarrow> bool"
  clean_cluster :: "LegalizationClusterId \<Rightarrow> 's \<Rightarrow> 's"
  destroy_cluster :: "LegalizationClusterId \<Rightarrow> 's \<Rightarrow> 's"
  get_cluster_molecules :: "LegalizationClusterId \<Rightarrow> 's \<Rightarrow> PackMoleculeId list"
  get_cluster_type :: "LegalizationClusterId \<Rightarrow> 's \<Rightarrow> t_logical_block_type_ptr"
  get_cluster_pb :: "LegalizationClusterId \<Rightarrow> 's \<Rightarrow> t_pb option"
  get_atom_cluster :: "nat \<Rightarrow> 's \<Rightarrow> LegalizationClusterId option"
  set_legalization_strategy :: "ClusterLegalizationStrategy \<Rightarrow> 's \<Rightarrow> 's"
  compress :: "'s \<Rightarrow> 's"

text \<open>
  What the passes read from the prepacker, the atom netlist and the architecture:
  the root atom of a molecule (\<open>atom_block_ids[root]\<close>), the model of an atom, the
  candidate block types of a model, and the number of modes of a block type.
\<close>

record Netlist =
  molecule_root_atom :: "PackMoleculeId \<Rightarrow> AtomBlockId"
  block_model :: "AtomBlockId \<Rightarrow> LogicalModelId"
  primitive_candidate_block_types :: "LogicalModelId \<Rightarrow> t_logical_block_type_ptr list"
  num_modes :: "t_logical_block_type_ptr \<Rightarrow> int"

section \<open>Starting a cluster\<close>

text \<open>The inner loop of \<open>create_new_cluster\<close>: the modes of one type, from \<open>mode\<close> upwards.\<close>

function create_new_cluster_modes ::
  "'s ClusterLegalizer \<Rightarrow> PackMoleculeId \<Rightarrow> t_logical_block_type_ptr \<Rightarrow> int \<Rightarrow> int \<Rightarrow> 's
     \<Rightarrow> LegalizationClusterId option \<times> 's" where
  "create_new_cluster_modes cl seed type nmodes mode s =
     (if mode < nmodes then
        (case start_new_cluster cl seed type mode s of
           ((pack_status, new_cluster_id), s') \<Rightarrow>
             if pack_status = BLK_PASSED then (Some new_cluster_id, s')
             else create_new_cluster_modes cl seed type nmodes (mode + 1) s')
      else (None, s))"
  by pat_completeness auto
termination
  by (relation "measure (\<lambda>(cl, seed, type, nmodes, mode, s). nat (nmodes - mode))") auto

declare create_new_cluster_modes.simps [simp del]

text \<open>The outer loop: the candidate types in the order of the table.\<close>

fun create_new_cluster_types ::
  "'s ClusterLegalizer \<Rightarrow> Netlist \<Rightarrow> PackMoleculeId \<Rightarrow> t_logical_block_type_ptr list \<Rightarrow> 's
     \<Rightarrow> LegalizationClusterId option \<times> 's" where
  "create_new_cluster_types cl nl seed [] s = (None, s)"
| "create_new_cluster_types cl nl seed (type # types) s =
     (case create_new_cluster_modes cl seed type (num_modes nl type) 0 s of
        (Some new_cluster_id, s') \<Rightarrow> (Some new_cluster_id, s')
      | (None, s') \<Rightarrow> create_new_cluster_types cl nl seed types s')"

definition create_new_cluster ::
  "'s ClusterLegalizer \<Rightarrow> Netlist \<Rightarrow> PackMoleculeId \<Rightarrow> 's \<Rightarrow> error + (LegalizationClusterId \<times> 's)" where
  "create_new_cluster cl nl seed_molecule_id s =
     (let root_atom = molecule_root_atom nl seed_molecule_id;
          root_model_id = block_model nl root_atom
      in if root_model_id = None then Inl (VTR_ASSERT_failed ''root_model_id.is_valid()'')
         else if primitive_candidate_block_types nl root_model_id = []
         then Inl (VTR_ASSERT_failed ''!primitive_candidate_block_types[root_model_id].empty()'')
         else (case create_new_cluster_types cl nl seed_molecule_id
                      (primitive_candidate_block_types nl root_model_id) s of
                 (Some new_cluster_id, s') \<Rightarrow> Inr (new_cluster_id, s')
               | (None, s') \<Rightarrow> Inl Unable_to_create_cluster))"

definition get_molecule_logical_block_type ::
  "Netlist \<Rightarrow> PackMoleculeId \<Rightarrow> t_logical_block_type_ptr option" where
  "get_molecule_logical_block_type nl mol_id =
     (let root_atom = molecule_root_atom nl mol_id
      in if root_atom = None then None
         else (let root_model_id = block_model nl root_atom
               in if root_model_id = None then None
                  else (case primitive_candidate_block_types nl root_model_id of
                          front # rest \<Rightarrow> Some front
                        | [] \<Rightarrow> None)))"

text \<open>
  The reading of the start step that the clusterers are specified by: the candidate
  (block type, mode) pairs in their fixed order, probed one after the other until the
  first one that the legalizer accepts.
\<close>

definition candidate_pairs ::
  "Netlist \<Rightarrow> t_logical_block_type_ptr list \<Rightarrow> (t_logical_block_type_ptr \<times> int) list" where
  "candidate_pairs nl types =
     concat (map (\<lambda>type. map (\<lambda>mode. (type, int mode)) [0 ..< nat (num_modes nl type)]) types)"

fun probe_in_order ::
  "'s ClusterLegalizer \<Rightarrow> PackMoleculeId \<Rightarrow> (t_logical_block_type_ptr \<times> int) list \<Rightarrow> 's
     \<Rightarrow> LegalizationClusterId option \<times> 's" where
  "probe_in_order cl seed [] s = (None, s)"
| "probe_in_order cl seed ((type, mode) # rest) s =
     (case start_new_cluster cl seed type mode s of
        ((pack_status, new_cluster_id), s') \<Rightarrow>
          if pack_status = BLK_PASSED then (Some new_cluster_id, s')
          else probe_in_order cl seed rest s')"

section \<open>Binding a cluster to a site\<close>

record t_pl_offset =
  off_x :: int
  off_y :: int
  off_sub_tile :: int
  off_layer :: int

record t_pl_macro_member =
  blk_index :: ClusterBlockId
  offset :: t_pl_offset

type_synonym t_pl_macro = "t_pl_macro_member list"

record Region =
  xlow :: int
  ylow :: int
  xhigh :: int
  yhigh :: int
  region_layer :: int

type_synonym PartitionRegion = "Region list"

text \<open>
  What \<open>APClusterPlacer\<close> reads from the global contexts and calls in the initial
  placer; \<open>'r\<close> is the block location registry (the placement table). A \<open>t_pl_loc\<close> that
  has only been default-constructed has the sub-tile \<open>default_sub_tile\<close>.
\<close>

record 'r PlaceContext =
  is_block_placed :: "ClusterBlockId \<Rightarrow> 'r \<Rightarrow> bool"
  num_sub_tiles :: "t_physical_tile_loc \<Rightarrow> nat"
  tile_capacity :: "t_physical_tile_loc \<Rightarrow> int"
  is_cluster_constrained :: "ClusterBlockId \<Rightarrow> bool"
  cluster_constraints :: "ClusterBlockId \<Rightarrow> PartitionRegion"
  is_loc_in_part_reg :: "PartitionRegion \<Rightarrow> t_pl_loc \<Rightarrow> bool"
  get_device_partition_region :: "PartitionRegion"
  get_imacro_from_iblk :: "ClusterBlockId \<Rightarrow> int"
  place_macros :: "int \<Rightarrow> t_pl_macro"
  clb_nlist_block_type :: "ClusterBlockId \<Rightarrow> t_logical_block_type_ptr"
  pad_loc_type :: nat
  default_sub_tile :: int
  try_place_macro :: "t_pl_macro \<Rightarrow> t_pl_loc \<Rightarrow> 'r \<Rightarrow> bool \<times> 'r"
  try_place_macro_exhaustively ::
    "t_pl_macro \<Rightarrow> PartitionRegion \<Rightarrow> t_logical_block_type_ptr \<Rightarrow> nat \<Rightarrow> 'r \<Rightarrow> bool \<times> 'r"

definition get_macro :: "'r PlaceContext \<Rightarrow> ClusterBlockId \<Rightarrow> t_pl_macro" where
  "get_macro cx clb_blk_id =
     (let imacro = get_imacro_from_iblk cx clb_blk_id
      in if imacro \<noteq> - 1 then place_macros cx imacro
         else [\<lparr>blk_index = clb_blk_id,
                offset = \<lparr>off_x = 0, off_y = 0, off_sub_tile = 0, off_layer = 0\<rparr>\<rparr>])"

definition place_cluster_reconstruction ::
  "'r PlaceContext \<Rightarrow> ClusterBlockId \<Rightarrow> t_physical_tile_loc \<Rightarrow> int \<Rightarrow> 'r \<Rightarrow> error + (bool \<times> 'r)" where
  "place_cluster_reconstruction cx clb_blk_id tile_loc sub_tile reg =
     (if is_block_placed cx clb_blk_id reg then Inr (True, reg)
      else
        (let pl_macro = get_macro cx clb_blk_id;
             to_loc = \<lparr>pl_x = tile_x tile_loc, pl_y = tile_y tile_loc,
                       pl_sub_tile = default_sub_tile cx, pl_layer = tile_layer_num tile_loc\<rparr>
         in if num_sub_tiles cx tile_loc = 0 then Inr (False, reg)
            else if \<not> (sub_tile \<ge> 0 \<and> sub_tile < tile_capacity cx tile_loc)
            then Inl (VTR_ASSERT_failed ''sub_tile >= 0 && sub_tile < capacity'')
            else if is_cluster_constrained cx clb_blk_id
                    \<and> is_loc_in_part_reg cx (cluster_constraints cx clb_blk_id) to_loc
            then Inr (False, reg)
            else Inr (try_place_macro cx pl_macro (to_loc\<lparr>pl_sub_tile := sub_tile\<rparr>) reg)))"

definition place_cluster ::
  "'r PlaceContext \<Rightarrow> ClusterBlockId \<Rightarrow> t_physical_tile_loc \<Rightarrow> int \<Rightarrow> 'r \<Rightarrow> error + (bool \<times> 'r)" where
  "place_cluster cx clb_blk_id tile_loc sub_tile reg =
     (if is_block_placed cx clb_blk_id reg then Inr (True, reg)
      else
        (let pl_macro = get_macro cx clb_blk_id;
             to_loc = \<lparr>pl_x = tile_x tile_loc, pl_y = tile_y tile_loc,
                       pl_sub_tile = default_sub_tile cx, pl_layer = tile_layer_num tile_loc\<rparr>
         in if num_sub_tiles cx tile_loc = 0 then Inr (False, reg)
            else if \<not> (sub_tile \<ge> 0 \<and> sub_tile < tile_capacity cx tile_loc)
            then Inl (VTR_ASSERT_failed ''sub_tile >= 0 && sub_tile < capacity'')
            else if is_cluster_constrained cx clb_blk_id
                    \<and> is_loc_in_part_reg cx (cluster_constraints cx clb_blk_id) to_loc
            then Inr (False, reg)
            else
              (let pr = [\<lparr>xlow = tile_x tile_loc, ylow = tile_y tile_loc,
                          xhigh = tile_x tile_loc, yhigh = tile_y tile_loc,
                          region_layer = pl_layer to_loc\<rparr>]
               in Inr (try_place_macro_exhaustively cx pl_macro pr (clb_nlist_block_type cx clb_blk_id)
                         (pad_loc_type cx) reg))))"

definition exhaustively_place_cluster ::
  "'r PlaceContext \<Rightarrow> ClusterBlockId \<Rightarrow> 'r \<Rightarrow> bool \<times> 'r" where
  "exhaustively_place_cluster cx clb_blk_id reg =
     (if is_block_placed cx clb_blk_id reg then (True, reg)
      else
        (let pl_macro = get_macro cx clb_blk_id;
             pr = (if is_cluster_constrained cx clb_blk_id then cluster_constraints cx clb_blk_id
                   else get_device_partition_region cx)
         in try_place_macro_exhaustively cx pl_macro pr (clb_nlist_block_type cx clb_blk_id)
              (pad_loc_type cx) reg))"

section \<open>The device grid and the relocation search\<close>

text \<open>
  \<open>DeviceGrid\<close> and the physical tile types, as the passes read them: the dimensions,
  the type of a tile, the offsets of a tile to its root, the capacity of a tile type
  and \<open>is_tile_compatible\<close>.
\<close>

record DeviceGrid =
  width :: nat
  height :: nat
  get_physical_type :: "t_physical_tile_loc \<Rightarrow> t_physical_tile_type_ptr"
  get_width_offset :: "t_physical_tile_loc \<Rightarrow> int"
  get_height_offset :: "t_physical_tile_loc \<Rightarrow> int"
  capacity :: "t_physical_tile_type_ptr \<Rightarrow> int"
  is_tile_compatible :: "t_physical_tile_type_ptr \<Rightarrow> t_logical_block_type_ptr \<Rightarrow> bool"

definition is_root_tile :: "DeviceGrid \<Rightarrow> t_physical_tile_loc \<Rightarrow> bool" where
  "is_root_tile grid tile_loc \<longleftrightarrow>
     get_width_offset grid tile_loc = 0 \<and> get_height_offset grid tile_loc = 0"

text \<open>
  \<open>loc_to_cluster_id_placed\<close> is a hash map from locations to clusters. Hash maps that
  the passes iterate over are association lists with distinct keys, read in the order
  of the iteration: \<open>m[k] = v\<close> is \<open>AList.update\<close>, \<open>erase\<close> is \<open>AList.delete\<close>.
\<close>

type_synonym placed_table = "t_pl_loc \<rightharpoonup> LegalizationClusterId"
type_synonym unplaced_table = "(t_physical_tile_loc \<times> LegalizationClusterId list) list"

text \<open>
  The loops of \<open>place_remaining_clusters\<close> read the table and write it once, where they
  claim a location and leave; each loop is a search that returns the claimed location,
  and \<open>relocate_cluster\<close> writes the tables. First the loop over the sub-tiles of a tile.
\<close>

fun search_sub_tiles ::
  "DeviceGrid \<Rightarrow> placed_table \<Rightarrow> t_physical_tile_loc \<Rightarrow> int list \<Rightarrow> t_pl_loc option" where
  "search_sub_tiles grid tbl tile_loc [] = None"
| "search_sub_tiles grid tbl tile_loc (sub_tile # rest) =
     (if \<not> is_root_tile grid tile_loc then None
      else
        (let candidate_loc = \<lparr>pl_x = tile_x tile_loc, pl_y = tile_y tile_loc,
                              pl_sub_tile = sub_tile, pl_layer = tile_layer_num tile_loc\<rparr>
         in if tbl candidate_loc \<noteq> None then search_sub_tiles grid tbl tile_loc rest
            else Some candidate_loc))"

text \<open>The body of the loop over \<open>dy\<close>, for one offset.\<close>

definition search_offset ::
  "DeviceGrid \<Rightarrow> placed_table \<Rightarrow> t_logical_block_type_ptr \<Rightarrow> t_physical_tile_loc \<Rightarrow> int \<Rightarrow> int \<Rightarrow> int
     \<Rightarrow> t_pl_loc option" where
  "search_offset grid tbl cluster_type orig_loc search_radius dx dy =
     (if \<bar>dx\<bar> + \<bar>dy\<bar> \<noteq> search_radius then None
      else
        (let x = tile_x orig_loc + dx;
             y = tile_y orig_loc + dy;
             layer = tile_layer_num orig_loc
         in if x < 0 \<or> y < 0 \<or> x \<ge> int (width grid) \<or> y \<ge> int (height grid) then None
            else
              (let tile_loc = \<lparr>tile_x = x, tile_y = y, tile_layer_num = layer\<rparr>;
                   tile_type = get_physical_type grid tile_loc
               in if \<not> is_tile_compatible grid tile_type cluster_type then None
                  else search_sub_tiles grid tbl tile_loc [0 .. capacity grid tile_type - 1])))"

fun search_dy ::
  "DeviceGrid \<Rightarrow> placed_table \<Rightarrow> t_logical_block_type_ptr \<Rightarrow> t_physical_tile_loc \<Rightarrow> int \<Rightarrow> int
     \<Rightarrow> int list \<Rightarrow> t_pl_loc option" where
  "search_dy grid tbl cluster_type orig_loc search_radius dx [] = None"
| "search_dy grid tbl cluster_type orig_loc search_radius dx (dy # rest) =
     (case search_offset grid tbl cluster_type orig_loc search_radius dx dy of
        Some candidate_loc \<Rightarrow> Some candidate_loc
      | None \<Rightarrow> search_dy grid tbl cluster_type orig_loc search_radius dx rest)"

fun search_dx ::
  "DeviceGrid \<Rightarrow> placed_table \<Rightarrow> t_logical_block_type_ptr \<Rightarrow> t_physical_tile_loc \<Rightarrow> int
     \<Rightarrow> int list \<Rightarrow> t_pl_loc option" where
  "search_dx grid tbl cluster_type orig_loc search_radius [] = None"
| "search_dx grid tbl cluster_type orig_loc search_radius (dx # rest) =
     (case search_dy grid tbl cluster_type orig_loc search_radius dx [- search_radius .. search_radius] of
        Some candidate_loc \<Rightarrow> Some candidate_loc
      | None \<Rightarrow> search_dx grid tbl cluster_type orig_loc search_radius rest)"

text \<open>The loop \<open>while (!placed && search_radius <= max_search_radius)\<close>.\<close>

function search_rings ::
  "DeviceGrid \<Rightarrow> placed_table \<Rightarrow> t_logical_block_type_ptr \<Rightarrow> t_physical_tile_loc \<Rightarrow> int \<Rightarrow> int
     \<Rightarrow> t_pl_loc option" where
  "search_rings grid tbl cluster_type orig_loc max_search_radius search_radius =
     (if search_radius \<le> max_search_radius then
        (case search_dx grid tbl cluster_type orig_loc search_radius [- search_radius .. search_radius] of
           Some candidate_loc \<Rightarrow> Some candidate_loc
         | None \<Rightarrow> search_rings grid tbl cluster_type orig_loc max_search_radius (search_radius + 1))
      else None)"
  by pat_completeness auto
termination
  by (relation "measure (\<lambda>(grid, tbl, cluster_type, orig_loc, max_search_radius, search_radius).
                   nat (max_search_radius + 1 - search_radius))") auto

declare search_rings.simps [simp del]

text \<open>
  Taking a cluster out of the list of its desired tile: \<open>operator[]\<close> makes the entry if
  it is missing, the cluster is removed from the vector, and an empty vector is erased.
\<close>

definition remove_unplaced ::
  "t_physical_tile_loc \<Rightarrow> LegalizationClusterId \<Rightarrow> unplaced_table \<Rightarrow> unplaced_table" where
  "remove_unplaced orig_loc cluster_id unplaced =
     (let cluster_vec = removeAll cluster_id
                          (case map_of unplaced orig_loc of None \<Rightarrow> [] | Some v \<Rightarrow> v)
      in if cluster_vec = [] then AList.delete orig_loc unplaced
         else AList.update orig_loc cluster_vec unplaced)"

text \<open>
  The body of the loop over the clusters of one desired tile. A cluster for which the
  search finds nothing is reported by a debug log only, and stays in the unplaced table.
\<close>

definition relocate_cluster ::
  "'s ClusterLegalizer \<Rightarrow> 's \<Rightarrow> DeviceGrid \<Rightarrow> t_physical_tile_loc \<Rightarrow> LegalizationClusterId
     \<Rightarrow> placed_table \<times> unplaced_table \<Rightarrow> placed_table \<times> unplaced_table" where
  "relocate_cluster cl s grid orig_loc cluster_id st =
     (let max_search_radius = int (max (width grid) (height grid));
          cluster_type = get_cluster_type cl cluster_id s
      in case search_rings grid (fst st) cluster_type orig_loc max_search_radius 0 of
           Some candidate_loc \<Rightarrow>
             ((fst st)(candidate_loc \<mapsto> cluster_id), remove_unplaced orig_loc cluster_id (snd st))
         | None \<Rightarrow> st)"

fun relocate_clusters ::
  "'s ClusterLegalizer \<Rightarrow> 's \<Rightarrow> DeviceGrid \<Rightarrow> t_physical_tile_loc \<Rightarrow> LegalizationClusterId list
     \<Rightarrow> placed_table \<times> unplaced_table \<Rightarrow> placed_table \<times> unplaced_table" where
  "relocate_clusters cl s grid orig_loc [] st = st"
| "relocate_clusters cl s grid orig_loc (cluster_id # clusters) st =
     relocate_clusters cl s grid orig_loc clusters (relocate_cluster cl s grid orig_loc cluster_id st)"

fun relocate_tiles ::
  "'s ClusterLegalizer \<Rightarrow> 's \<Rightarrow> DeviceGrid \<Rightarrow> unplaced_table
     \<Rightarrow> placed_table \<times> unplaced_table \<Rightarrow> placed_table \<times> unplaced_table" where
  "relocate_tiles cl s grid [] st = st"
| "relocate_tiles cl s grid ((orig_loc, clusters) # unplaced_copy) st =
     relocate_tiles cl s grid unplaced_copy (relocate_clusters cl s grid orig_loc clusters st)"

definition place_remaining_clusters ::
  "'s ClusterLegalizer \<Rightarrow> 's \<Rightarrow> DeviceGrid \<Rightarrow> placed_table \<times> unplaced_table
     \<Rightarrow> placed_table \<times> unplaced_table" where
  "place_remaining_clusters cl s grid st = relocate_tiles cl s grid (snd st) st"

text \<open>
  The relocation search as it is specified: the candidate locations in rings of growing
  Manhattan distance around the desired tile, the offsets of a ring and the sub-tiles
  of a tile in a fixed order, and the first admissible candidate taken.
\<close>

definition ring_offsets :: "int \<Rightarrow> (int \<times> int) list" where
  "ring_offsets r = filter (\<lambda>(dx, dy). \<bar>dx\<bar> + \<bar>dy\<bar> = r) (List.product [- r .. r] [- r .. r])"

definition tile_candidates :: "DeviceGrid \<Rightarrow> t_physical_tile_loc \<Rightarrow> t_pl_loc list" where
  "tile_candidates grid tile_loc =
     map (\<lambda>sub_tile. \<lparr>pl_x = tile_x tile_loc, pl_y = tile_y tile_loc,
                       pl_sub_tile = sub_tile, pl_layer = tile_layer_num tile_loc\<rparr>)
         [0 .. capacity grid (get_physical_type grid tile_loc) - 1]"

definition ring_candidates :: "DeviceGrid \<Rightarrow> t_physical_tile_loc \<Rightarrow> int \<Rightarrow> t_pl_loc list" where
  "ring_candidates grid orig_loc r =
     concat (map (\<lambda>(dx, dy). tile_candidates grid
                    \<lparr>tile_x = tile_x orig_loc + dx, tile_y = tile_y orig_loc + dy,
                     tile_layer_num = tile_layer_num orig_loc\<rparr>)
                 (ring_offsets r))"

definition relocation_candidates :: "DeviceGrid \<Rightarrow> t_physical_tile_loc \<Rightarrow> t_pl_loc list" where
  "relocation_candidates grid orig_loc =
     concat (map (ring_candidates grid orig_loc) [0 .. int (max (width grid) (height grid))])"

definition tile_of :: "t_pl_loc \<Rightarrow> t_physical_tile_loc" where
  "tile_of loc = \<lparr>tile_x = pl_x loc, tile_y = pl_y loc, tile_layer_num = pl_layer loc\<rparr>"

definition admissible ::
  "DeviceGrid \<Rightarrow> placed_table \<Rightarrow> t_logical_block_type_ptr \<Rightarrow> t_pl_loc \<Rightarrow> bool" where
  "admissible grid tbl cluster_type loc \<longleftrightarrow>
     0 \<le> pl_x loc \<and> 0 \<le> pl_y loc \<and> pl_x loc < int (width grid) \<and> pl_y loc < int (height grid)
     \<and> is_tile_compatible grid (get_physical_type grid (tile_of loc)) cluster_type
     \<and> is_root_tile grid (tile_of loc)
     \<and> tbl loc = None"

definition manhattan :: "t_physical_tile_loc \<Rightarrow> t_pl_loc \<Rightarrow> int" where
  "manhattan orig_loc loc = \<bar>pl_x loc - tile_x orig_loc\<bar> + \<bar>pl_y loc - tile_y orig_loc\<bar>"

section \<open>The reconstruction passes\<close>

text \<open>
  What the passes read from the AP netlist and the prepacker: the AP blocks, the
  molecule of a block and the atoms of a molecule.
\<close>

record APNetlist =
  blocks :: "APBlockId list"
  block_molecule :: "APBlockId \<Rightarrow> PackMoleculeId"
  atom_block_ids :: "PackMoleculeId \<Rightarrow> AtomBlockId list"

type_synonym check_table = "(LegalizationClusterId \<times> t_pl_loc) list"

text \<open>
  The state that \<open>pack_recontruction_pass\<close> and the passes it calls share: the
  legalizer, the two member tables of \<open>BasicMinDisturbance\<close>, and the local tables that
  are handed on by reference.
\<close>

record 's pass_state =
  legalizer :: 's
  loc_to_cluster_id_placed :: placed_table
  cluster_id_to_loc_desired :: "LegalizationClusterId \<rightharpoonup> t_physical_tile_loc"
  unclustered_blocks :: "(PackMoleculeId \<times> t_physical_tile_loc) list"
  unclustered_block_locs :: "(t_physical_tile_loc \<times> PackMoleculeId list) list"
  cluster_id_to_loc_unplaced :: unplaced_table
  cluster_created_mid_first_pass :: nat

text \<open>\<open>m[k].push_back(v)\<close> on a hash map of vectors.\<close>

definition push_back_at :: "'k \<Rightarrow> 'v \<Rightarrow> ('k \<times> 'v list) list \<Rightarrow> ('k \<times> 'v list) list" where
  "push_back_at k v m = AList.update k ((case map_of m k of None \<Rightarrow> [] | Some vs \<Rightarrow> vs) @ [v]) m"

text \<open>
  The loop over the sub-tiles of the hinted tile, for one molecule. The source has it
  twice, for the blocks of the tile and for the molecules of the clusters that failed
  the check; the second copy also counts the clusters it starts (\<open>count_created\<close>).
  The result is the flag \<open>placed\<close> with the tables.
\<close>

fun try_tile_sub_tiles ::
  "'s ClusterLegalizer \<Rightarrow> Netlist \<Rightarrow> DeviceGrid \<Rightarrow> bool \<Rightarrow> t_physical_tile_loc
     \<Rightarrow> t_logical_block_type_ptr \<Rightarrow> PackMoleculeId \<Rightarrow> int list \<Rightarrow> check_table \<times> 's pass_state
     \<Rightarrow> error + (bool \<times> check_table \<times> 's pass_state)" where
  "try_tile_sub_tiles cl nl grid count_created tile_loc block_type mol_id [] cs = Inr (False, cs)"
| "try_tile_sub_tiles cl nl grid count_created tile_loc block_type mol_id (sub_tile # rest) cs =
     (if \<not> is_root_tile grid tile_loc then Inr (False, cs)
      else
        (let cluster_ids_to_check = fst cs;
             st = snd cs;
             loc = \<lparr>pl_x = tile_x tile_loc, pl_y = tile_y tile_loc,
                    pl_sub_tile = sub_tile, pl_layer = tile_layer_num tile_loc\<rparr>
         in case loc_to_cluster_id_placed st loc of
              Some cluster_id \<Rightarrow>
                if \<not> has_empty_primitive (get_cluster_pb cl cluster_id (legalizer st))
                then try_tile_sub_tiles cl nl grid count_created tile_loc block_type mol_id rest cs
                else if is_molecule_compatible cl mol_id cluster_id (legalizer st)
                then (case add_mol_to_cluster cl mol_id cluster_id (legalizer st) of
                        (status, s') \<Rightarrow>
                          if status = BLK_PASSED
                          then Inr (True, cluster_ids_to_check, st\<lparr>legalizer := s'\<rparr>)
                          else try_tile_sub_tiles cl nl grid count_created tile_loc block_type mol_id rest
                                 (cluster_ids_to_check, st\<lparr>legalizer := s'\<rparr>))
                else try_tile_sub_tiles cl nl grid count_created tile_loc block_type mol_id rest cs
            | None \<Rightarrow>
                if is_tile_compatible grid (get_physical_type grid tile_loc) block_type
                then (case create_new_cluster cl nl mol_id (legalizer st) of
                        Inl e \<Rightarrow> Inl e
                      | Inr (new_id, s') \<Rightarrow>
                          Inr (True, AList.update new_id loc cluster_ids_to_check,
                               st\<lparr>legalizer := s',
                                  cluster_created_mid_first_pass :=
                                    (if count_created then cluster_created_mid_first_pass st + 1
                                     else cluster_created_mid_first_pass st),
                                  loc_to_cluster_id_placed := (loc_to_cluster_id_placed st)(loc \<mapsto> new_id),
                                  cluster_id_to_loc_desired := (cluster_id_to_loc_desired st)(new_id \<mapsto> tile_loc)\<rparr>))
                else try_tile_sub_tiles cl nl grid count_created tile_loc block_type mol_id rest cs))"

text \<open>The body of the loop over the molecules of a tile.\<close>

definition reconstruct_molecule ::
  "'s ClusterLegalizer \<Rightarrow> Netlist \<Rightarrow> DeviceGrid \<Rightarrow> bool \<Rightarrow> t_physical_tile_loc \<Rightarrow> PackMoleculeId
     \<Rightarrow> check_table \<times> 's pass_state \<Rightarrow> error + (check_table \<times> 's pass_state)" where
  "reconstruct_molecule cl nl grid count_created tile_loc mol_id cs =
     (case get_molecule_logical_block_type nl mol_id of
        None \<Rightarrow> Inl (Could_not_determine_block_type mol_id)
      | Some block_type \<Rightarrow>
          (case try_tile_sub_tiles cl nl grid count_created tile_loc block_type mol_id
                  [0 .. capacity grid (get_physical_type grid tile_loc) - 1] cs of
             Inl e \<Rightarrow> Inl e
           | Inr (placed, cluster_ids_to_check, st) \<Rightarrow>
               if placed then Inr (cluster_ids_to_check, st)
               else Inr (cluster_ids_to_check,
                         st\<lparr>unclustered_blocks := unclustered_blocks st @ [(mol_id, tile_loc)],
                            unclustered_block_locs :=
                              push_back_at tile_loc mol_id (unclustered_block_locs st)\<rparr>)))"

fun reconstruct_molecules ::
  "'s ClusterLegalizer \<Rightarrow> Netlist \<Rightarrow> DeviceGrid \<Rightarrow> bool \<Rightarrow> t_physical_tile_loc \<Rightarrow> PackMoleculeId list
     \<Rightarrow> check_table \<times> 's pass_state \<Rightarrow> error + (check_table \<times> 's pass_state)" where
  "reconstruct_molecules cl nl grid count_created tile_loc [] cs = Inr cs"
| "reconstruct_molecules cl nl grid count_created tile_loc (mol_id # mols) cs =
     (case reconstruct_molecule cl nl grid count_created tile_loc mol_id cs of
        Inl e \<Rightarrow> Inl e
      | Inr cs' \<Rightarrow> reconstruct_molecules cl nl grid count_created tile_loc mols cs')"

text \<open>
  The loop over \<open>cluster_ids_to_check\<close>: a cluster that fails the check gives its
  molecules to \<open>illegal_cluster_mols\<close>, loses its binding and is destroyed; a cluster
  that passes is cleaned.
\<close>

fun check_new_clusters ::
  "'s ClusterLegalizer \<Rightarrow> check_table \<Rightarrow> PackMoleculeId list \<times> 's pass_state
     \<Rightarrow> PackMoleculeId list \<times> 's pass_state" where
  "check_new_clusters cl [] acc = acc"
| "check_new_clusters cl ((cluster_id, loc) # rest) acc =
     (let illegal_cluster_mols = fst acc; st = snd acc
      in if \<not> check_cluster_legality cl cluster_id (legalizer st)
         then check_new_clusters cl rest
                (illegal_cluster_mols @ get_cluster_molecules cl cluster_id (legalizer st),
                 st\<lparr>loc_to_cluster_id_placed := (loc_to_cluster_id_placed st)(loc := None),
                    legalizer := destroy_cluster cl cluster_id (legalizer st)\<rparr>)
         else check_new_clusters cl rest
                (illegal_cluster_mols, st\<lparr>legalizer := clean_cluster cl cluster_id (legalizer st)\<rparr>))"

text \<open>The body of the loop over the tiles: one tile with the AP blocks hinted to it.\<close>

definition reconstruct_tile ::
  "'s ClusterLegalizer \<Rightarrow> Netlist \<Rightarrow> APNetlist \<Rightarrow> DeviceGrid \<Rightarrow> t_physical_tile_loc \<times> APBlockId list
     \<Rightarrow> 's pass_state \<Rightarrow> error + 's pass_state" where
  "reconstruct_tile cl nl ap grid tb st =
     (let tile_loc = fst tb; tile_blocks = snd tb
      in case reconstruct_molecules cl nl grid False tile_loc (map (block_molecule ap) tile_blocks) ([], st) of
           Inl e \<Rightarrow> Inl e
         | Inr (cluster_ids_to_check, st1) \<Rightarrow>
             (case check_new_clusters cl cluster_ids_to_check ([], st1) of
                (illegal_cluster_mols, st2) \<Rightarrow>
                  (case reconstruct_molecules cl nl grid True tile_loc illegal_cluster_mols
                          (cluster_ids_to_check,
                           st2\<lparr>legalizer := set_legalization_strategy cl FULL (legalizer st2)\<rparr>) of
                     Inl e \<Rightarrow> Inl e
                   | Inr (cluster_ids_to_check', st3) \<Rightarrow>
                       Inr (st3\<lparr>legalizer :=
                                  set_legalization_strategy cl SKIP_INTRA_LB_ROUTE (legalizer st3)\<rparr>))))"

fun reconstruct_tiles ::
  "'s ClusterLegalizer \<Rightarrow> Netlist \<Rightarrow> APNetlist \<Rightarrow> DeviceGrid \<Rightarrow> (t_physical_tile_loc \<times> APBlockId list) list
     \<Rightarrow> 's pass_state \<Rightarrow> error + 's pass_state" where
  "reconstruct_tiles cl nl ap grid [] st = Inr st"
| "reconstruct_tiles cl nl ap grid (tb # tile_blocks) st =
     (case reconstruct_tile cl nl ap grid tb st of
        Inl e \<Rightarrow> Inl e
      | Inr st' \<Rightarrow> reconstruct_tiles cl nl ap grid tile_blocks st')"

subsection \<open>The neighbor pass\<close>

text \<open>
  The loop of \<open>try_cluster_tile\<close> over the molecules of a tile; the result is the list
  that stays in \<open>unclustered_block_locs\<close>, with the set \<open>clustered_molecules\<close> and the
  legalizer.
\<close>

fun try_cluster_mols ::
  "'s ClusterLegalizer \<Rightarrow> LegalizationClusterId \<Rightarrow> PackMoleculeId list \<Rightarrow> PackMoleculeId set \<times> 's
     \<Rightarrow> PackMoleculeId list \<times> PackMoleculeId set \<times> 's" where
  "try_cluster_mols cl cluster_id [] cs = ([], cs)"
| "try_cluster_mols cl cluster_id (neighbor_mol # rest) cs =
     (let clustered_molecules = fst cs; s = snd cs
      in if is_mol_clustered cl neighbor_mol s then try_cluster_mols cl cluster_id rest cs
         else if neighbor_mol \<in> clustered_molecules then try_cluster_mols cl cluster_id rest cs
         else if is_molecule_compatible cl neighbor_mol cluster_id s
         then (case add_mol_to_cluster cl neighbor_mol cluster_id s of
                 (status, s') \<Rightarrow>
                   if status = BLK_PASSED
                   then try_cluster_mols cl cluster_id rest (insert neighbor_mol clustered_molecules, s')
                   else (case try_cluster_mols cl cluster_id rest (clustered_molecules, s') of
                           (kept, cs') \<Rightarrow> (neighbor_mol # kept, cs')))
         else (case try_cluster_mols cl cluster_id rest cs of
                 (kept, cs') \<Rightarrow> (neighbor_mol # kept, cs')))"

definition try_cluster_tile ::
  "'s ClusterLegalizer \<Rightarrow> LegalizationClusterId \<Rightarrow> t_physical_tile_loc
     \<Rightarrow> PackMoleculeId set \<times> 's pass_state \<Rightarrow> PackMoleculeId set \<times> 's pass_state" where
  "try_cluster_tile cl cluster_id tile_loc ns =
     (let clustered_molecules = fst ns; st = snd ns
      in case map_of (unclustered_block_locs st) tile_loc of
           None \<Rightarrow> ns
         | Some mol_list \<Rightarrow>
             (case try_cluster_mols cl cluster_id mol_list (clustered_molecules, legalizer st) of
                (kept, clustered_molecules', s') \<Rightarrow>
                  (clustered_molecules',
                   st\<lparr>legalizer := s',
                      unclustered_block_locs :=
                        (if kept = [] then AList.delete tile_loc (unclustered_block_locs st)
                         else AList.update tile_loc kept (unclustered_block_locs st))\<rparr>)))"

text \<open>
  The three loops over the neighbor tiles. The flag of the result says that the cluster
  has no empty primitive left and the loops were left (\<open>goto skip_remaining_neighbors\<close>).
\<close>

fun neighbor_dy ::
  "'s ClusterLegalizer \<Rightarrow> LegalizationClusterId \<Rightarrow> t_physical_tile_loc \<Rightarrow> int \<Rightarrow> int \<Rightarrow> int list
     \<Rightarrow> PackMoleculeId set \<times> 's pass_state \<Rightarrow> bool \<times> PackMoleculeId set \<times> 's pass_state" where
  "neighbor_dy cl cluster_id seed_tile_loc r dx [] ns = (False, ns)"
| "neighbor_dy cl cluster_id seed_tile_loc r dx (dy # rest) ns =
     (if \<bar>dx\<bar> + \<bar>dy\<bar> \<noteq> r then neighbor_dy cl cluster_id seed_tile_loc r dx rest ns
      else
        (let neighbor_tile = \<lparr>tile_x = tile_x seed_tile_loc + dx, tile_y = tile_y seed_tile_loc + dy,
                              tile_layer_num = tile_layer_num seed_tile_loc\<rparr>
         in if map_of (unclustered_block_locs (snd ns)) neighbor_tile = None
            then neighbor_dy cl cluster_id seed_tile_loc r dx rest ns
            else
              (let ns' = try_cluster_tile cl cluster_id neighbor_tile ns
               in if \<not> has_empty_primitive (get_cluster_pb cl cluster_id (legalizer (snd ns')))
                  then (True, ns')
                  else neighbor_dy cl cluster_id seed_tile_loc r dx rest ns')))"

fun neighbor_dx ::
  "'s ClusterLegalizer \<Rightarrow> LegalizationClusterId \<Rightarrow> t_physical_tile_loc \<Rightarrow> int \<Rightarrow> int list
     \<Rightarrow> PackMoleculeId set \<times> 's pass_state \<Rightarrow> bool \<times> PackMoleculeId set \<times> 's pass_state" where
  "neighbor_dx cl cluster_id seed_tile_loc r [] ns = (False, ns)"
| "neighbor_dx cl cluster_id seed_tile_loc r (dx # rest) ns =
     (case neighbor_dy cl cluster_id seed_tile_loc r dx [- r .. r] ns of
        (skip, ns') \<Rightarrow>
          if skip then (True, ns') else neighbor_dx cl cluster_id seed_tile_loc r rest ns')"

fun neighbor_rings ::
  "'s ClusterLegalizer \<Rightarrow> LegalizationClusterId \<Rightarrow> t_physical_tile_loc \<Rightarrow> int list
     \<Rightarrow> PackMoleculeId set \<times> 's pass_state \<Rightarrow> bool \<times> PackMoleculeId set \<times> 's pass_state" where
  "neighbor_rings cl cluster_id seed_tile_loc [] ns = (False, ns)"
| "neighbor_rings cl cluster_id seed_tile_loc (r # rest) ns =
     (case neighbor_dx cl cluster_id seed_tile_loc r [- r .. r] ns of
        (skip, ns') \<Rightarrow>
          if skip then (True, ns') else neighbor_rings cl cluster_id seed_tile_loc rest ns')"

text \<open>
  One seed of the neighbor pass, up to the label \<open>skip_remaining_neighbors\<close>: the
  new cluster with the state in which it has been grown.
\<close>

definition grow_neighbor_cluster ::
  "'s ClusterLegalizer \<Rightarrow> Netlist \<Rightarrow> int \<Rightarrow> PackMoleculeId \<Rightarrow> t_physical_tile_loc
     \<Rightarrow> PackMoleculeId set \<times> 's pass_state
     \<Rightarrow> error + (LegalizationClusterId \<times> PackMoleculeId set \<times> 's pass_state)" where
  "grow_neighbor_cluster cl nl search_radius mol_id seed_tile_loc ns =
     (case create_new_cluster cl nl mol_id (legalizer (snd ns)) of
        Inl e \<Rightarrow> Inl e
      | Inr (cluster_id, s') \<Rightarrow>
          (let ns1 = (insert mol_id (fst ns), (snd ns)\<lparr>legalizer := s'\<rparr>);
               ns2 = try_cluster_tile cl cluster_id seed_tile_loc ns1
           in Inr (cluster_id, snd (neighbor_rings cl cluster_id seed_tile_loc [1 .. search_radius] ns2))))"

text \<open>The two ends of a seed: the cluster is kept and cleaned, or destroyed and requeued.\<close>

definition keep_cluster ::
  "'s ClusterLegalizer \<Rightarrow> t_physical_tile_loc \<Rightarrow> LegalizationClusterId \<Rightarrow> 's pass_state \<Rightarrow> 's pass_state" where
  "keep_cluster cl seed_tile_loc cluster_id st =
     st\<lparr>cluster_id_to_loc_unplaced := push_back_at seed_tile_loc cluster_id (cluster_id_to_loc_unplaced st),
        cluster_id_to_loc_desired := (cluster_id_to_loc_desired st)(cluster_id \<mapsto> seed_tile_loc),
        legalizer := clean_cluster cl cluster_id (legalizer st)\<rparr>"

fun requeue_molecules ::
  "t_physical_tile_loc \<Rightarrow> PackMoleculeId list \<Rightarrow> PackMoleculeId set \<times> 's pass_state
     \<Rightarrow> PackMoleculeId set \<times> 's pass_state" where
  "requeue_molecules seed_tile_loc [] ns = ns"
| "requeue_molecules seed_tile_loc (mol_id # mols) ns =
     requeue_molecules seed_tile_loc mols
       (fst ns - {mol_id},
        (snd ns)\<lparr>unclustered_blocks := unclustered_blocks (snd ns) @ [(mol_id, seed_tile_loc)],
                 unclustered_block_locs :=
                   push_back_at seed_tile_loc mol_id (unclustered_block_locs (snd ns))\<rparr>)"

definition destroy_and_requeue ::
  "'s ClusterLegalizer \<Rightarrow> t_physical_tile_loc \<Rightarrow> LegalizationClusterId
     \<Rightarrow> PackMoleculeId set \<times> 's pass_state \<Rightarrow> PackMoleculeId set \<times> 's pass_state" where
  "destroy_and_requeue cl seed_tile_loc cluster_id ns =
     (case requeue_molecules seed_tile_loc
             (get_cluster_molecules cl cluster_id (legalizer (snd ns))) ns of
        (clustered_molecules, st) \<Rightarrow>
          (clustered_molecules, st\<lparr>legalizer := destroy_cluster cl cluster_id (legalizer st)\<rparr>))"

definition finish_neighbor_cluster ::
  "'s ClusterLegalizer \<Rightarrow> ClusterLegalizationStrategy \<Rightarrow> t_physical_tile_loc \<Rightarrow> LegalizationClusterId
     \<Rightarrow> PackMoleculeId set \<times> 's pass_state \<Rightarrow> PackMoleculeId set \<times> 's pass_state" where
  "finish_neighbor_cluster cl strategy seed_tile_loc cluster_id ns =
     (if strategy = FULL then (fst ns, keep_cluster cl seed_tile_loc cluster_id (snd ns))
      else if check_cluster_legality cl cluster_id (legalizer (snd ns))
      then (fst ns, keep_cluster cl seed_tile_loc cluster_id (snd ns))
      else destroy_and_requeue cl seed_tile_loc cluster_id ns)"

text \<open>The loop over the copy of \<open>unclustered_blocks\<close>, and the pass with its final cleanup.\<close>

fun neighbor_seeds ::
  "'s ClusterLegalizer \<Rightarrow> Netlist \<Rightarrow> ClusterLegalizationStrategy \<Rightarrow> int
     \<Rightarrow> (PackMoleculeId \<times> t_physical_tile_loc) list \<Rightarrow> PackMoleculeId set \<times> 's pass_state
     \<Rightarrow> error + (PackMoleculeId set \<times> 's pass_state)" where
  "neighbor_seeds cl nl strategy search_radius [] ns = Inr ns"
| "neighbor_seeds cl nl strategy search_radius ((mol_id, seed_tile_loc) # rest) ns =
     (if mol_id \<in> fst ns then neighbor_seeds cl nl strategy search_radius rest ns
      else
        (case grow_neighbor_cluster cl nl search_radius mol_id seed_tile_loc ns of
           Inl e \<Rightarrow> Inl e
         | Inr (cluster_id, ns') \<Rightarrow>
             neighbor_seeds cl nl strategy search_radius rest
               (finish_neighbor_cluster cl strategy seed_tile_loc cluster_id ns')))"

definition neighbor_cluster_pass ::
  "'s ClusterLegalizer \<Rightarrow> Netlist \<Rightarrow> ClusterLegalizationStrategy \<Rightarrow> int \<Rightarrow> 's pass_state
     \<Rightarrow> error + 's pass_state" where
  "neighbor_cluster_pass cl nl strategy search_radius st =
     (case neighbor_seeds cl nl strategy search_radius (unclustered_blocks st) ({}, st) of
        Inl e \<Rightarrow> Inl e
      | Inr (clustered_molecules, st') \<Rightarrow>
          Inr (st'\<lparr>unclustered_blocks :=
                     filter (\<lambda>p. fst p \<notin> clustered_molecules) (unclustered_blocks st')\<rparr>))"

subsection \<open>The whole pass and the start of \<open>legalize\<close>\<close>

text \<open>
  \<open>pack_recontruction_pass\<close> from the loop over the tiles on. The blocks are sorted
  and grouped by tile before; \<open>tile_blocks\<close> is the result of that, the groups in the
  order in which the hash map is iterated. The two member tables come with \<open>st\<close>, the
  local tables start empty. \<open>reconstruction_clustering\<close> is the pass up to the second
  neighbor pass, and \<open>finish_reconstruction\<close> the end of it: the relocation search, and
  the fatal error when the unplaced table is not empty.
\<close>

definition finish_reconstruction ::
  "'s ClusterLegalizer \<Rightarrow> DeviceGrid \<Rightarrow> 's pass_state \<Rightarrow> error + 's pass_state" where
  "finish_reconstruction cl grid st =
     (case place_remaining_clusters cl (legalizer st) grid
             (loc_to_cluster_id_placed st, cluster_id_to_loc_unplaced st) of
        (placed, unplaced) \<Rightarrow>
          if unplaced \<noteq> [] then Inl (Clusters_remain_unplaced (length unplaced))
          else Inr (st\<lparr>loc_to_cluster_id_placed := placed, cluster_id_to_loc_unplaced := unplaced\<rparr>))"

definition NEIGHBOR_SEARCH_RADIUS :: int where
  "NEIGHBOR_SEARCH_RADIUS = 4"

definition reconstruction_clustering ::
  "'s ClusterLegalizer \<Rightarrow> Netlist \<Rightarrow> APNetlist \<Rightarrow> DeviceGrid \<Rightarrow> (t_physical_tile_loc \<times> APBlockId list) list
     \<Rightarrow> 's pass_state \<Rightarrow> error + 's pass_state" where
  "reconstruction_clustering cl nl ap grid tile_blocks st =
     (case reconstruct_tiles cl nl ap grid tile_blocks
             (st\<lparr>unclustered_blocks := [], unclustered_block_locs := [],
                 cluster_id_to_loc_unplaced := [], cluster_created_mid_first_pass := 0\<rparr>) of
        Inl e \<Rightarrow> Inl e
      | Inr st1 \<Rightarrow>
          (case neighbor_cluster_pass cl nl SKIP_INTRA_LB_ROUTE NEIGHBOR_SEARCH_RADIUS st1 of
             Inl e \<Rightarrow> Inl e
           | Inr st2 \<Rightarrow>
               neighbor_cluster_pass cl nl FULL NEIGHBOR_SEARCH_RADIUS
                 (st2\<lparr>legalizer := set_legalization_strategy cl FULL (legalizer st2)\<rparr>)))"

definition pack_recontruction_pass ::
  "'s ClusterLegalizer \<Rightarrow> Netlist \<Rightarrow> APNetlist \<Rightarrow> DeviceGrid \<Rightarrow> (t_physical_tile_loc \<times> APBlockId list) list
     \<Rightarrow> 's pass_state \<Rightarrow> error + 's pass_state" where
  "pack_recontruction_pass cl nl ap grid tile_blocks st =
     (case reconstruction_clustering cl nl ap grid tile_blocks st of
        Inl e \<Rightarrow> Inl e
      | Inr st3 \<Rightarrow> finish_reconstruction cl grid st3)"

text \<open>
  The loop of \<open>legalize\<close> that records the cluster of every atom, with its two
  assertions; atoms with an invalid id are skipped.
\<close>

fun record_atom_clusters ::
  "'s ClusterLegalizer \<Rightarrow> 's \<Rightarrow> AtomBlockId list \<Rightarrow> (nat \<rightharpoonup> LegalizationClusterId)
     \<Rightarrow> error + (nat \<rightharpoonup> LegalizationClusterId)" where
  "record_atom_clusters cl s [] atom_to_legalization_map = Inr atom_to_legalization_map"
| "record_atom_clusters cl s (atom_blk_id # atoms) atom_to_legalization_map =
     (case atom_blk_id of
        None \<Rightarrow> record_atom_clusters cl s atoms atom_to_legalization_map
      | Some a \<Rightarrow>
          if atom_to_legalization_map a \<noteq> None
          then Inl (VTR_ASSERT_failed ''!atom_to_legalization_map[atom_blk_id].is_valid()'')
          else (case get_atom_cluster cl a s of
                  None \<Rightarrow> Inl (VTR_ASSERT_failed ''cluser_id.is_valid()'')
                | Some cluser_id \<Rightarrow>
                    record_atom_clusters cl s atoms (atom_to_legalization_map(a \<mapsto> cluser_id))))"

fun record_block_clusters ::
  "'s ClusterLegalizer \<Rightarrow> 's \<Rightarrow> APNetlist \<Rightarrow> APBlockId list \<Rightarrow> (nat \<rightharpoonup> LegalizationClusterId)
     \<Rightarrow> error + (nat \<rightharpoonup> LegalizationClusterId)" where
  "record_block_clusters cl s ap [] atom_to_legalization_map = Inr atom_to_legalization_map"
| "record_block_clusters cl s ap (ap_blk_id # blks) atom_to_legalization_map =
     (case record_atom_clusters cl s (atom_block_ids ap (block_molecule ap ap_blk_id))
             atom_to_legalization_map of
        Inl e \<Rightarrow> Inl e
      | Inr m \<Rightarrow> record_block_clusters cl s ap blks m)"

text \<open>
  \<open>legalize\<close> up to \<open>compress\<close>: the reconstruction pass, the map from the atoms to
  their clusters, and the compressed legalizer.
\<close>

definition legalize_clustering ::
  "'s ClusterLegalizer \<Rightarrow> Netlist \<Rightarrow> APNetlist \<Rightarrow> DeviceGrid \<Rightarrow> (t_physical_tile_loc \<times> APBlockId list) list
     \<Rightarrow> 's pass_state \<Rightarrow> error + ((nat \<rightharpoonup> LegalizationClusterId) \<times> 's pass_state)" where
  "legalize_clustering cl nl ap grid tile_blocks st =
     (case pack_recontruction_pass cl nl ap grid tile_blocks st of
        Inl e \<Rightarrow> Inl e
      | Inr st' \<Rightarrow>
          (case record_block_clusters cl (legalizer st') ap (blocks ap) Map.empty of
             Inl e \<Rightarrow> Inl e
           | Inr atom_to_legalization_map \<Rightarrow>
               Inr (atom_to_legalization_map, st'\<lparr>legalizer := compress cl (legalizer st')\<rparr>)))"

section \<open>The naive clusterer\<close>

text \<open>
  The clustering loops of \<open>NaiveFullLegalizer::create_clusters\<close>. The inner loop walks
  \<open>mol_list\<close> with the iterator \<open>it\<close> and erases the molecules that the new cluster takes;
  the result is the list that is left, with the legalizer.
\<close>

fun naive_fill ::
  "'s ClusterLegalizer \<Rightarrow> LegalizationClusterId \<Rightarrow> PackMoleculeId list \<Rightarrow> 's
     \<Rightarrow> PackMoleculeId list \<times> 's" where
  "naive_fill cl new_cluster_id [] s = ([], s)"
| "naive_fill cl new_cluster_id (mol_id # rest) s =
     (if \<not> is_molecule_compatible cl mol_id new_cluster_id s
      then (case naive_fill cl new_cluster_id rest s of (kept, s') \<Rightarrow> (mol_id # kept, s'))
      else (case add_mol_to_cluster cl mol_id new_cluster_id s of
              (pack_status, s1) \<Rightarrow>
                if pack_status = BLK_PASSED then naive_fill cl new_cluster_id rest s1
                else (case naive_fill cl new_cluster_id rest s1 of
                        (kept, s') \<Rightarrow> (mol_id # kept, s'))))"

text \<open>
  The loop \<open>while (!mol_list.empty())\<close> of one tile: the first molecule of the list is
  the seed of a new cluster, which takes what it can from the rest and is cleaned. The
  list gets shorter with every seed, so the loop ends.
\<close>

function naive_cluster_molecules ::
  "'s ClusterLegalizer \<Rightarrow> Netlist \<Rightarrow> PackMoleculeId list \<Rightarrow> 's \<Rightarrow> error + 's" where
  "naive_cluster_molecules cl nl [] s = Inr s"
| "naive_cluster_molecules cl nl (seed_mol_id # rest) s =
     (case create_new_cluster cl nl seed_mol_id s of
        Inl e \<Rightarrow> Inl e
      | Inr (new_cluster_id, s1) \<Rightarrow>
          (case naive_fill cl new_cluster_id rest s1 of
             (mol_list, s2) \<Rightarrow>
               naive_cluster_molecules cl nl mol_list (clean_cluster cl new_cluster_id s2)))"
  by pat_completeness auto
termination
proof (relation "measure (\<lambda>(cl, nl, mol_list, s). length mol_list)")
  show "wf (measure (\<lambda>(cl, nl, mol_list, s). length mol_list))" by simp
next
  fix cl :: "'s ClusterLegalizer" and nl :: Netlist and seed_mol_id :: PackMoleculeId
    and rest :: "PackMoleculeId list" and s :: 's and p new_cluster_id s1 q mol_list s2
  assume "(mol_list, s2) = naive_fill cl new_cluster_id rest s1"
  moreover have "length (fst (naive_fill cl new_cluster_id rest s1)) \<le> length rest"
  proof (induction rest arbitrary: s1)
    case Nil
    show ?case by simp
  next
    case (Cons mol_id rest)
    from Cons [of s1] Cons [of "snd (add_mol_to_cluster cl mol_id new_cluster_id s1)"]
    show ?case by (auto split: prod.splits)
  qed
  ultimately have "length mol_list \<le> length rest" by (metis fst_conv)
  then show "((cl, nl, mol_list, clean_cluster cl new_cluster_id s2), cl, nl, seed_mol_id # rest, s)
              \<in> measure (\<lambda>(cl, nl, mol_list, s). length mol_list)"
    by simp
qed

text \<open>
  The loop over the tiles, and \<open>create_clusters\<close> up to the end of that loop.
  \<open>blocks_in_tiles\<close> is the vector that the loops before have filled, the AP blocks of
  every root tile; \<open>new_legalizer\<close> is the constructor of the cluster legalizer with all
  arguments but the strategy, which is \<open>FULL\<close> here.
\<close>

fun naive_tiles ::
  "'s ClusterLegalizer \<Rightarrow> Netlist \<Rightarrow> APNetlist \<Rightarrow> APBlockId list list \<Rightarrow> 's \<Rightarrow> error + 's" where
  "naive_tiles cl nl ap [] s = Inr s"
| "naive_tiles cl nl ap (blocks_in_tile # tiles) s =
     (case naive_cluster_molecules cl nl (map (block_molecule ap) blocks_in_tile) s of
        Inl e \<Rightarrow> Inl e
      | Inr s' \<Rightarrow> naive_tiles cl nl ap tiles s')"

definition create_clusters ::
  "'s ClusterLegalizer \<Rightarrow> (ClusterLegalizationStrategy \<Rightarrow> 's) \<Rightarrow> Netlist \<Rightarrow> APNetlist
     \<Rightarrow> APBlockId list list \<Rightarrow> error + 's" where
  "create_clusters cl new_legalizer nl ap blocks_in_tiles =
     naive_tiles cl nl ap blocks_in_tiles (new_legalizer FULL)"

section \<open>The greedy clusterer\<close>

text \<open>
  The fields of \<open>t_cluster_progress_stats\<close> that \<open>do_clustering\<close> reads or writes.
\<close>

record t_cluster_progress_stats =
  num_molecules :: int
  num_molecules_processed :: int
  mols_since_last_print :: int
  blocks_since_last_analysis :: int
  num_unrelated_clustering_attempts :: int

text \<open>
  The variables of \<open>do_clustering\<close> that live across the seeds. A molecule pointer is
  an \<open>option\<close> (\<open>None\<close> is the null pointer); \<open>num_used_type_instances\<close> counts in
  \<open>size_t\<close>; \<open>others\<close> is everything else that the helpers of \<open>cluster_util\<close> and the
  seed selector work on (the seed selector, the attraction groups, the clustering data,
  the timing information).
\<close>

record ('s, 'x) clusterer =
  cluster_legalizer :: 's
  others :: 'x
  istart :: "PackMoleculeId option"
  num_used_type_instances :: "t_logical_block_type_ptr \<Rightarrow> 64 word"
  total_clb_num :: int
  cluster_stats :: t_cluster_progress_stats
  block_pack_status :: e_block_pack_status

text \<open>The variables that \<open>try_fill_cluster\<close> gets by reference.\<close>

record ('s, 'x) fill_state =
  prev_molecule :: "PackMoleculeId option"
  next_molecule :: "PackMoleculeId option"
  num_repeated_molecules :: int
  fill_pack_status :: e_block_pack_status
  fill_stats :: t_cluster_progress_stats
  fill_legalizer :: 's
  fill_others :: 'x

text \<open>
  The helpers that \<open>do_clustering\<close> calls, each with the variables that the call hands
  to it, and the options and constants that the loop reads: \<open>timing_driven\<close>,
  the bound \<open>attraction_groups_max_repeated_molecules_\<close>, the number of attraction
  groups and the high-fanout threshold of a block type.
\<close>

record ('s, 'x) ClusterUtil =
  timing_driven :: bool
  attraction_groups_max_repeated_molecules :: int
  num_attraction_groups :: "'x \<Rightarrow> nat"
  get_threshold :: "t_logical_block_type_ptr \<Rightarrow> int"
  util_start_new_cluster ::
    "PackMoleculeId option \<Rightarrow> 's \<Rightarrow> (t_logical_block_type_ptr \<Rightarrow> 64 word) \<Rightarrow> 'x
       \<Rightarrow> error + (LegalizationClusterId \<times> 's \<times> (t_logical_block_type_ptr \<Rightarrow> 64 word) \<times> 'x)"
  update_cluster_stats :: "PackMoleculeId option \<Rightarrow> int \<Rightarrow> 's \<Rightarrow> 'x \<Rightarrow> 's \<times> 'x"
  get_molecule_for_cluster ::
    "LegalizationClusterId \<Rightarrow> int \<Rightarrow> 's \<Rightarrow> 'x \<Rightarrow> PackMoleculeId option \<times> int \<times> 's \<times> 'x"
  try_fill_cluster ::
    "LegalizationClusterId \<Rightarrow> int \<Rightarrow> int \<Rightarrow> ('s, 'x) fill_state \<Rightarrow> ('s, 'x) fill_state"
  get_next_seed :: "'s \<Rightarrow> 'x \<Rightarrow> PackMoleculeId option \<times> 's \<times> 'x"
  store_cluster_info_and_free :: "LegalizationClusterId \<Rightarrow> 's \<Rightarrow> 'x \<Rightarrow> 's \<times> 'x"

text \<open>
  The loop \<open>while (next_molecule != nullptr && num_repeated_molecules < max)\<close>. Whether
  it ends is up to \<open>try_fill_cluster\<close>; a run that does not end is \<open>None\<close>.
\<close>

partial_function (option) fill_cluster_loop ::
  "('s, 'x) ClusterUtil \<Rightarrow> LegalizationClusterId \<Rightarrow> int \<Rightarrow> int \<Rightarrow> int \<Rightarrow> ('s, 'x) fill_state
     \<Rightarrow> ('s, 'x) fill_state option" where
  "fill_cluster_loop util legalization_cluster_id clb_num high_fanout_threshold
       max_num_repeated_molecules fs =
     (if next_molecule fs \<noteq> None \<and> num_repeated_molecules fs < max_num_repeated_molecules
      then fill_cluster_loop util legalization_cluster_id clb_num high_fanout_threshold
             max_num_repeated_molecules
             (try_fill_cluster util legalization_cluster_id clb_num high_fanout_threshold
                (fs\<lparr>prev_molecule := next_molecule fs\<rparr>))
      else Some fs)"

declare fill_cluster_loop.simps [code]

text \<open>
  One pass of the loop over the strategies, up to the end of the growth: the strategy is
  set, the cluster is started from \<open>istart\<close> and filled. The result is the cluster with
  the variables as they are when the legality is decided.
\<close>

definition grow_cluster ::
  "('s, 'x) ClusterUtil \<Rightarrow> 's ClusterLegalizer \<Rightarrow> ClusterLegalizationStrategy \<Rightarrow> ('s, 'x) clusterer
     \<Rightarrow> (error + (LegalizationClusterId \<times> ('s, 'x) clusterer)) option" where
  "grow_cluster util cl strategy g =
     (case util_start_new_cluster util (istart g)
             (set_legalization_strategy cl strategy (cluster_legalizer g))
             (num_used_type_instances g) (others g) of
        Inl e \<Rightarrow> Some (Inl e)
      | Inr (legalization_cluster_id, s1, used, x1) \<Rightarrow>
          (let stats1 = (cluster_stats g)
                 \<lparr>num_molecules_processed := num_molecules_processed (cluster_stats g) + 1,
                  mols_since_last_print := mols_since_last_print (cluster_stats g) + 1\<rparr>;
               high_fanout_threshold =
                 get_threshold util (get_cluster_type cl legalization_cluster_id s1);
               clb_num = total_clb_num g + 1;
               stats2 = (if timing_driven util
                         then stats1\<lparr>blocks_since_last_analysis := blocks_since_last_analysis stats1 + 1\<rparr>
                         else stats1)
                        \<lparr>num_unrelated_clustering_attempts := 0\<rparr>
           in case update_cluster_stats util (istart g) high_fanout_threshold s1 x1 of
                (s2, x2) \<Rightarrow>
                  (case get_molecule_for_cluster util legalization_cluster_id
                          (num_unrelated_clustering_attempts stats2) s2 x2 of
                     (next, attempts, s3, x3) \<Rightarrow>
                       (let max_num_repeated_molecules =
                              (if num_attraction_groups util x3 > 0
                               then attraction_groups_max_repeated_molecules util else 1)
                        in case fill_cluster_loop util legalization_cluster_id clb_num
                                  high_fanout_threshold max_num_repeated_molecules
                                  \<lparr>prev_molecule = istart g, next_molecule = next,
                                   num_repeated_molecules = 0,
                                   fill_pack_status = block_pack_status g,
                                   fill_stats = stats2\<lparr>num_unrelated_clustering_attempts := attempts\<rparr>,
                                   fill_legalizer = s3, fill_others = x3\<rparr> of
                             None \<Rightarrow> None
                           | Some fs \<Rightarrow>
                               Some (Inr (legalization_cluster_id,
                                          g\<lparr>cluster_legalizer := fill_legalizer fs,
                                            others := fill_others fs,
                                            num_used_type_instances := used,
                                            total_clb_num := clb_num,
                                            cluster_stats := fill_stats fs,
                                            block_pack_status := fill_pack_status fs\<rparr>))))))"

text \<open>
  The two branches after the decision. In the legal branch the statement on
  \<open>num_blocks_hill_added\<close> does nothing, since that variable is 0 throughout.
\<close>

definition finalize_cluster ::
  "('s, 'x) ClusterUtil \<Rightarrow> 's ClusterLegalizer \<Rightarrow> LegalizationClusterId \<Rightarrow> ('s, 'x) clusterer
     \<Rightarrow> ('s, 'x) clusterer" where
  "finalize_cluster util cl legalization_cluster_id g =
     (case get_next_seed util (cluster_legalizer g) (others g) of
        (seed, s1, x1) \<Rightarrow>
          (case store_cluster_info_and_free util legalization_cluster_id s1 x1 of
             (s2, x2) \<Rightarrow>
               g\<lparr>istart := seed,
                 cluster_legalizer := clean_cluster cl legalization_cluster_id s2,
                 others := x2\<rparr>))"

definition requeue_cluster ::
  "'s ClusterLegalizer \<Rightarrow> LegalizationClusterId \<Rightarrow> ('s, 'x) clusterer \<Rightarrow> ('s, 'x) clusterer" where
  "requeue_cluster cl legalization_cluster_id g =
     (let type = get_cluster_type cl legalization_cluster_id (cluster_legalizer g)
      in g\<lparr>num_used_type_instances :=
              (num_used_type_instances g)(type := num_used_type_instances g type - 1),
            total_clb_num := total_clb_num g - 1,
            cluster_legalizer :=
              compress cl (destroy_cluster cl legalization_cluster_id (cluster_legalizer g))\<rparr>)"

definition cluster_attempt ::
  "('s, 'x) ClusterUtil \<Rightarrow> 's ClusterLegalizer \<Rightarrow> ClusterLegalizationStrategy \<Rightarrow> ('s, 'x) clusterer
     \<Rightarrow> (error + (bool \<times> ('s, 'x) clusterer)) option" where
  "cluster_attempt util cl strategy g =
     (case grow_cluster util cl strategy g of
        None \<Rightarrow> None
      | Some (Inl e) \<Rightarrow> Some (Inl e)
      | Some (Inr (legalization_cluster_id, g1)) \<Rightarrow>
          (let is_cluster_legal =
                 (if strategy = FULL then True
                  else check_cluster_legality cl legalization_cluster_id (cluster_legalizer g1))
           in if is_cluster_legal
              then Some (Inr (True, finalize_cluster util cl legalization_cluster_id g1))
              else Some (Inr (False, requeue_cluster cl legalization_cluster_id g1))))"

text \<open>The loop over \<open>legalization_strategies\<close>, which is left once the cluster is legal.\<close>

fun cluster_strategies ::
  "('s, 'x) ClusterUtil \<Rightarrow> 's ClusterLegalizer \<Rightarrow> ClusterLegalizationStrategy list \<Rightarrow> bool
     \<Rightarrow> ('s, 'x) clusterer \<Rightarrow> (error + ('s, 'x) clusterer) option" where
  "cluster_strategies util cl [] is_cluster_legal g = Some (Inr g)"
| "cluster_strategies util cl (strategy # rest) is_cluster_legal g =
     (if is_cluster_legal then Some (Inr g)
      else
        (case cluster_attempt util cl strategy g of
           None \<Rightarrow> None
         | Some (Inl e) \<Rightarrow> Some (Inl e)
         | Some (Inr (is_cluster_legal', g')) \<Rightarrow>
             cluster_strategies util cl rest is_cluster_legal' g'))"

text \<open>The body of the loop \<open>while (istart != nullptr)\<close>: one seed.\<close>

definition cluster_seed ::
  "('s, 'x) ClusterUtil \<Rightarrow> 's ClusterLegalizer \<Rightarrow> ('s, 'x) clusterer
     \<Rightarrow> (error + ('s, 'x) clusterer) option" where
  "cluster_seed util cl g = cluster_strategies util cl [SKIP_INTRA_LB_ROUTE, FULL] False g"

section \<open>The contract of the strict tier\<close>

text \<open>
  Modelled from the spec: the class \<open>ClusterLegalizer\<close> and the helpers of
  \<open>cluster_util\<close> are used by the two clusterers, but their bodies are not part of the
  sources read here. The spec says of the strict tier that in it ``every addition is
  strictly checked'', and the clusterers say ``if the legalizer fully legalized for every
  molecule added, the cluster should be legal''. As a contract: in a legalizer state of
  the strict strategy (\<open>strict\<close>), a cluster that \<open>start_new_cluster\<close> accepts passes
  the check, adding to a cluster that passes the check leaves it passing, and the state
  stays strict.
\<close>

definition strict_tier_sound :: "'s ClusterLegalizer \<Rightarrow> ('s \<Rightarrow> bool) \<Rightarrow> bool" where
  "strict_tier_sound cl strict \<longleftrightarrow>
     (\<forall>mol type mode s. strict s \<longrightarrow>
        strict (snd (start_new_cluster cl mol type mode s))
        \<and> (fst (fst (start_new_cluster cl mol type mode s)) = BLK_PASSED \<longrightarrow>
             check_cluster_legality cl (snd (fst (start_new_cluster cl mol type mode s)))
               (snd (start_new_cluster cl mol type mode s))))
     \<and> (\<forall>mol c s. strict s \<longrightarrow>
          strict (snd (add_mol_to_cluster cl mol c s))
          \<and> (check_cluster_legality cl c s \<longrightarrow>
               check_cluster_legality cl c (snd (add_mol_to_cluster cl mol c s))))
     \<and> (\<forall>c s. strict s \<longrightarrow> strict (clean_cluster cl c s))"

text \<open>
  Modelled from the spec: the same for the helpers of the greedy clusterer (\<open>cluster_util\<close>,
  bodies not part of the sources read here), which work on the legalizer: after
  \<open>set_legalization_strategy(FULL)\<close> the state is strict, the cluster that the start
  helper returns passes the check, and the other helpers keep a passing cluster passing.
\<close>

definition greedy_strict_sound ::
  "('s, 'x) ClusterUtil \<Rightarrow> 's ClusterLegalizer \<Rightarrow> ('s \<Rightarrow> bool) \<Rightarrow> bool" where
  "greedy_strict_sound util cl strict \<longleftrightarrow>
     (\<forall>s. strict (set_legalization_strategy cl FULL s))
     \<and> (\<forall>seed s used x c s' used' x'.
          strict s \<and> util_start_new_cluster util seed s used x = Inr (c, s', used', x') \<longrightarrow>
          strict s' \<and> check_cluster_legality cl c s')
     \<and> (\<forall>seed hf s x c.
          strict s \<and> check_cluster_legality cl c s \<longrightarrow>
          strict (fst (update_cluster_stats util seed hf s x))
          \<and> check_cluster_legality cl c (fst (update_cluster_stats util seed hf s x)))
     \<and> (\<forall>c' attempts s x c.
          strict s \<and> check_cluster_legality cl c s \<longrightarrow>
          strict (fst (snd (snd (get_molecule_for_cluster util c' attempts s x))))
          \<and> check_cluster_legality cl c (fst (snd (snd (get_molecule_for_cluster util c' attempts s x)))))
     \<and> (\<forall>c clb_num hf fs.
          strict (fill_legalizer fs) \<and> check_cluster_legality cl c (fill_legalizer fs) \<longrightarrow>
          strict (fill_legalizer (try_fill_cluster util c clb_num hf fs))
          \<and> check_cluster_legality cl c (fill_legalizer (try_fill_cluster util c clb_num hf fs)))"

text \<open>
  Modelled from the spec: of the legalizer the spec gives the operations on a cluster by
  its id (start, add, check, clean, destroy, set the strategy); the bodies are not part
  of the sources read here. As a contract, with \<open>live\<close> the ids of the clusters that
  exist in a legalizer state: setting the strategy to \<open>FULL\<close> makes the state strict and
  leaves the clusters as they are; a cluster that \<open>start_new_cluster\<close> accepts has an id
  that no live cluster has and becomes live, a start that fails adds none, and the live
  clusters that pass the check go on passing; adding to a cluster, cleaning a cluster
  and destroying a cluster leave the other clusters passing the check when they did,
  cleaning leaves also the cleaned one as it is, and only destroying takes a cluster,
  the destroyed one, from the live ones.
\<close>

definition legalizer_frame ::
  "'s ClusterLegalizer \<Rightarrow> ('s \<Rightarrow> bool) \<Rightarrow> ('s \<Rightarrow> LegalizationClusterId set) \<Rightarrow> bool" where
  "legalizer_frame cl strict live \<longleftrightarrow>
     (\<forall>s. strict (set_legalization_strategy cl FULL s))
     \<and> (\<forall>strategy s c.
          live (set_legalization_strategy cl strategy s) = live s
          \<and> check_cluster_legality cl c (set_legalization_strategy cl strategy s)
              = check_cluster_legality cl c s)
     \<and> (\<forall>mol type mode s.
          (fst (fst (start_new_cluster cl mol type mode s)) = BLK_PASSED \<longrightarrow>
             snd (fst (start_new_cluster cl mol type mode s)) \<notin> live s
             \<and> live (snd (start_new_cluster cl mol type mode s))
                 = insert (snd (fst (start_new_cluster cl mol type mode s))) (live s))
          \<and> (fst (fst (start_new_cluster cl mol type mode s)) \<noteq> BLK_PASSED \<longrightarrow>
               live (snd (start_new_cluster cl mol type mode s)) = live s)
          \<and> (\<forall>c. c \<in> live s \<and> check_cluster_legality cl c s \<longrightarrow>
                 check_cluster_legality cl c (snd (start_new_cluster cl mol type mode s))))
     \<and> (\<forall>mol c s.
          live (snd (add_mol_to_cluster cl mol c s)) = live s
          \<and> (\<forall>c'. c' \<noteq> c \<and> check_cluster_legality cl c' s \<longrightarrow>
                 check_cluster_legality cl c' (snd (add_mol_to_cluster cl mol c s))))
     \<and> (\<forall>c s.
          live (clean_cluster cl c s) = live s
          \<and> (\<forall>c'. check_cluster_legality cl c' (clean_cluster cl c s)
                   = check_cluster_legality cl c' s))
     \<and> (\<forall>c s.
          live (destroy_cluster cl c s) = live s - {c}
          \<and> (\<forall>c'. c' \<noteq> c \<and> check_cluster_legality cl c' s \<longrightarrow>
                 check_cluster_legality cl c' (destroy_cluster cl c s)))"

section \<open>The clusters that a pass keeps\<close>

text \<open>
  The clusters that the reconstruction has kept in a state: those bound to a site and
  those in the table of unplaced clusters; and the property that all of them are live
  and pass the check.
\<close>

definition kept_clusters :: "'s pass_state \<Rightarrow> LegalizationClusterId set" where
  "kept_clusters st =
     ran (loc_to_cluster_id_placed st) \<union> \<Union> (set ` snd ` set (cluster_id_to_loc_unplaced st))"

definition all_legal ::
  "'s ClusterLegalizer \<Rightarrow> ('s \<Rightarrow> LegalizationClusterId set) \<Rightarrow> 's pass_state \<Rightarrow> bool" where
  "all_legal cl live st \<longleftrightarrow>
     kept_clusters st \<subseteq> live (legalizer st)
     \<and> (\<forall>c \<in> kept_clusters st. check_cluster_legality cl c (legalizer st))"

text \<open>
  What a step that only works on cluster \<open>c\<close> leaves as it is: the two tables, the
  live clusters, and the other clusters that pass the check.
\<close>

definition others_kept ::
  "'s ClusterLegalizer \<Rightarrow> ('s \<Rightarrow> LegalizationClusterId set) \<Rightarrow> LegalizationClusterId
     \<Rightarrow> 's pass_state \<Rightarrow> 's pass_state \<Rightarrow> bool" where
  "others_kept cl live c st st' \<longleftrightarrow>
     loc_to_cluster_id_placed st' = loc_to_cluster_id_placed st
     \<and> cluster_id_to_loc_unplaced st' = cluster_id_to_loc_unplaced st
     \<and> live (legalizer st') = live (legalizer st)
     \<and> (\<forall>c'. c' \<noteq> c \<and> check_cluster_legality cl c' (legalizer st) \<longrightarrow>
              check_cluster_legality cl c' (legalizer st'))"

text \<open>
  The invariants of the three loops over one tile. In the first loop a bound cluster is
  either one that the loop started, recorded in \<open>cluster_ids_to_check\<close> with its site,
  or it passes the check and sits at another tile. In the loop over
  \<open>cluster_ids_to_check\<close> a bound cluster is either still to be checked, recorded with its
  site, or it passes the check. In the retry loop the legalizer is strict and every bound
  cluster passes the check. The tables across a tile: the unplaced table stays, and a
  site is bound afterwards only if it was bound before or lies at the tile.
\<close>

definition first_loop_inv ::
  "'s ClusterLegalizer \<Rightarrow> ('s \<Rightarrow> LegalizationClusterId set) \<Rightarrow> t_physical_tile_loc
     \<Rightarrow> check_table \<times> 's pass_state \<Rightarrow> bool" where
  "first_loop_inv cl live tile cs \<longleftrightarrow>
     distinct (map fst (fst cs))
     \<and> ran (loc_to_cluster_id_placed (snd cs)) \<subseteq> live (legalizer (snd cs))
     \<and> (\<forall>loc c. loc_to_cluster_id_placed (snd cs) loc = Some c \<longrightarrow>
            (c \<in> fst ` set (fst cs) \<longrightarrow> map_of (fst cs) c = Some loc)
            \<and> (c \<notin> fst ` set (fst cs) \<longrightarrow>
                 check_cluster_legality cl c (legalizer (snd cs)) \<and> tile_of loc \<noteq> tile))"

definition check_inv ::
  "'s ClusterLegalizer \<Rightarrow> ('s \<Rightarrow> LegalizationClusterId set) \<Rightarrow> check_table \<Rightarrow> 's pass_state \<Rightarrow> bool" where
  "check_inv cl live rest st \<longleftrightarrow>
     distinct (map fst rest)
     \<and> ran (loc_to_cluster_id_placed st) \<subseteq> live (legalizer st)
     \<and> (\<forall>loc c. loc_to_cluster_id_placed st loc = Some c \<longrightarrow>
            (c \<in> fst ` set rest \<longrightarrow> map_of rest c = Some loc)
            \<and> (c \<notin> fst ` set rest \<longrightarrow> check_cluster_legality cl c (legalizer st)))"

definition retry_inv ::
  "'s ClusterLegalizer \<Rightarrow> ('s \<Rightarrow> bool) \<Rightarrow> ('s \<Rightarrow> LegalizationClusterId set)
     \<Rightarrow> check_table \<times> 's pass_state \<Rightarrow> bool" where
  "retry_inv cl strict live cs \<longleftrightarrow>
     strict (legalizer (snd cs))
     \<and> ran (loc_to_cluster_id_placed (snd cs)) \<subseteq> live (legalizer (snd cs))
     \<and> (\<forall>c \<in> ran (loc_to_cluster_id_placed (snd cs)).
            check_cluster_legality cl c (legalizer (snd cs)))"

definition tile_tables ::
  "'s pass_state \<Rightarrow> t_physical_tile_loc \<Rightarrow> check_table \<times> 's pass_state \<Rightarrow> bool" where
  "tile_tables st tile cs \<longleftrightarrow>
     cluster_id_to_loc_unplaced (snd cs) = cluster_id_to_loc_unplaced st
     \<and> (\<forall>loc. loc_to_cluster_id_placed (snd cs) loc \<noteq> None \<longrightarrow>
               loc_to_cluster_id_placed st loc \<noteq> None \<or> tile_of loc = tile)"

section \<open>Concrete instances\<close>

text \<open>
  A legalizer whose state counts the calls of \<open>start_new_cluster\<close>, which accepts a seed
  only in block type 1, mode 0 and names the cluster after the number of the call.
\<close>

definition counting_legalizer :: "nat ClusterLegalizer" where
  "counting_legalizer =
     \<lparr>start_new_cluster = (\<lambda>mol type mode n.
         ((if type = 1 \<and> mode = 0 then BLK_PASSED else BLK_FAILED_FEASIBLE, n), Suc n)),
      add_mol_to_cluster = (\<lambda>mol c n. (BLK_FAILED_FEASIBLE, n)),
      is_molecule_compatible = (\<lambda>mol c n. False),
      is_mol_clustered = (\<lambda>mol n. False),
      check_cluster_legality = (\<lambda>c n. True),
      clean_cluster = (\<lambda>c n. n),
      destroy_cluster = (\<lambda>c n. n),
      get_cluster_molecules = (\<lambda>c n. []),
      get_cluster_type = (\<lambda>c n. 1),
      get_cluster_pb = (\<lambda>c n. None),
      get_atom_cluster = (\<lambda>a n. None),
      set_legalization_strategy = (\<lambda>st n. n),
      compress = (\<lambda>n. n)\<rparr>"

text \<open>A netlist in which every molecule has the candidate types 0 (two modes) and 1 (one mode).\<close>

definition two_type_netlist :: Netlist where
  "two_type_netlist =
     \<lparr>molecule_root_atom = (\<lambda>mol. Some mol),
      block_model = (\<lambda>atom. Some 0),
      primitive_candidate_block_types = (\<lambda>model. [0, 1]),
      num_modes = (\<lambda>type. if type = 0 then 2 else 1)\<rparr>"

text \<open>
  A placement context over a registry that lists the bound (cluster, location) pairs.
  Cluster 0 is constrained to the region \<open>[0,1] x [0,1]\<close> of layer 0; every tile has one
  sub-tile; \<open>try_place_macro\<close> binds the head of the macro when the location is free.
\<close>

definition in_region :: "Region \<Rightarrow> t_pl_loc \<Rightarrow> bool" where
  "in_region r loc \<longleftrightarrow> xlow r \<le> pl_x loc \<and> pl_x loc \<le> xhigh r \<and> ylow r \<le> pl_y loc
     \<and> pl_y loc \<le> yhigh r \<and> region_layer r = pl_layer loc"

definition constrained_context :: "(ClusterBlockId \<times> t_pl_loc) list PlaceContext" where
  "constrained_context =
     \<lparr>is_block_placed = (\<lambda>clb reg. clb \<in> fst ` set reg),
      num_sub_tiles = (\<lambda>tile. 1),
      tile_capacity = (\<lambda>tile. 1),
      is_cluster_constrained = (\<lambda>clb. clb = 0),
      cluster_constraints = (\<lambda>clb. [\<lparr>xlow = 0, ylow = 0, xhigh = 1, yhigh = 1, region_layer = 0\<rparr>]),
      is_loc_in_part_reg = (\<lambda>pr loc. list_ex (\<lambda>r. in_region r loc) pr),
      get_device_partition_region = [\<lparr>xlow = 0, ylow = 0, xhigh = 9, yhigh = 9, region_layer = 0\<rparr>],
      get_imacro_from_iblk = (\<lambda>clb. - 1),
      place_macros = (\<lambda>i. []),
      clb_nlist_block_type = (\<lambda>clb. 0),
      pad_loc_type = 0,
      default_sub_tile = - 1,
      try_place_macro = (\<lambda>m loc reg.
         if loc \<in> snd ` set reg then (False, reg)
         else (True, map (\<lambda>mem. (blk_index mem, loc)) m @ reg)),
      try_place_macro_exhaustively = (\<lambda>m pr type pad reg.
         (case pr of [] \<Rightarrow> (False, reg)
          | r # rs \<Rightarrow>
              (let loc = \<lparr>pl_x = xlow r, pl_y = ylow r, pl_sub_tile = 0, pl_layer = region_layer r\<rparr>
               in if loc \<in> snd ` set reg then (False, reg)
                  else (True, map (\<lambda>mem. (blk_index mem, loc)) m @ reg))))\<rparr>"

text \<open>
  A 3 x 3 device of one tile type with one sub-tile per tile, which accepts block type 1,
  its centre tile, and a table in which the centre is taken.
\<close>

definition grid3 :: DeviceGrid where
  "grid3 = \<lparr>width = 3, height = 3, get_physical_type = (\<lambda>t. 0),
             get_width_offset = (\<lambda>t. 0), get_height_offset = (\<lambda>t. 0),
             capacity = (\<lambda>tt. 1), is_tile_compatible = (\<lambda>tt bt. bt = 1)\<rparr>"

definition centre :: t_physical_tile_loc where
  "centre = \<lparr>tile_x = 1, tile_y = 1, tile_layer_num = 0\<rparr>"

definition centre_taken :: placed_table where
  "centre_taken = [\<lparr>pl_x = 1, pl_y = 1, pl_sub_tile = 0, pl_layer = 0\<rparr> \<mapsto> 5]"

text \<open>
  A legalizer with a state of its own. A cluster holds at most two molecules and is
  strictly legal when the numbers of its molecules add up to less than 10; the cheap
  tier only looks at the size, the strict tier also at the sum. Clusters are of block
  type 1, mode 0, and the atoms of molecule \<open>m\<close> are named \<open>m\<close>.
\<close>

record legalizer_state =
  sl_clusters :: "(LegalizationClusterId \<times> PackMoleculeId list) list"
  sl_strategy :: ClusterLegalizationStrategy
  sl_next :: nat

definition strictly_legal :: "PackMoleculeId list \<Rightarrow> bool" where
  "strictly_legal mols \<longleftrightarrow> sum_list mols < 10"

definition simple_legalizer :: "legalizer_state ClusterLegalizer" where
  "simple_legalizer =
     \<lparr>start_new_cluster = (\<lambda>mol type mode s.
         if type = 1 \<and> mode = 0 \<and> (sl_strategy s = SKIP_INTRA_LB_ROUTE \<or> strictly_legal [mol])
         then ((BLK_PASSED, sl_next s),
               s\<lparr>sl_clusters := AList.update (sl_next s) [mol] (sl_clusters s),
                  sl_next := sl_next s + 1\<rparr>)
         else ((BLK_FAILED_FEASIBLE, sl_next s), s)),
      add_mol_to_cluster = (\<lambda>mol c s.
         case map_of (sl_clusters s) c of
           None \<Rightarrow> (BLK_FAILED_FEASIBLE, s)
         | Some mols \<Rightarrow>
             if length mols < 2 \<and> (sl_strategy s = SKIP_INTRA_LB_ROUTE \<or> strictly_legal (mols @ [mol]))
             then (BLK_PASSED, s\<lparr>sl_clusters := AList.update c (mols @ [mol]) (sl_clusters s)\<rparr>)
             else (BLK_FAILED_ROUTE, s)),
      is_molecule_compatible = (\<lambda>mol c s. True),
      is_mol_clustered = (\<lambda>mol s. list_ex (\<lambda>p. mol \<in> set (snd p)) (sl_clusters s)),
      check_cluster_legality = (\<lambda>c s.
         case map_of (sl_clusters s) c of None \<Rightarrow> False | Some mols \<Rightarrow> strictly_legal mols),
      clean_cluster = (\<lambda>c s. s),
      destroy_cluster = (\<lambda>c s. s\<lparr>sl_clusters := AList.delete c (sl_clusters s)\<rparr>),
      get_cluster_molecules = (\<lambda>c s.
         case map_of (sl_clusters s) c of None \<Rightarrow> [] | Some mols \<Rightarrow> mols),
      get_cluster_type = (\<lambda>c s. 1),
      get_cluster_pb = (\<lambda>c s.
         case map_of (sl_clusters s) c of
           None \<Rightarrow> None
         | Some mols \<Rightarrow> Some (T_pb 0 (if length mols < 2 then None else Some ''full'') None)),
      get_atom_cluster = (\<lambda>a s. map_option fst (find (\<lambda>p. a \<in> set (snd p)) (sl_clusters s))),
      set_legalization_strategy = (\<lambda>strategy s. s\<lparr>sl_strategy := strategy\<rparr>),
      compress = (\<lambda>s. s)\<rparr>"

text \<open>
  A netlist in which the even molecules have the candidate types \<open>[1]\<close> and the odd ones
  \<open>[0, 1]\<close>, and an AP netlist with one block per molecule and one atom per molecule.
\<close>

definition mixed_netlist :: Netlist where
  "mixed_netlist =
     \<lparr>molecule_root_atom = (\<lambda>mol. Some mol),
      block_model = (\<lambda>atom. map_option (\<lambda>a. a mod 2) atom),
      primitive_candidate_block_types = (\<lambda>model. if model = Some 0 then [1] else [0, 1]),
      num_modes = (\<lambda>type. 1)\<rparr>"

definition one_atom_blocks :: "APBlockId list \<Rightarrow> APNetlist" where
  "one_atom_blocks blks =
     \<lparr>blocks = blks, block_molecule = (\<lambda>blk. blk), atom_block_ids = (\<lambda>mol. [Some mol])\<rparr>"

definition initial_state :: "placed_table \<Rightarrow> legalizer_state pass_state" where
  "initial_state tbl =
     \<lparr>legalizer = \<lparr>sl_clusters = [], sl_strategy = SKIP_INTRA_LB_ROUTE, sl_next = 0\<rparr>,
      loc_to_cluster_id_placed = tbl,
      cluster_id_to_loc_desired = Map.empty,
      unclustered_blocks = [],
      unclustered_block_locs = [],
      cluster_id_to_loc_unplaced = [],
      cluster_created_mid_first_pass = 0\<rparr>"

text \<open>A table in which the tile west of the centre is taken by cluster 7.\<close>

definition west_taken :: placed_table where
  "west_taken = [\<lparr>pl_x = 0, pl_y = 1, pl_sub_tile = 0, pl_layer = 0\<rparr> \<mapsto> 7]"

text \<open>A device of a single tile with one sub-tile, which accepts block type 1, and its tile.\<close>

definition grid1 :: DeviceGrid where
  "grid1 = \<lparr>width = 1, height = 1, get_physical_type = (\<lambda>t. 0),
             get_width_offset = (\<lambda>t. 0), get_height_offset = (\<lambda>t. 0),
             capacity = (\<lambda>tt. 1), is_tile_compatible = (\<lambda>tt bt. bt = 1)\<rparr>"

definition origin :: t_physical_tile_loc where
  "origin = \<lparr>tile_x = 0, tile_y = 0, tile_layer_num = 0\<rparr>"

text \<open>
  Helpers for the greedy clusterer over \<open>simple_legalizer\<close>. The other state is the
  list of all molecules in seed order; the next seed and the next candidate are the
  first molecule of the list that is in no cluster. \<open>try_fill_cluster\<close> adds the
  candidate and counts a repetition when the next candidate is the one that it just tried.
\<close>

definition next_unclustered :: "legalizer_state \<Rightarrow> PackMoleculeId list \<Rightarrow> PackMoleculeId option" where
  "next_unclustered s pool = find (\<lambda>m. \<not> is_mol_clustered simple_legalizer m s) pool"

definition simple_util :: "(legalizer_state, PackMoleculeId list) ClusterUtil" where
  "simple_util =
     \<lparr>timing_driven = False,
      attraction_groups_max_repeated_molecules = 500,
      num_attraction_groups = (\<lambda>pool. 0),
      get_threshold = (\<lambda>type. 256),
      util_start_new_cluster = (\<lambda>seed s used pool.
         case seed of
           None \<Rightarrow> Inl Unable_to_create_cluster
         | Some m \<Rightarrow>
             (case start_new_cluster simple_legalizer m 1 0 s of
                ((status, c), s') \<Rightarrow>
                  if status = BLK_PASSED then Inr (c, s', used(1 := used 1 + 1), pool)
                  else Inl Unable_to_create_cluster)),
      update_cluster_stats = (\<lambda>seed hf s pool. (s, pool)),
      get_molecule_for_cluster = (\<lambda>c attempts s pool. (next_unclustered s pool, attempts, s, pool)),
      try_fill_cluster = (\<lambda>c clb_num hf fs.
         case next_molecule fs of
           None \<Rightarrow> fs
         | Some m \<Rightarrow>
             (case add_mol_to_cluster simple_legalizer m c (fill_legalizer fs) of
                (status, s') \<Rightarrow>
                  fs\<lparr>fill_pack_status := status,
                     fill_legalizer := s',
                     next_molecule := next_unclustered s' (fill_others fs),
                     num_repeated_molecules :=
                       (if next_unclustered s' (fill_others fs) = prev_molecule fs
                        then num_repeated_molecules fs + 1 else num_repeated_molecules fs)\<rparr>)),
      get_next_seed = (\<lambda>s pool. (next_unclustered s pool, s, pool)),
      store_cluster_info_and_free = (\<lambda>c s pool. (s, pool))\<rparr>"

definition initial_clusterer ::
  "PackMoleculeId list \<Rightarrow> (legalizer_state, PackMoleculeId list) clusterer" where
  "initial_clusterer pool =
     \<lparr>cluster_legalizer = \<lparr>sl_clusters = [], sl_strategy = SKIP_INTRA_LB_ROUTE, sl_next = 0\<rparr>,
      others = pool,
      istart = next_unclustered \<lparr>sl_clusters = [], sl_strategy = SKIP_INTRA_LB_ROUTE, sl_next = 0\<rparr> pool,
      num_used_type_instances = (\<lambda>type. 0),
      total_clb_num = 0,
      cluster_stats = \<lparr>num_molecules = int (length pool), num_molecules_processed = 0,
                       mols_since_last_print = 0, blocks_since_last_analysis = 0,
                       num_unrelated_clustering_attempts = 0\<rparr>,
      block_pack_status = BLK_STATUS_UNDEFINED\<rparr>"

text \<open>The live clusters of \<open>simple_legalizer\<close>: the listed ones with an id that has been given out.\<close>

definition simple_live :: "legalizer_state \<Rightarrow> LegalizationClusterId set" where
  "simple_live s = {c \<in> fst ` set (sl_clusters s). c < sl_next s}"

text \<open>
  A netlist in which the even molecules have the candidate types \<open>[1]\<close> and the odd ones
  only \<open>[0]\<close>, a type in which \<open>simple_legalizer\<close> starts no cluster; and a 3 x 3 device
  whose tiles accept every block type.
\<close>

definition typed_netlist :: Netlist where
  "typed_netlist =
     \<lparr>molecule_root_atom = (\<lambda>mol. Some mol),
      block_model = (\<lambda>atom. map_option (\<lambda>a. a mod 2) atom),
      primitive_candidate_block_types = (\<lambda>model. if model = Some 0 then [1] else [0]),
      num_modes = (\<lambda>type. 1)\<rparr>"

definition grid_open :: DeviceGrid where
  "grid_open = \<lparr>width = 3, height = 3, get_physical_type = (\<lambda>t. 0),
                 get_width_offset = (\<lambda>t. 0), get_height_offset = (\<lambda>t. 0),
                 capacity = (\<lambda>tt. 1), is_tile_compatible = (\<lambda>tt bt. True)\<rparr>"

text \<open>The state in which \<open>simple_legalizer\<close> is constructed.\<close>

definition fresh_legalizer :: "ClusterLegalizationStrategy \<Rightarrow> legalizer_state" where
  "fresh_legalizer strategy = \<lparr>sl_clusters = [], sl_strategy = strategy, sl_next = 0\<rparr>"

section \<open>Properties of the start step\<close>

lemma upt_nat_step: "0 \<le> mode \<Longrightarrow> mode < nmodes \<Longrightarrow>
   [nat mode ..< nat nmodes] = nat mode # [nat (mode + 1) ..< nat nmodes]"
proof -
  assume a: "0 \<le> mode" "mode < nmodes"
  then have "nat mode < nat nmodes" by linarith
  moreover from a have "nat (mode + 1) = Suc (nat mode)" by linarith
  ultimately show ?thesis by (simp only: upt_conv_Cons)
qed

lemma create_new_cluster_modes_probe:
  "0 \<le> mode \<Longrightarrow>
   create_new_cluster_modes cl seed type nmodes mode s =
     probe_in_order cl seed (map (\<lambda>m. (type, int m)) [nat mode ..< nat nmodes]) s"
proof (induction cl seed type nmodes mode s rule: create_new_cluster_modes.induct)
  case (1 cl seed type nmodes mode s)
  show ?case
  proof (cases "mode < nmodes")
    case True
    note up = upt_nat_step [OF "1.prems" True]
    obtain st c s' where st: "start_new_cluster cl seed type mode s = ((st, c), s')"
      by (metis surj_pair)
    have im: "int (nat mode) = mode" using "1.prems" by simp
    show ?thesis
    proof (cases "st = BLK_PASSED")
      case True
      show ?thesis
        by (subst create_new_cluster_modes.simps) (simp add: up "1.prems" st \<open>mode < nmodes\<close> True del: upt_Suc)
    next
      case False
      have "0 \<le> mode + 1" using "1.prems" by simp
      then have ih: "create_new_cluster_modes cl seed type nmodes (mode + 1) s' =
            probe_in_order cl seed (map (\<lambda>m. (type, int m)) [nat (mode + 1) ..< nat nmodes]) s'"
        using "1.IH" [OF \<open>mode < nmodes\<close> st [symmetric] refl False] by simp
      show ?thesis
        by (subst create_new_cluster_modes.simps) (simp add: up "1.prems" st \<open>mode < nmodes\<close> False ih del: upt_Suc)
    qed
  next
    case False
    then have "[nat mode ..< nat nmodes] = []" by simp
    with False show ?thesis
      by (subst create_new_cluster_modes.simps) simp
  qed
qed

lemma probe_in_order_append:
  "probe_in_order cl seed (ps @ qs) s =
     (case probe_in_order cl seed ps s of
        (Some c, s') \<Rightarrow> (Some c, s')
      | (None, s') \<Rightarrow> probe_in_order cl seed qs s')"
  by (induction ps arbitrary: s) (auto split: prod.splits)

lemma create_new_cluster_types_probe:
  "create_new_cluster_types cl nl seed types s =
     probe_in_order cl seed
       (concat (map (\<lambda>type. map (\<lambda>m. (type, int m)) [0 ..< nat (num_modes nl type)]) types)) s"
proof (induction types arbitrary: s)
  case Nil
  show ?case by simp
next
  case (Cons type types)
  have m: "create_new_cluster_modes cl seed type (num_modes nl type) 0 s =
           probe_in_order cl seed (map (\<lambda>m. (type, int m)) [0 ..< nat (num_modes nl type)]) s"
    using create_new_cluster_modes_probe [of 0 cl seed type "num_modes nl type" s] by simp
  show ?case
    by (simp add: probe_in_order_append m Cons.IH split: prod.splits option.splits)
qed


lemma not_isl_projr: "\<not> isl x \<Longrightarrow> x = Inr (projr x)"
  by (cases x) simp_all


lemma try_tile_sub_tiles_not_root:
  "\<not> is_root_tile grid tile \<Longrightarrow>
   try_tile_sub_tiles cl nl grid cc tile bt mol subs cs = Inr (False, cs)"
  by (cases subs) simp_all

lemma try_tile_sub_tiles_append:
  "try_tile_sub_tiles cl nl grid cc tile bt mol (pre @ rest) cs =
     (case try_tile_sub_tiles cl nl grid cc tile bt mol pre cs of
        Inl e \<Rightarrow> Inl e
      | Inr (placed, cs') \<Rightarrow>
          if placed then Inr (True, cs')
          else try_tile_sub_tiles cl nl grid cc tile bt mol rest cs')"
proof (induction cl nl grid cc tile bt mol pre cs rule: try_tile_sub_tiles.induct)
  case (1 cl nl grid cc tile bt mol cs)
  show ?case by simp
next
  case (2 cl nl grid cc tile bt mol sub pre cs)
  show ?case
  proof (cases "is_root_tile grid tile")
    case False
    then show ?thesis by (simp add: try_tile_sub_tiles_not_root)
  next
    case True
    show ?thesis
      using True "2.IH"
      by (auto simp: Let_def split: option.splits prod.splits sum.splits)
  qed
qed

lemma try_tile_sub_tiles_raises:
  assumes "is_root_tile grid tile"
    and "loc_to_cluster_id_placed (snd cs)
           \<lparr>pl_x = tile_x tile, pl_y = tile_y tile, pl_sub_tile = sub,
            pl_layer = tile_layer_num tile\<rparr> = None"
    and "is_tile_compatible grid (get_physical_type grid tile) bt"
    and "create_new_cluster cl nl mol (legalizer (snd cs)) = Inl e"
  shows "try_tile_sub_tiles cl nl grid cc tile bt mol (sub # rest) cs = Inl e"
  using assms by (simp add: Let_def)

lemma reconstruct_molecules_append:
  "reconstruct_molecules cl nl grid cc tile (pre @ post) cs =
     (case reconstruct_molecules cl nl grid cc tile pre cs of
        Inl e \<Rightarrow> Inl e
      | Inr cs' \<Rightarrow> reconstruct_molecules cl nl grid cc tile post cs')"
  by (induction pre arbitrary: cs) (simp_all split: sum.splits)

lemma reconstruct_tiles_append:
  "reconstruct_tiles cl nl ap grid (pre @ post) st =
     (case reconstruct_tiles cl nl ap grid pre st of
        Inl e \<Rightarrow> Inl e
      | Inr st' \<Rightarrow> reconstruct_tiles cl nl ap grid post st')"
  by (induction pre arbitrary: st) (simp_all split: sum.splits)

lemma neighbor_seeds_append:
  "neighbor_seeds cl nl strategy radius (pre @ post) ns =
     (case neighbor_seeds cl nl strategy radius pre ns of
        Inl e \<Rightarrow> Inl e
      | Inr ns' \<Rightarrow> neighbor_seeds cl nl strategy radius post ns')"
  by (induction cl nl strategy radius pre ns rule: neighbor_seeds.induct)
     (simp_all split: sum.splits prod.splits)

lemma reconstruct_molecule_raises:
  assumes "get_molecule_logical_block_type nl mol = Some bt"
    and "[0 .. capacity grid (get_physical_type grid tile) - 1] = spre @ sub # srest"
    and "try_tile_sub_tiles cl nl grid cc tile bt mol spre cs = Inr (False, cs1)"
    and "is_root_tile grid tile"
    and "loc_to_cluster_id_placed (snd cs1)
           \<lparr>pl_x = tile_x tile, pl_y = tile_y tile, pl_sub_tile = sub,
            pl_layer = tile_layer_num tile\<rparr> = None"
    and "is_tile_compatible grid (get_physical_type grid tile) bt"
    and "create_new_cluster cl nl mol (legalizer (snd cs1)) = Inl e"
  shows "reconstruct_molecule cl nl grid cc tile mol cs = Inl e"
proof -
  have r: "try_tile_sub_tiles cl nl grid cc tile bt mol (sub # srest) cs1 = Inl e"
    by (rule try_tile_sub_tiles_raises [OF assms(4-7)])
  have "try_tile_sub_tiles cl nl grid cc tile bt mol (spre @ sub # srest) cs = Inl e"
    by (simp add: try_tile_sub_tiles_append assms(3) r del: try_tile_sub_tiles.simps)
  with assms(1,2) show ?thesis
    by (simp add: reconstruct_molecule_def)
qed

lemma reconstruct_tiles_raises:
  assumes "reconstruct_tiles cl nl ap grid tpre st = Inr st1"
    and "reconstruct_tile cl nl ap grid tb st1 = Inl e"
  shows "reconstruct_tiles cl nl ap grid (tpre @ tb # tpost) st = Inl e"
  using assms by (simp add: reconstruct_tiles_append)

lemma legalize_clustering_tiles_raise:
  assumes "reconstruct_tiles cl nl ap grid tile_blocks
             (st\<lparr>unclustered_blocks := [], unclustered_block_locs := [],
                 cluster_id_to_loc_unplaced := [], cluster_created_mid_first_pass := 0\<rparr>) = Inl e"
  shows "legalize_clustering cl nl ap grid tile_blocks st = Inl e"
  using assms
  by (simp add: legalize_clustering_def pack_recontruction_pass_def reconstruction_clustering_def)

lemma first_loop_raises:
  assumes "reconstruct_molecules cl nl grid False tile (map (block_molecule ap) bpre) ([], st1) = Inr cs"
    and "reconstruct_molecule cl nl grid False tile (block_molecule ap b) cs = Inl e"
  shows "reconstruct_tile cl nl ap grid (tile, bpre @ b # bpost) st1 = Inl e"
  using assms by (simp add: reconstruct_tile_def reconstruct_molecules_append)

lemma retry_loop_raises:
  assumes "reconstruct_molecules cl nl grid False tile (map (block_molecule ap) blks) ([], st1) = Inr (chk, st2)"
    and "check_new_clusters cl chk ([], st2) = (mpre @ mol # mpost, st3)"
    and "reconstruct_molecules cl nl grid True tile mpre
           (chk, st3\<lparr>legalizer := set_legalization_strategy cl FULL (legalizer st3)\<rparr>) = Inr cs"
    and "reconstruct_molecule cl nl grid True tile mol cs = Inl e"
  shows "reconstruct_tile cl nl ap grid (tile, blks) st1 = Inl e"
  using assms by (simp add: reconstruct_tile_def reconstruct_molecules_append)

lemma grow_neighbor_cluster_raises:
  assumes "create_new_cluster cl nl mol (legalizer (snd ns)) = Inl e"
  shows "grow_neighbor_cluster cl nl radius mol seed_loc ns = Inl e"
  using assms by (simp add: grow_neighbor_cluster_def)

lemma neighbor_cluster_pass_raises:
  assumes "unclustered_blocks st = upre @ (mol, seed_loc) # upost"
    and "neighbor_seeds cl nl strategy radius upre ({}, st) = Inr ns"
    and "mol \<notin> fst ns"
    and "grow_neighbor_cluster cl nl radius mol seed_loc ns = Inl e"
  shows "neighbor_cluster_pass cl nl strategy radius st = Inl e"
  using assms by (simp add: neighbor_cluster_pass_def neighbor_seeds_append)


lemma create_new_cluster_probe:
  assumes "block_model nl (molecule_root_atom nl seed) \<noteq> None"
  shows "create_new_cluster cl nl seed s =
           (case probe_in_order cl seed
                   (candidate_pairs nl
                      (primitive_candidate_block_types nl (block_model nl (molecule_root_atom nl seed)))) s of
              (Some new_cluster_id, s') \<Rightarrow> Inr (new_cluster_id, s')
            | (None, s') \<Rightarrow>
                Inl (if primitive_candidate_block_types nl (block_model nl (molecule_root_atom nl seed)) = []
                     then VTR_ASSERT_failed ''!primitive_candidate_block_types[root_model_id].empty()''
                     else Unable_to_create_cluster))"
  using assms
  by (auto simp: create_new_cluster_def Let_def candidate_pairs_def create_new_cluster_types_probe
           split: prod.splits option.splits)

lemma legalize_clustering_cheap_pass_raises:
  assumes "reconstruct_tiles cl nl ap grid tile_blocks
             (st\<lparr>unclustered_blocks := [], unclustered_block_locs := [],
                 cluster_id_to_loc_unplaced := [], cluster_created_mid_first_pass := 0\<rparr>) = Inr st_tiles"
    and "neighbor_cluster_pass cl nl SKIP_INTRA_LB_ROUTE NEIGHBOR_SEARCH_RADIUS st_tiles = Inl e"
  shows "legalize_clustering cl nl ap grid tile_blocks st = Inl e"
  using assms
  by (simp add: legalize_clustering_def pack_recontruction_pass_def reconstruction_clustering_def)

lemma legalize_clustering_full_pass_raises:
  assumes "reconstruct_tiles cl nl ap grid tile_blocks
             (st\<lparr>unclustered_blocks := [], unclustered_block_locs := [],
                 cluster_id_to_loc_unplaced := [], cluster_created_mid_first_pass := 0\<rparr>) = Inr st_tiles"
    and "neighbor_cluster_pass cl nl SKIP_INTRA_LB_ROUTE NEIGHBOR_SEARCH_RADIUS st_tiles = Inr st_cheap"
    and "neighbor_cluster_pass cl nl FULL NEIGHBOR_SEARCH_RADIUS
           (st_cheap\<lparr>legalizer := set_legalization_strategy cl FULL (legalizer st_cheap)\<rparr>) = Inl e"
  shows "legalize_clustering cl nl ap grid tile_blocks st = Inl e"
  using assms
  by (simp add: legalize_clustering_def pack_recontruction_pass_def reconstruction_clustering_def)


lemma naive_cluster_molecules_raises:
  "create_new_cluster cl nl seed s = Inl e \<Longrightarrow>
   naive_cluster_molecules cl nl (seed # rest) s = Inl e"
  by simp

lemma naive_cluster_molecules_later:
  "create_new_cluster cl nl seed s = Inr (c, s_new) \<Longrightarrow>
   naive_fill cl c rest s_new = (mol_list, s_filled) \<Longrightarrow>
   naive_cluster_molecules cl nl mol_list (clean_cluster cl c s_filled) = Inl e \<Longrightarrow>
   naive_cluster_molecules cl nl (seed # rest) s = Inl e"
  by simp

lemma naive_tiles_append:
  "naive_tiles cl nl ap (pre @ post) s =
     (case naive_tiles cl nl ap pre s of
        Inl e \<Rightarrow> Inl e
      | Inr s' \<Rightarrow> naive_tiles cl nl ap post s')"
  by (induction pre arbitrary: s) (simp_all split: sum.splits)

lemma create_clusters_raises:
  "naive_tiles cl nl ap tpre (new_legalizer FULL) = Inr s_tile \<Longrightarrow>
   naive_cluster_molecules cl nl (map (block_molecule ap) blks) s_tile = Inl e \<Longrightarrow>
   create_clusters cl new_legalizer nl ap (tpre @ blks # tpost) = Inl e"
  by (simp add: create_clusters_def naive_tiles_append)

text \<open>
  C7. When the root model of the seed molecule is valid, \<open>create_new_cluster\<close> probes
  \<open>start_new_cluster\<close> over the candidate (block type, mode) pairs of the model in the
  order of the table, each probe in the legalizer state the previous one left, and
  returns the cluster of the first pair that passes. When no pair passes it raises:
  the fatal error \<open>Unable to create a cluster\<close>, or the failed assertion on an empty
  candidate list. The error ends the run. At the two places of the reconstruction that
  call \<open>create_new_cluster\<close>, the sub-tile loop of the direct pass (at the first
  sub-tile that is free on a compatible root tile) and the seed of the neighbor pass,
  the error is the result of the molecule and of the seed; and from a molecule of the
  first loop of a tile, from a molecule of the loop over the clusters that failed the
  check, and from a seed of the cheap and of the strict neighbor pass, it is the
  result of \<open>legalize\<close>, whatever tiles, molecules and seeds come after. At the
  seed of the naive clusterer the error is the result of the loop of the tile, for the
  first seed and for every later one, and from a tile it is the result of
  \<open>create_clusters\<close>, whatever tiles come after.
\<close>

theorem create_new_cluster_probe_and_abort:
  "(block_model nl (molecule_root_atom nl seed) \<noteq> None \<longrightarrow>
      create_new_cluster cl nl seed s =
        (case probe_in_order cl seed
                (candidate_pairs nl
                   (primitive_candidate_block_types nl (block_model nl (molecule_root_atom nl seed)))) s of
           (Some new_cluster_id, s') \<Rightarrow> Inr (new_cluster_id, s')
         | (None, s') \<Rightarrow>
             Inl (if primitive_candidate_block_types nl (block_model nl (molecule_root_atom nl seed)) = []
                  then VTR_ASSERT_failed ''!primitive_candidate_block_types[root_model_id].empty()''
                  else Unable_to_create_cluster)))
   \<and> (get_molecule_logical_block_type nl mol = Some bt
      \<and> [0 .. capacity grid (get_physical_type grid tile) - 1] = spre @ sub # spost
      \<and> try_tile_sub_tiles cl nl grid cc tile bt mol spre cs = Inr (False, cs_free)
      \<and> is_root_tile grid tile
      \<and> loc_to_cluster_id_placed (snd cs_free)
            \<lparr>pl_x = tile_x tile, pl_y = tile_y tile, pl_sub_tile = sub,
             pl_layer = tile_layer_num tile\<rparr> = None
      \<and> is_tile_compatible grid (get_physical_type grid tile) bt
      \<and> create_new_cluster cl nl mol (legalizer (snd cs_free)) = Inl e
      \<longrightarrow> reconstruct_molecule cl nl grid cc tile mol cs = Inl e)
   \<and> (reconstruct_tiles cl nl ap grid tpre
          (st\<lparr>unclustered_blocks := [], unclustered_block_locs := [],
              cluster_id_to_loc_unplaced := [], cluster_created_mid_first_pass := 0\<rparr>) = Inr st_tile
      \<and> reconstruct_molecules cl nl grid False tile (map (block_molecule ap) bpre) ([], st_tile) = Inr cs
      \<and> reconstruct_molecule cl nl grid False tile (block_molecule ap b) cs = Inl e
      \<longrightarrow> legalize_clustering cl nl ap grid (tpre @ (tile, bpre @ b # bpost) # tpost) st = Inl e)
   \<and> (reconstruct_tiles cl nl ap grid tpre
          (st\<lparr>unclustered_blocks := [], unclustered_block_locs := [],
              cluster_id_to_loc_unplaced := [], cluster_created_mid_first_pass := 0\<rparr>) = Inr st_tile
      \<and> reconstruct_molecules cl nl grid False tile (map (block_molecule ap) blks) ([], st_tile)
            = Inr (chk, st_first)
      \<and> check_new_clusters cl chk ([], st_first) = (mpre @ mol # mpost, st_chk)
      \<and> reconstruct_molecules cl nl grid True tile mpre
            (chk, st_chk\<lparr>legalizer := set_legalization_strategy cl FULL (legalizer st_chk)\<rparr>) = Inr cs
      \<and> reconstruct_molecule cl nl grid True tile mol cs = Inl e
      \<longrightarrow> legalize_clustering cl nl ap grid (tpre @ (tile, blks) # tpost) st = Inl e)
   \<and> (create_new_cluster cl nl mol (legalizer (snd ns)) = Inl e
      \<longrightarrow> grow_neighbor_cluster cl nl radius mol seed_loc ns = Inl e)
   \<and> (reconstruct_tiles cl nl ap grid tile_blocks
          (st\<lparr>unclustered_blocks := [], unclustered_block_locs := [],
              cluster_id_to_loc_unplaced := [], cluster_created_mid_first_pass := 0\<rparr>) = Inr st_tiles
      \<and> unclustered_blocks st_tiles = upre @ (mol, seed_loc) # upost
      \<and> neighbor_seeds cl nl SKIP_INTRA_LB_ROUTE NEIGHBOR_SEARCH_RADIUS upre ({}, st_tiles) = Inr ns
      \<and> mol \<notin> fst ns
      \<and> grow_neighbor_cluster cl nl NEIGHBOR_SEARCH_RADIUS mol seed_loc ns = Inl e
      \<longrightarrow> legalize_clustering cl nl ap grid tile_blocks st = Inl e)
   \<and> (reconstruct_tiles cl nl ap grid tile_blocks
          (st\<lparr>unclustered_blocks := [], unclustered_block_locs := [],
              cluster_id_to_loc_unplaced := [], cluster_created_mid_first_pass := 0\<rparr>) = Inr st_tiles
      \<and> neighbor_cluster_pass cl nl SKIP_INTRA_LB_ROUTE NEIGHBOR_SEARCH_RADIUS st_tiles = Inr st_cheap
      \<and> unclustered_blocks st_cheap = upre @ (mol, seed_loc) # upost
      \<and> neighbor_seeds cl nl FULL NEIGHBOR_SEARCH_RADIUS upre
            ({}, st_cheap\<lparr>legalizer := set_legalization_strategy cl FULL (legalizer st_cheap)\<rparr>) = Inr ns
      \<and> mol \<notin> fst ns
      \<and> grow_neighbor_cluster cl nl NEIGHBOR_SEARCH_RADIUS mol seed_loc ns = Inl e
      \<longrightarrow> legalize_clustering cl nl ap grid tile_blocks st = Inl e)
   \<and> (create_new_cluster cl nl mol s = Inl e
      \<longrightarrow> naive_cluster_molecules cl nl (mol # rest) s = Inl e)
   \<and> (create_new_cluster cl nl mol s = Inr (c, s_new)
      \<and> naive_fill cl c rest s_new = (mol_list, s_filled)
      \<and> naive_cluster_molecules cl nl mol_list (clean_cluster cl c s_filled) = Inl e
      \<longrightarrow> naive_cluster_molecules cl nl (mol # rest) s = Inl e)
   \<and> (naive_tiles cl nl ap npre (new_legalizer FULL) = Inr s_tile
      \<and> naive_cluster_molecules cl nl (map (block_molecule ap) nblks) s_tile = Inl e
      \<longrightarrow> create_clusters cl new_legalizer nl ap (npre @ nblks # npost) = Inl e)"
proof (intro conjI impI)
  assume "block_model nl (molecule_root_atom nl seed) \<noteq> None"
  then show "create_new_cluster cl nl seed s =
        (case probe_in_order cl seed
                (candidate_pairs nl
                   (primitive_candidate_block_types nl (block_model nl (molecule_root_atom nl seed)))) s of
           (Some new_cluster_id, s') \<Rightarrow> Inr (new_cluster_id, s')
         | (None, s') \<Rightarrow>
             Inl (if primitive_candidate_block_types nl (block_model nl (molecule_root_atom nl seed)) = []
                  then VTR_ASSERT_failed ''!primitive_candidate_block_types[root_model_id].empty()''
                  else Unable_to_create_cluster))"
    by (rule create_new_cluster_probe)
next
  assume "get_molecule_logical_block_type nl mol = Some bt
      \<and> [0 .. capacity grid (get_physical_type grid tile) - 1] = spre @ sub # spost
      \<and> try_tile_sub_tiles cl nl grid cc tile bt mol spre cs = Inr (False, cs_free)
      \<and> is_root_tile grid tile
      \<and> loc_to_cluster_id_placed (snd cs_free)
            \<lparr>pl_x = tile_x tile, pl_y = tile_y tile, pl_sub_tile = sub,
             pl_layer = tile_layer_num tile\<rparr> = None
      \<and> is_tile_compatible grid (get_physical_type grid tile) bt
      \<and> create_new_cluster cl nl mol (legalizer (snd cs_free)) = Inl e"
  then show "reconstruct_molecule cl nl grid cc tile mol cs = Inl e"
    using reconstruct_molecule_raises [of nl mol bt grid tile spre sub spost cl cc cs cs_free e]
    by blast
next
  assume a: "reconstruct_tiles cl nl ap grid tpre
          (st\<lparr>unclustered_blocks := [], unclustered_block_locs := [],
              cluster_id_to_loc_unplaced := [], cluster_created_mid_first_pass := 0\<rparr>) = Inr st_tile
      \<and> reconstruct_molecules cl nl grid False tile (map (block_molecule ap) bpre) ([], st_tile) = Inr cs
      \<and> reconstruct_molecule cl nl grid False tile (block_molecule ap b) cs = Inl e"
  then have "reconstruct_tile cl nl ap grid (tile, bpre @ b # bpost) st_tile = Inl e"
    using first_loop_raises by blast
  with a show "legalize_clustering cl nl ap grid (tpre @ (tile, bpre @ b # bpost) # tpost) st = Inl e"
    by (intro legalize_clustering_tiles_raise reconstruct_tiles_raises) auto
next
  assume a: "reconstruct_tiles cl nl ap grid tpre
          (st\<lparr>unclustered_blocks := [], unclustered_block_locs := [],
              cluster_id_to_loc_unplaced := [], cluster_created_mid_first_pass := 0\<rparr>) = Inr st_tile
      \<and> reconstruct_molecules cl nl grid False tile (map (block_molecule ap) blks) ([], st_tile)
            = Inr (chk, st_first)
      \<and> check_new_clusters cl chk ([], st_first) = (mpre @ mol # mpost, st_chk)
      \<and> reconstruct_molecules cl nl grid True tile mpre
            (chk, st_chk\<lparr>legalizer := set_legalization_strategy cl FULL (legalizer st_chk)\<rparr>) = Inr cs
      \<and> reconstruct_molecule cl nl grid True tile mol cs = Inl e"
  then have "reconstruct_tile cl nl ap grid (tile, blks) st_tile = Inl e"
    using retry_loop_raises by blast
  with a show "legalize_clustering cl nl ap grid (tpre @ (tile, blks) # tpost) st = Inl e"
    by (intro legalize_clustering_tiles_raise reconstruct_tiles_raises) auto
next
  assume "create_new_cluster cl nl mol (legalizer (snd ns)) = Inl e"
  then show "grow_neighbor_cluster cl nl radius mol seed_loc ns = Inl e"
    by (rule grow_neighbor_cluster_raises)
next
  assume a: "reconstruct_tiles cl nl ap grid tile_blocks
          (st\<lparr>unclustered_blocks := [], unclustered_block_locs := [],
              cluster_id_to_loc_unplaced := [], cluster_created_mid_first_pass := 0\<rparr>) = Inr st_tiles
      \<and> unclustered_blocks st_tiles = upre @ (mol, seed_loc) # upost
      \<and> neighbor_seeds cl nl SKIP_INTRA_LB_ROUTE NEIGHBOR_SEARCH_RADIUS upre ({}, st_tiles) = Inr ns
      \<and> mol \<notin> fst ns
      \<and> grow_neighbor_cluster cl nl NEIGHBOR_SEARCH_RADIUS mol seed_loc ns = Inl e"
  then have "neighbor_cluster_pass cl nl SKIP_INTRA_LB_ROUTE NEIGHBOR_SEARCH_RADIUS st_tiles = Inl e"
    using neighbor_cluster_pass_raises by blast
  with a show "legalize_clustering cl nl ap grid tile_blocks st = Inl e"
    using legalize_clustering_cheap_pass_raises by blast
next
  assume a: "reconstruct_tiles cl nl ap grid tile_blocks
          (st\<lparr>unclustered_blocks := [], unclustered_block_locs := [],
              cluster_id_to_loc_unplaced := [], cluster_created_mid_first_pass := 0\<rparr>) = Inr st_tiles
      \<and> neighbor_cluster_pass cl nl SKIP_INTRA_LB_ROUTE NEIGHBOR_SEARCH_RADIUS st_tiles = Inr st_cheap
      \<and> unclustered_blocks st_cheap = upre @ (mol, seed_loc) # upost
      \<and> neighbor_seeds cl nl FULL NEIGHBOR_SEARCH_RADIUS upre
            ({}, st_cheap\<lparr>legalizer := set_legalization_strategy cl FULL (legalizer st_cheap)\<rparr>) = Inr ns
      \<and> mol \<notin> fst ns
      \<and> grow_neighbor_cluster cl nl NEIGHBOR_SEARCH_RADIUS mol seed_loc ns = Inl e"
  then have "neighbor_cluster_pass cl nl FULL NEIGHBOR_SEARCH_RADIUS
           (st_cheap\<lparr>legalizer := set_legalization_strategy cl FULL (legalizer st_cheap)\<rparr>) = Inl e"
    using neighbor_cluster_pass_raises
            [of "st_cheap\<lparr>legalizer := set_legalization_strategy cl FULL (legalizer st_cheap)\<rparr>"
                upre mol seed_loc upost cl nl FULL NEIGHBOR_SEARCH_RADIUS ns e]
    by simp
  with a show "legalize_clustering cl nl ap grid tile_blocks st = Inl e"
    using legalize_clustering_full_pass_raises by blast
next
  assume "create_new_cluster cl nl mol s = Inl e"
  then show "naive_cluster_molecules cl nl (mol # rest) s = Inl e"
    by (rule naive_cluster_molecules_raises)
next
  assume h: "create_new_cluster cl nl mol s = Inr (c, s_new)
      \<and> naive_fill cl c rest s_new = (mol_list, s_filled)
      \<and> naive_cluster_molecules cl nl mol_list (clean_cluster cl c s_filled) = Inl e"
  show "naive_cluster_molecules cl nl (mol # rest) s = Inl e"
    by (rule naive_cluster_molecules_later
              [OF h [THEN conjunct1] h [THEN conjunct2, THEN conjunct1]
                  h [THEN conjunct2, THEN conjunct2]])
next
  assume h: "naive_tiles cl nl ap npre (new_legalizer FULL) = Inr s_tile
      \<and> naive_cluster_molecules cl nl (map (block_molecule ap) nblks) s_tile = Inl e"
  show "create_clusters cl new_legalizer nl ap (npre @ nblks # npost) = Inl e"
    by (rule create_clusters_raises [where new_legalizer = new_legalizer,
              OF h [THEN conjunct1] h [THEN conjunct2]])
qed

theorem create_new_cluster_probe_and_abort_witness:
  "create_new_cluster counting_legalizer two_type_netlist 5 (0::nat) = Inr (2, 3)
   \<and> legalize_clustering simple_legalizer typed_netlist (one_atom_blocks [0, 1]) grid_open
         [(centre, [0]), (origin, [1])] (initial_state Map.empty) = Inl Unable_to_create_cluster
   \<and> legalize_clustering simple_legalizer mixed_netlist (one_atom_blocks [12]) grid3
         [(centre, [12])] (initial_state Map.empty) = Inl Unable_to_create_cluster
   \<and> legalize_clustering simple_legalizer typed_netlist (one_atom_blocks [1]) grid3
         [(centre, [1])] (initial_state Map.empty) = Inl Unable_to_create_cluster
   \<and> legalize_clustering simple_legalizer mixed_netlist (one_atom_blocks [13]) grid3
         [(centre, [13])] (initial_state Map.empty) = Inl Unable_to_create_cluster
   \<and> create_clusters simple_legalizer fresh_legalizer mixed_netlist (one_atom_blocks [0, 12])
         [[], [0, 12]] = Inl Unable_to_create_cluster"
proof -
  let ?R = "(initial_state Map.empty)
              \<lparr>unclustered_blocks := [], unclustered_block_locs := [],
               cluster_id_to_loc_unplaced := [], cluster_created_mid_first_pass := 0\<rparr>"
  have r0: "create_new_cluster counting_legalizer two_type_netlist 5 (0::nat) = Inr (2, 3)"
    using create_new_cluster_probe_and_abort
            [where nl = two_type_netlist and seed = 5 and cl = counting_legalizer and s = "0::nat",
             THEN conjunct1]
    by (simp add: two_type_netlist_def counting_legalizer_def candidate_pairs_def upt_rec)
  let ?T1 = "reconstruct_tiles simple_legalizer typed_netlist (one_atom_blocks [0, 1]) grid_open
               [(centre, [0])] ?R"
  define sa where "sa = projr ?T1"
  have a1: "?T1 = Inr sa"
    unfolding sa_def by (rule not_isl_projr) code_simp
  have a2: "reconstruct_molecules simple_legalizer typed_netlist grid_open False origin
              (map (block_molecule (one_atom_blocks [0, 1])) []) ([], sa) = Inr ([], sa)"
    by simp
  have a3: "get_molecule_logical_block_type typed_netlist 1 = Some 0
      \<and> [0 .. capacity grid_open (get_physical_type grid_open origin) - 1] = [] @ 0 # []
      \<and> is_root_tile grid_open origin
      \<and> is_tile_compatible grid_open (get_physical_type grid_open origin) 0"
    by code_simp
  have a4: "loc_to_cluster_id_placed (snd ([]::check_table, sa))
              \<lparr>pl_x = tile_x origin, pl_y = tile_y origin, pl_sub_tile = 0,
               pl_layer = tile_layer_num origin\<rparr> = None
      \<and> create_new_cluster simple_legalizer typed_netlist 1 (legalizer (snd ([]::check_table, sa)))
          = Inl Unable_to_create_cluster"
    unfolding sa_def by code_simp
  have a5: "try_tile_sub_tiles simple_legalizer typed_netlist grid_open False origin 0 1 [] ([], sa)
              = Inr (False, [], sa)"
    by simp
  note T1 = create_new_cluster_probe_and_abort
     [where cl = simple_legalizer and nl = typed_netlist and grid = grid_open
        and ap = "one_atom_blocks [0, 1]" and cc = False and tile = origin and bt = 0 and mol = 1
        and spre = "[]" and sub = 0 and spost = "[]" and cs = "([], sa)" and cs_free = "([], sa)"
        and e = Unable_to_create_cluster and tpre = "[(centre, [0])]"
        and st = "initial_state Map.empty" and st_tile = sa and bpre = "[]" and b = 1
        and bpost = "[]" and tpost = "[]"]
  from T1 [THEN conjunct2, THEN conjunct1] a3 a4 a5
  have m1: "reconstruct_molecule simple_legalizer typed_netlist grid_open False origin 1 ([], sa)
              = Inl Unable_to_create_cluster"
    by blast
  have bm1: "block_molecule (one_atom_blocks [0, 1]) 1 = 1"
    by (simp add: one_atom_blocks_def)
  from T1 [THEN conjunct2, THEN conjunct2, THEN conjunct1] a1 a2 m1 bm1
  have r1: "legalize_clustering simple_legalizer typed_netlist (one_atom_blocks [0, 1]) grid_open
              [(centre, [0]), (origin, [1])] (initial_state Map.empty) = Inl Unable_to_create_cluster"
    by simp
  let ?F2 = "reconstruct_molecules simple_legalizer mixed_netlist grid3 False centre
               (map (block_molecule (one_atom_blocks [12])) [12]) ([], ?R)"
  define pf where "pf = projr ?F2"
  let ?Q2 = "check_new_clusters simple_legalizer (fst (projr ?F2)) ([], snd (projr ?F2))"
  define sq where "sq = snd ?Q2"
  define sr where "sr = sq\<lparr>legalizer := set_legalization_strategy simple_legalizer FULL (legalizer sq)\<rparr>"
  have b1: "reconstruct_tiles simple_legalizer mixed_netlist (one_atom_blocks [12]) grid3 [] ?R = Inr ?R"
    by simp
  have "?F2 = Inr pf"
    unfolding pf_def by (rule not_isl_projr) code_simp
  then have b2: "?F2 = Inr (fst pf, snd pf)" by simp
  have "fst ?Q2 = [] @ 12 # []" by code_simp
  then have b3: "check_new_clusters simple_legalizer (fst pf) ([], snd pf) = ([] @ 12 # [], sq)"
    unfolding pf_def sq_def by (simp add: prod_eq_iff)
  have b4: "reconstruct_molecules simple_legalizer mixed_netlist grid3 True centre []
              (fst pf, sr) = Inr (fst pf, sr)"
    by simp
  have b5: "get_molecule_logical_block_type mixed_netlist 12 = Some 1
      \<and> [0 .. capacity grid3 (get_physical_type grid3 centre) - 1] = [] @ 0 # []
      \<and> is_root_tile grid3 centre
      \<and> is_tile_compatible grid3 (get_physical_type grid3 centre) 1"
    by code_simp
  have b6: "loc_to_cluster_id_placed (snd (fst pf, sr))
              \<lparr>pl_x = tile_x centre, pl_y = tile_y centre, pl_sub_tile = 0,
               pl_layer = tile_layer_num centre\<rparr> = None
      \<and> create_new_cluster simple_legalizer mixed_netlist 12 (legalizer (snd (fst pf, sr)))
          = Inl Unable_to_create_cluster"
    unfolding sr_def sq_def pf_def by code_simp
  have b7: "try_tile_sub_tiles simple_legalizer mixed_netlist grid3 True centre 1 12 [] (fst pf, sr)
              = Inr (False, fst pf, sr)"
    by simp
  note T2 = create_new_cluster_probe_and_abort
     [where cl = simple_legalizer and nl = mixed_netlist and grid = grid3
        and ap = "one_atom_blocks [12]" and cc = True and tile = centre and bt = 1 and mol = 12
        and spre = "[]" and sub = 0 and spost = "[]" and cs = "(fst pf, sr)"
        and cs_free = "(fst pf, sr)" and e = Unable_to_create_cluster and tpre = "[]"
        and st = "initial_state Map.empty" and st_tile = ?R and blks = "[12]" and chk = "fst pf"
        and st_first = "snd pf" and mpre = "[]" and mpost = "[]" and st_chk = sq and tpost = "[]"]
  from T2 [THEN conjunct2, THEN conjunct1] b5 b6 b7
  have m2: "reconstruct_molecule simple_legalizer mixed_netlist grid3 True centre 12 (fst pf, sr)
              = Inl Unable_to_create_cluster"
    by blast
  from T2 [THEN conjunct2, THEN conjunct2, THEN conjunct2, THEN conjunct1] b1 b2 b3 b4 m2
  have r2: "legalize_clustering simple_legalizer mixed_netlist (one_atom_blocks [12]) grid3
              [(centre, [12])] (initial_state Map.empty) = Inl Unable_to_create_cluster"
    unfolding sr_def by simp
  let ?T3 = "reconstruct_tiles simple_legalizer typed_netlist (one_atom_blocks [1]) grid3
               [(centre, [1])] ?R"
  define sc where "sc = projr ?T3"
  have c1: "?T3 = Inr sc"
    unfolding sc_def by (rule not_isl_projr) code_simp
  have c2: "unclustered_blocks sc = [] @ (1, centre) # []"
    unfolding sc_def by code_simp
  have c3: "neighbor_seeds simple_legalizer typed_netlist SKIP_INTRA_LB_ROUTE NEIGHBOR_SEARCH_RADIUS []
              ({}, sc) = Inr ({}, sc)"
    by simp
  have c4: "create_new_cluster simple_legalizer typed_netlist 1 (legalizer (snd ({}::nat set, sc)))
              = Inl Unable_to_create_cluster"
    unfolding sc_def by code_simp
  note T3 = create_new_cluster_probe_and_abort
     [where cl = simple_legalizer and nl = typed_netlist and grid = grid3
        and ap = "one_atom_blocks [1]" and mol = 1 and ns = "({}, sc)" and seed_loc = centre
        and radius = NEIGHBOR_SEARCH_RADIUS and e = Unable_to_create_cluster
        and tile_blocks = "[(centre, [1])]" and st = "initial_state Map.empty" and st_tiles = sc
        and upre = "[]" and upost = "[]"]
  from T3 [THEN conjunct2, THEN conjunct2, THEN conjunct2, THEN conjunct2, THEN conjunct1] c4
  have g3: "grow_neighbor_cluster simple_legalizer typed_netlist NEIGHBOR_SEARCH_RADIUS 1 centre ({}, sc)
              = Inl Unable_to_create_cluster"
    by blast
  from T3 [THEN conjunct2, THEN conjunct2, THEN conjunct2, THEN conjunct2, THEN conjunct2,
           THEN conjunct1] c1 c2 c3 g3
  have r3: "legalize_clustering simple_legalizer typed_netlist (one_atom_blocks [1]) grid3
              [(centre, [1])] (initial_state Map.empty) = Inl Unable_to_create_cluster"
    by simp
  let ?T4 = "reconstruct_tiles simple_legalizer mixed_netlist (one_atom_blocks [13]) grid3
               [(centre, [13])] ?R"
  let ?P4 = "neighbor_cluster_pass simple_legalizer mixed_netlist SKIP_INTRA_LB_ROUTE
               NEIGHBOR_SEARCH_RADIUS (projr ?T4)"
  define sd where "sd = projr ?T4"
  define se where "se = projr ?P4"
  define sf where "sf = se\<lparr>legalizer := set_legalization_strategy simple_legalizer FULL (legalizer se)\<rparr>"
  have d1: "?T4 = Inr sd"
    unfolding sd_def by (rule not_isl_projr) code_simp
  have d2: "neighbor_cluster_pass simple_legalizer mixed_netlist SKIP_INTRA_LB_ROUTE
              NEIGHBOR_SEARCH_RADIUS sd = Inr se"
    unfolding sd_def se_def by (rule not_isl_projr) code_simp
  have d3: "unclustered_blocks se = [] @ (13, centre) # [(13, centre)]"
    unfolding se_def by code_simp
  have d4: "neighbor_seeds simple_legalizer mixed_netlist FULL NEIGHBOR_SEARCH_RADIUS []
              ({}, sf) = Inr ({}, sf)"
    by simp
  have d5: "create_new_cluster simple_legalizer mixed_netlist 13 (legalizer (snd ({}::nat set, sf)))
              = Inl Unable_to_create_cluster"
    unfolding sf_def se_def by code_simp
  note T4 = create_new_cluster_probe_and_abort
     [where cl = simple_legalizer and nl = mixed_netlist and grid = grid3
        and ap = "one_atom_blocks [13]" and mol = 13 and ns = "({}, sf)" and seed_loc = centre
        and radius = NEIGHBOR_SEARCH_RADIUS and e = Unable_to_create_cluster
        and tile_blocks = "[(centre, [13])]" and st = "initial_state Map.empty" and st_tiles = sd
        and st_cheap = se and upre = "[]" and upost = "[(13, centre)]"]
  from T4 [THEN conjunct2, THEN conjunct2, THEN conjunct2, THEN conjunct2, THEN conjunct1] d5
  have g4: "grow_neighbor_cluster simple_legalizer mixed_netlist NEIGHBOR_SEARCH_RADIUS 13 centre ({}, sf)
              = Inl Unable_to_create_cluster"
    by blast
  from T4 [THEN conjunct2, THEN conjunct2, THEN conjunct2, THEN conjunct2, THEN conjunct2,
           THEN conjunct2, THEN conjunct1] d1 d2 d3 d4 g4
  have r4: "legalize_clustering simple_legalizer mixed_netlist (one_atom_blocks [13]) grid3
              [(centre, [13])] (initial_state Map.empty) = Inl Unable_to_create_cluster"
    unfolding sf_def by simp
  define sg where "sg = \<lparr>sl_clusters = [(0, [0])], sl_strategy = FULL, sl_next = 1\<rparr>"
  have e1: "naive_tiles simple_legalizer mixed_netlist (one_atom_blocks [0, 12]) [[]]
              (fresh_legalizer FULL) = Inr (fresh_legalizer FULL)"
    by simp
  have e2: "create_new_cluster simple_legalizer mixed_netlist 0 (fresh_legalizer FULL) = Inr (0, sg)
      \<and> naive_fill simple_legalizer 0 [12] sg = ([12], sg)
      \<and> create_new_cluster simple_legalizer mixed_netlist 12 (clean_cluster simple_legalizer 0 sg)
          = Inl Unable_to_create_cluster"
    unfolding sg_def by code_simp
  note T5 = create_new_cluster_probe_and_abort
     [where cl = simple_legalizer and nl = mixed_netlist and mol = 12
        and s = "clean_cluster simple_legalizer 0 sg" and rest = "[]"
        and e = Unable_to_create_cluster]
  from T5 [THEN conjunct2, THEN conjunct2, THEN conjunct2, THEN conjunct2, THEN conjunct2,
           THEN conjunct2, THEN conjunct2, THEN conjunct1] e2
  have n5: "naive_cluster_molecules simple_legalizer mixed_netlist [12]
              (clean_cluster simple_legalizer 0 sg) = Inl Unable_to_create_cluster"
    by blast
  note T6 = create_new_cluster_probe_and_abort
     [where cl = simple_legalizer and nl = mixed_netlist and mol = 0
        and s = "fresh_legalizer FULL" and rest = "[12]" and c = 0 and s_new = sg
        and mol_list = "[12]" and s_filled = sg and e = Unable_to_create_cluster
        and ap = "one_atom_blocks [0, 12]" and npre = "[[]]" and new_legalizer = fresh_legalizer
        and s_tile = "fresh_legalizer FULL" and nblks = "[0, 12]" and npost = "[]"]
  from T6 [THEN conjunct2, THEN conjunct2, THEN conjunct2, THEN conjunct2, THEN conjunct2,
           THEN conjunct2, THEN conjunct2, THEN conjunct2, THEN conjunct1] e2 n5
  have n6: "naive_cluster_molecules simple_legalizer mixed_netlist [0, 12] (fresh_legalizer FULL)
              = Inl Unable_to_create_cluster"
    by blast
  have bm5: "map (block_molecule (one_atom_blocks [0, 12])) [0, 12] = [0, 12]"
    by (simp add: one_atom_blocks_def)
  have h5: "naive_tiles simple_legalizer mixed_netlist (one_atom_blocks [0, 12]) [[]]
              (fresh_legalizer FULL) = Inr (fresh_legalizer FULL)
      \<and> naive_cluster_molecules simple_legalizer mixed_netlist
            (map (block_molecule (one_atom_blocks [0, 12])) [0, 12]) (fresh_legalizer FULL)
          = Inl Unable_to_create_cluster"
    using e1 n6 by (simp only: bm5 simp_thms)
  from T6 [THEN conjunct2, THEN conjunct2, THEN conjunct2, THEN conjunct2, THEN conjunct2,
           THEN conjunct2, THEN conjunct2, THEN conjunct2, THEN conjunct2] h5
  have ra: "create_clusters simple_legalizer fresh_legalizer mixed_netlist (one_atom_blocks [0, 12])
              ([[]] @ [0, 12] # []) = Inl Unable_to_create_cluster"
    by blast
  have r5: "create_clusters simple_legalizer fresh_legalizer mixed_netlist (one_atom_blocks [0, 12])
              [[], [0, 12]] = Inl Unable_to_create_cluster"
    using ra by simp
  from r0 r1 r2 r3 r4 r5 show ?thesis by (intro conjI)
qed

text \<open>
  The error does not come before every binding of a site. In the run over the tiles
  (1,1) with molecule 0 and (0,0) with molecule 1, the direct pass binds cluster 0 to
  the site (1,1,0) of the table of placed locations at the first tile; at the second
  tile \<open>create_new_cluster\<close> raises for molecule 1 in that state, and the pass ends
  with the error.
\<close>

theorem create_new_cluster_raises_after_binding:
  "\<not> isl (reconstruct_tile simple_legalizer typed_netlist (one_atom_blocks [0, 1]) grid_open
             (centre, [0]) (initial_state Map.empty))
   \<and> loc_to_cluster_id_placed
         (projr (reconstruct_tile simple_legalizer typed_netlist (one_atom_blocks [0, 1]) grid_open
                   (centre, [0]) (initial_state Map.empty)))
         \<lparr>pl_x = 1, pl_y = 1, pl_sub_tile = 0, pl_layer = 0\<rparr> = Some 0
   \<and> create_new_cluster simple_legalizer typed_netlist 1
         (legalizer
            (projr (reconstruct_tile simple_legalizer typed_netlist (one_atom_blocks [0, 1]) grid_open
                      (centre, [0]) (initial_state Map.empty))))
       = Inl Unable_to_create_cluster
   \<and> isl (reconstruct_tile simple_legalizer typed_netlist (one_atom_blocks [0, 1]) grid_open
           (origin, [1])
           (projr (reconstruct_tile simple_legalizer typed_netlist (one_atom_blocks [0, 1]) grid_open
                     (centre, [0]) (initial_state Map.empty))))
   \<and> isl (pack_recontruction_pass simple_legalizer typed_netlist (one_atom_blocks [0, 1]) grid_open
           [(centre, [0]), (origin, [1])] (initial_state Map.empty))
   \<and> projl (pack_recontruction_pass simple_legalizer typed_netlist (one_atom_blocks [0, 1]) grid_open
             [(centre, [0]), (origin, [1])] (initial_state Map.empty))
       = Unable_to_create_cluster"
  by code_simp

section \<open>Properties of the cluster placer\<close>

text \<open>
  C1. Cluster 0 is constrained to the region \<open>[0,1] x [0,1]\<close> of layer 0 and the table is
  empty. With the desired site (0,0), inside the region, both \<open>place_cluster_reconstruction\<close>
  and \<open>place_cluster\<close> return false and leave the table as it is; with the desired site
  (5,5), outside the region, both go on to bind the cluster there. The test of the
  region is the wrong way round.
\<close>

theorem place_cluster_region_test_inverted:
  "is_loc_in_part_reg constrained_context (cluster_constraints constrained_context 0)
     \<lparr>pl_x = 0, pl_y = 0, pl_sub_tile = - 1, pl_layer = 0\<rparr>
   \<and> place_cluster_reconstruction constrained_context 0
         \<lparr>tile_x = 0, tile_y = 0, tile_layer_num = 0\<rparr> 0 [] = Inr (False, [])
   \<and> place_cluster constrained_context 0
         \<lparr>tile_x = 0, tile_y = 0, tile_layer_num = 0\<rparr> 0 [] = Inr (False, [])
   \<and> \<not> is_loc_in_part_reg constrained_context (cluster_constraints constrained_context 0)
         \<lparr>pl_x = 5, pl_y = 5, pl_sub_tile = - 1, pl_layer = 0\<rparr>
   \<and> place_cluster_reconstruction constrained_context 0
         \<lparr>tile_x = 5, tile_y = 5, tile_layer_num = 0\<rparr> 0 []
       = Inr (True, [(0, \<lparr>pl_x = 5, pl_y = 5, pl_sub_tile = 0, pl_layer = 0\<rparr>)])
   \<and> place_cluster constrained_context 0
         \<lparr>tile_x = 5, tile_y = 5, tile_layer_num = 0\<rparr> 0 []
       = Inr (True, [(0, \<lparr>pl_x = 5, pl_y = 5, pl_sub_tile = 0, pl_layer = 0\<rparr>)])"
  by (simp add: place_cluster_reconstruction_def place_cluster_def constrained_context_def
        get_macro_def in_region_def Let_def)

section \<open>Properties of the relocation search\<close>

lemma find_append_case:
  "find P (xs @ ys) = (case find P xs of Some x \<Rightarrow> Some x | None \<Rightarrow> find P ys)"
  by (induction xs) auto

lemma find_guard: "find (\<lambda>x. Q \<and> R x) xs = (if Q then find R xs else None)"
  by (induction xs) auto

lemma search_sub_tiles_find:
  "search_sub_tiles grid tbl tile_loc subs =
     (if is_root_tile grid tile_loc
      then find (\<lambda>loc. tbl loc = None)
             (map (\<lambda>sub_tile. \<lparr>pl_x = tile_x tile_loc, pl_y = tile_y tile_loc,
                               pl_sub_tile = sub_tile, pl_layer = tile_layer_num tile_loc\<rparr>) subs)
      else None)"
  by (induction subs) (auto simp: Let_def)

lemma find_cong_set: "(\<And>x. x \<in> set xs \<Longrightarrow> P x = Q x) \<Longrightarrow> find P xs = find Q xs"
  by (induction xs) auto

lemma find_admissible_tile:
  "find (admissible grid tbl ct) (tile_candidates grid t) =
     (if 0 \<le> tile_x t \<and> 0 \<le> tile_y t \<and> tile_x t < int (width grid) \<and> tile_y t < int (height grid)
         \<and> is_tile_compatible grid (get_physical_type grid t) ct \<and> is_root_tile grid t
      then find (\<lambda>loc. tbl loc = None) (tile_candidates grid t) else None)"
proof -
  let ?Q = "0 \<le> tile_x t \<and> 0 \<le> tile_y t \<and> tile_x t < int (width grid) \<and> tile_y t < int (height grid)
         \<and> is_tile_compatible grid (get_physical_type grid t) ct \<and> is_root_tile grid t"
  have "find (admissible grid tbl ct) (tile_candidates grid t) =
        find (\<lambda>loc. ?Q \<and> tbl loc = None) (tile_candidates grid t)"
    by (rule find_cong_set, cases t) (auto simp: tile_candidates_def admissible_def tile_of_def)
  then show ?thesis by (simp only: find_guard)
qed

lemma search_offset_find:
  "search_offset grid tbl ct orig r dx dy =
     (if \<bar>dx\<bar> + \<bar>dy\<bar> = r
      then find (admissible grid tbl ct)
             (tile_candidates grid \<lparr>tile_x = tile_x orig + dx, tile_y = tile_y orig + dy,
                                    tile_layer_num = tile_layer_num orig\<rparr>)
      else None)"
  unfolding find_admissible_tile
  by (simp add: search_offset_def Let_def search_sub_tiles_find tile_candidates_def not_less)

lemma search_dy_find:
  "search_dy grid tbl ct orig r dx dys =
     find (admissible grid tbl ct)
       (concat (map (\<lambda>(dx, dy). tile_candidates grid
                    \<lparr>tile_x = tile_x orig + dx, tile_y = tile_y orig + dy,
                     tile_layer_num = tile_layer_num orig\<rparr>)
          (filter (\<lambda>(dx, dy). \<bar>dx\<bar> + \<bar>dy\<bar> = r) (map (Pair dx) dys))))"
  by (induction dys) (auto simp: search_offset_find find_append_case split: option.splits)

lemma search_dx_find:
  "search_dx grid tbl ct orig r dxs =
     find (admissible grid tbl ct)
       (concat (map (\<lambda>(dx, dy). tile_candidates grid
                    \<lparr>tile_x = tile_x orig + dx, tile_y = tile_y orig + dy,
                     tile_layer_num = tile_layer_num orig\<rparr>)
          (filter (\<lambda>(dx, dy). \<bar>dx\<bar> + \<bar>dy\<bar> = r) (List.product dxs [- r .. r]))))"
  by (induction dxs) (auto simp: search_dy_find find_append_case split: option.splits)

lemma search_ring_find:
  "search_dx grid tbl ct orig r [- r .. r] = find (admissible grid tbl ct) (ring_candidates grid orig r)"
  by (simp add: search_dx_find ring_candidates_def ring_offsets_def)

lemma search_rings_find:
  "search_rings grid tbl ct orig max_r r =
     find (admissible grid tbl ct) (concat (map (ring_candidates grid orig) [r .. max_r]))"
proof (induction grid tbl ct orig max_r r rule: search_rings.induct)
  case (1 grid tbl ct orig max_r r)
  show ?case
  proof (cases "r \<le> max_r")
    case True
    then have up: "[r .. max_r] = r # [r + 1 .. max_r]" by (simp add: upto_rec1)
    show ?thesis
    proof (cases "search_dx grid tbl ct orig r [- r .. r]")
      case None
      with True "1.IH" [OF True None] show ?thesis
        by (subst search_rings.simps) (simp add: up find_append_case search_ring_find)
    next
      case (Some loc)
      with True show ?thesis
        by (subst search_rings.simps) (simp add: up find_append_case search_ring_find)
    qed
  next
    case False
    then show ?thesis by (subst search_rings.simps) simp
  qed
qed

lemma ring_candidates_distance:
  "loc \<in> set (ring_candidates grid orig r) \<Longrightarrow> manhattan orig loc = r"
  by (auto simp: ring_candidates_def ring_offsets_def tile_candidates_def manhattan_def)

lemma relocation_candidates_ring:
  "loc \<in> set (relocation_candidates grid orig) \<Longrightarrow>
     0 \<le> manhattan orig loc \<and> manhattan orig loc \<le> int (max (width grid) (height grid))"
  by (auto simp: relocation_candidates_def dest!: ring_candidates_distance)

lemma sorted_rings:
  "sorted rs \<Longrightarrow> sorted (map (manhattan orig) (concat (map (ring_candidates grid orig) rs)))"
proof (induction rs)
  case Nil
  show ?case by simp
next
  case (Cons r rs)
  have "map (manhattan orig) (ring_candidates grid orig r)
          = replicate (length (ring_candidates grid orig r)) r"
    by (rule nth_equalityI) (simp_all add: ring_candidates_distance [OF nth_mem])
  then have "sorted (map (manhattan orig) (ring_candidates grid orig r))"
    by (simp add: sorted_replicate)
  with Cons show ?case
    by (auto simp: sorted_append dest!: ring_candidates_distance)
qed

text \<open>
  C6. For a cluster handed to the relocation search, the search visits the rings of
  Manhattan distance 0, 1, ... up to \<open>max(width, height)\<close> around the desired tile, in
  each ring the offsets in the order of \<open>dx\<close>, then \<open>dy\<close>, at each tile the sub-tiles from
  0 upwards, and claims the first candidate that is admissible: on the grid, of a
  compatible type, a root tile, and not yet bound. Every candidate of ring \<open>r\<close> is at
  distance \<open>r\<close>, the distances along the order never decrease, and none exceeds
  \<open>max(width, height)\<close>.
\<close>

theorem relocation_search_order:
  "search_rings grid tbl ct orig (int (max (width grid) (height grid))) 0
     = find (admissible grid tbl ct) (relocation_candidates grid orig)
   \<and> relocate_cluster cl s grid orig c (tbl, unplaced)
     = (case find (admissible grid tbl (get_cluster_type cl c s)) (relocation_candidates grid orig) of
          Some loc \<Rightarrow> (tbl(loc \<mapsto> c), remove_unplaced orig c unplaced)
        | None \<Rightarrow> (tbl, unplaced))
   \<and> (\<forall>r. \<forall>loc \<in> set (ring_candidates grid orig r). manhattan orig loc = r)
   \<and> sorted (map (manhattan orig) (relocation_candidates grid orig))
   \<and> (\<forall>loc \<in> set (relocation_candidates grid orig).
         manhattan orig loc \<le> int (max (width grid) (height grid)))"
proof -
  have a: "search_rings grid tbl ct orig (int (max (width grid) (height grid))) 0
     = find (admissible grid tbl ct) (relocation_candidates grid orig)" for ct
    by (simp add: search_rings_find relocation_candidates_def)
  have b: "sorted (map (manhattan orig) (relocation_candidates grid orig))"
    unfolding relocation_candidates_def by (rule sorted_rings) simp
  show ?thesis
    using a b by (auto simp: relocate_cluster_def Let_def ring_candidates_distance
                      dest: relocation_candidates_ring split: option.splits)
qed


theorem relocation_search_order_witness:
  "\<lparr>pl_x = 0, pl_y = 1, pl_sub_tile = 0, pl_layer = 0\<rparr> \<in> set (ring_candidates grid3 centre 1)
   \<and> manhattan centre \<lparr>pl_x = 0, pl_y = 1, pl_sub_tile = 0, pl_layer = 0\<rparr> = 1
   \<and> find (admissible grid3 centre_taken 1) (relocation_candidates grid3 centre)
       = Some \<lparr>pl_x = 0, pl_y = 1, pl_sub_tile = 0, pl_layer = 0\<rparr>
   \<and> search_rings grid3 centre_taken 1 centre 3 0
       = Some \<lparr>pl_x = 0, pl_y = 1, pl_sub_tile = 0, pl_layer = 0\<rparr>
   \<and> fst (relocate_cluster counting_legalizer 0 grid3 centre 9 (centre_taken, [(centre, [9])]))
        \<lparr>pl_x = 0, pl_y = 1, pl_sub_tile = 0, pl_layer = 0\<rparr> = Some 9
   \<and> snd (relocate_cluster counting_legalizer 0 grid3 centre 9 (centre_taken, [(centre, [9])])) = []"
proof -
  have f: "find (admissible grid3 centre_taken 1) (relocation_candidates grid3 centre)
       = Some \<lparr>pl_x = 0, pl_y = 1, pl_sub_tile = 0, pl_layer = 0\<rparr>"
    by (simp add: relocation_candidates_def ring_candidates_def ring_offsets_def tile_candidates_def
          grid3_def centre_def centre_taken_def upto_rec1 admissible_def tile_of_def is_root_tile_def)
  have w: "int (max (width grid3) (height grid3)) = 3" "get_cluster_type counting_legalizer 9 0 = 1"
    by (simp_all add: grid3_def counting_legalizer_def)
  have m: "\<lparr>pl_x = 0, pl_y = 1, pl_sub_tile = 0, pl_layer = 0\<rparr> \<in> set (ring_candidates grid3 centre 1)"
    by (simp add: ring_candidates_def ring_offsets_def tile_candidates_def grid3_def centre_def upto_rec1)
  show ?thesis
    using relocation_search_order [of grid3 centre_taken 1 centre counting_legalizer 0 9 "[(centre, [9])]"] f m
    by (simp add: w remove_unplaced_def)
qed

section \<open>The placed-location table\<close>

lemma set_alist_update:
  "p \<in> set (AList.update k v al) \<Longrightarrow> p \<in> set al \<or> p = (k, v)"
  by (induction al) (auto split: if_splits)

lemma map_le_fresh: "m k = None \<Longrightarrow> m \<subseteq>\<^sub>m m(k \<mapsto> v)"
  by (auto simp: map_le_def)

lemma try_tile_sub_tiles_preserves:
  "try_tile_sub_tiles cl nl grid cc tile_loc bt mol subs cs = Inr (placed, checks', st') \<Longrightarrow>
   loc_to_cluster_id_placed (snd cs) \<subseteq>\<^sub>m loc_to_cluster_id_placed st'"
proof (induction cl nl grid cc tile_loc bt mol subs cs rule: try_tile_sub_tiles.induct)
  case (1 cl nl grid cc tile_loc bt mol cs)
  then show ?case by auto
next
  case (2 cl nl grid cc tile_loc bt mol sub rest cs)
  show ?case
    using "2.prems" "2.IH"
    by (auto simp: Let_def map_le_fresh split: if_splits option.splits prod.splits sum.splits)
qed


lemma try_tile_sub_tiles_checks:
  "try_tile_sub_tiles cl nl grid cc tile_loc bt mol subs cs = Inr (placed, checks', st') \<Longrightarrow>
   P0 \<subseteq>\<^sub>m loc_to_cluster_id_placed (snd cs) \<Longrightarrow>
   \<forall>p \<in> set (fst cs). P0 (snd p) = None \<Longrightarrow>
   \<forall>p \<in> set checks'. P0 (snd p) = None"
proof (induction cl nl grid cc tile_loc bt mol subs cs rule: try_tile_sub_tiles.induct)
  case (1 cl nl grid cc tile_loc bt mol cs)
  then show ?case by auto
next
  case (2 cl nl grid cc tile_loc bt mol sub rest cs)
  let ?loc = "\<lparr>pl_x = tile_x tile_loc, pl_y = tile_y tile_loc,
                  pl_sub_tile = sub, pl_layer = tile_layer_num tile_loc\<rparr>"
  have fresh: "loc_to_cluster_id_placed (snd cs) ?loc = None \<Longrightarrow> P0 ?loc = None"
    using "2.prems"(2) by (auto simp: map_le_def dom_def)
  show ?case
    using "2.prems" "2.IH" fresh
    by (auto simp: Let_def split: if_splits option.splits prod.splits sum.splits
             dest!: set_alist_update)
qed

lemma reconstruct_molecule_cases:
  assumes "reconstruct_molecule cl nl grid cc tile_loc mol cs = Inr cs'"
  obtains bt placed st' where
    "try_tile_sub_tiles cl nl grid cc tile_loc bt mol
       [0 .. capacity grid (get_physical_type grid tile_loc) - 1] cs = Inr (placed, fst cs', st')"
    "loc_to_cluster_id_placed (snd cs') = loc_to_cluster_id_placed st'"
  using assms
  by (auto simp: reconstruct_molecule_def split: option.splits sum.splits if_splits)

lemma reconstruct_molecule_preserves:
  assumes "reconstruct_molecule cl nl grid cc tile_loc mol cs = Inr cs'"
  shows "loc_to_cluster_id_placed (snd cs) \<subseteq>\<^sub>m loc_to_cluster_id_placed (snd cs')"
  using assms
  by (elim reconstruct_molecule_cases) (simp add: try_tile_sub_tiles_preserves)

lemma reconstruct_molecule_checks:
  assumes "reconstruct_molecule cl nl grid cc tile_loc mol cs = Inr cs'"
    and "P0 \<subseteq>\<^sub>m loc_to_cluster_id_placed (snd cs)"
    and "\<forall>p \<in> set (fst cs). P0 (snd p) = None"
  shows "\<forall>p \<in> set (fst cs'). P0 (snd p) = None"
  using assms(1)
  by (elim reconstruct_molecule_cases) (rule try_tile_sub_tiles_checks [OF _ assms(2,3)])

lemma reconstruct_molecules_invariant:
  "reconstruct_molecules cl nl grid cc tile_loc mols cs = Inr cs' \<Longrightarrow>
   P0 \<subseteq>\<^sub>m loc_to_cluster_id_placed (snd cs) \<Longrightarrow>
   \<forall>p \<in> set (fst cs). P0 (snd p) = None \<Longrightarrow>
   P0 \<subseteq>\<^sub>m loc_to_cluster_id_placed (snd cs') \<and> (\<forall>p \<in> set (fst cs'). P0 (snd p) = None)"
proof (induction mols arbitrary: cs)
  case Nil
  then show ?case by simp
next
  case (Cons mol mols)
  from Cons.prems(1) obtain cs1 where
    m: "reconstruct_molecule cl nl grid cc tile_loc mol cs = Inr cs1" and
    r: "reconstruct_molecules cl nl grid cc tile_loc mols cs1 = Inr cs'"
    by (auto split: sum.splits)
  have "P0 \<subseteq>\<^sub>m loc_to_cluster_id_placed (snd cs1)"
    using reconstruct_molecule_preserves [OF m] Cons.prems(2) by (rule map_le_trans [rotated])
  moreover have "\<forall>p \<in> set (fst cs1). P0 (snd p) = None"
    using reconstruct_molecule_checks [OF m Cons.prems(2,3)] .
  ultimately show ?case using Cons.IH [OF r] by blast
qed

lemma check_new_clusters_invariant:
  "check_new_clusters cl checks acc = (illegal, st') \<Longrightarrow>
   P0 \<subseteq>\<^sub>m loc_to_cluster_id_placed (snd acc) \<Longrightarrow>
   \<forall>p \<in> set checks. P0 (snd p) = None \<Longrightarrow>
   P0 \<subseteq>\<^sub>m loc_to_cluster_id_placed st'"
proof (induction checks arbitrary: acc)
  case Nil
  then show ?case by auto
next
  case (Cons p rest)
  obtain cluster_id loc where p: "p = (cluster_id, loc)" by (cases p)
  have erased: "P0 \<subseteq>\<^sub>m (loc_to_cluster_id_placed (snd acc))(loc := None)"
    using Cons.prems(2,3) p by (auto simp: map_le_def dom_def)
  have rest: "\<forall>p \<in> set rest. P0 (snd p) = None" using Cons.prems(3) by simp
  show ?case
  proof (cases "check_cluster_legality cl cluster_id (legalizer (snd acc))")
    case True
    with Cons.prems(1) p have
      "check_new_clusters cl rest
         (fst acc, (snd acc)\<lparr>legalizer := clean_cluster cl cluster_id (legalizer (snd acc))\<rparr>)
       = (illegal, st')"
      by (simp add: Let_def)
    then show ?thesis by (rule Cons.IH [OF _ _ rest]) (use Cons.prems(2) in simp)
  next
    case False
    with Cons.prems(1) p have
      "check_new_clusters cl rest
         (fst acc @ get_cluster_molecules cl cluster_id (legalizer (snd acc)),
          (snd acc)\<lparr>loc_to_cluster_id_placed := (loc_to_cluster_id_placed (snd acc))(loc := None),
                     legalizer := destroy_cluster cl cluster_id (legalizer (snd acc))\<rparr>)
       = (illegal, st')"
      by (simp add: Let_def)
    then show ?thesis
      by (rule Cons.IH [OF _ _ rest]) (use Cons.prems(2,3) p in \<open>auto simp: map_le_def dom_def\<close>)
  qed
qed

lemma reconstruct_tile_preserves:
  assumes "reconstruct_tile cl nl ap grid tb st = Inr st'"
  shows "loc_to_cluster_id_placed st \<subseteq>\<^sub>m loc_to_cluster_id_placed st'"
proof -
  let ?P0 = "loc_to_cluster_id_placed st"
  from assms obtain checks st1 illegal st2 checks' st3 where
    a: "reconstruct_molecules cl nl grid False (fst tb) (map (block_molecule ap) (snd tb)) ([], st)
          = Inr (checks, st1)" and
    b: "check_new_clusters cl checks ([], st1) = (illegal, st2)" and
    c: "reconstruct_molecules cl nl grid True (fst tb) illegal
          (checks, st2\<lparr>legalizer := set_legalization_strategy cl FULL (legalizer st2)\<rparr>)
          = Inr (checks', st3)" and
    d: "st' = st3\<lparr>legalizer := set_legalization_strategy cl SKIP_INTRA_LB_ROUTE (legalizer st3)\<rparr>"
    by (auto simp: reconstruct_tile_def Let_def split: sum.splits prod.splits)
  from reconstruct_molecules_invariant [OF a, of ?P0]
  have i1: "?P0 \<subseteq>\<^sub>m loc_to_cluster_id_placed st1" "\<forall>p \<in> set checks. ?P0 (snd p) = None"
    by simp_all
  from check_new_clusters_invariant [OF b, of ?P0] i1
  have i2: "?P0 \<subseteq>\<^sub>m loc_to_cluster_id_placed st2" by simp
  from reconstruct_molecules_invariant [OF c, of ?P0] i1 i2
  have "?P0 \<subseteq>\<^sub>m loc_to_cluster_id_placed st3" by simp
  with d show ?thesis by simp
qed

lemma reconstruct_tiles_preserves:
  "reconstruct_tiles cl nl ap grid tbs st = Inr st' \<Longrightarrow>
   loc_to_cluster_id_placed st \<subseteq>\<^sub>m loc_to_cluster_id_placed st'"
proof (induction tbs arbitrary: st)
  case Nil
  then show ?case by simp
next
  case (Cons tb tbs)
  from Cons.prems obtain st1 where
    t: "reconstruct_tile cl nl ap grid tb st = Inr st1" and
    r: "reconstruct_tiles cl nl ap grid tbs st1 = Inr st'"
    by (auto split: sum.splits)
  from reconstruct_tile_preserves [OF t] Cons.IH [OF r] show ?case
    by (rule map_le_trans)
qed

lemma search_sub_tiles_free:
  "search_sub_tiles grid tbl tile_loc subs = Some loc \<Longrightarrow> tbl loc = None"
  by (induction subs) (auto simp: Let_def split: if_splits)

lemma search_dy_free:
  "search_dy grid tbl ct orig r dx dys = Some loc \<Longrightarrow> tbl loc = None"
  by (induction dys)
     (auto simp: search_offset_def Let_def split: option.splits if_splits dest: search_sub_tiles_free)

lemma search_dx_free:
  "search_dx grid tbl ct orig r dxs = Some loc \<Longrightarrow> tbl loc = None"
  by (induction dxs) (auto split: option.splits dest: search_dy_free)

lemma search_rings_free:
  "search_rings grid tbl ct orig max_r r = Some loc \<Longrightarrow> tbl loc = None"
proof (induction grid tbl ct orig max_r r rule: search_rings.induct)
  case (1 grid tbl ct orig max_r r)
  from "1.prems" show ?case
    by (subst (asm) search_rings.simps)
       (auto split: if_splits option.splits dest: search_dx_free "1.IH")
qed

lemma relocate_cluster_preserves:
  "fst st \<subseteq>\<^sub>m fst (relocate_cluster cl s grid orig c st)"
  by (auto simp: relocate_cluster_def Let_def map_le_fresh split: option.splits
           dest: search_rings_free)

lemma relocate_clusters_preserves:
  "fst st \<subseteq>\<^sub>m fst (relocate_clusters cl s grid orig cs st)"
proof (induction cs arbitrary: st)
  case Nil
  show ?case by simp
next
  case (Cons c cs)
  show ?case
    using relocate_cluster_preserves [of st cl s grid orig c]
          Cons.IH [of "relocate_cluster cl s grid orig c st"]
    by (simp add: map_le_trans)
qed

lemma relocate_tiles_preserves:
  "fst st \<subseteq>\<^sub>m fst (relocate_tiles cl s grid copy st)"
proof (induction copy arbitrary: st)
  case Nil
  show ?case by simp
next
  case (Cons tc copy)
  obtain orig cs where tc: "tc = (orig, cs)" by (cases tc)
  show ?case
    using relocate_clusters_preserves [of st cl s grid orig cs]
          Cons.IH [of "relocate_clusters cl s grid orig cs st"]
    by (simp add: tc map_le_trans)
qed

lemma place_remaining_clusters_preserves:
  "fst st \<subseteq>\<^sub>m fst (place_remaining_clusters cl s grid st)"
  by (simp add: place_remaining_clusters_def relocate_tiles_preserves)


lemma try_cluster_tile_placed:
  "loc_to_cluster_id_placed (snd (try_cluster_tile cl c tile_loc ns)) = loc_to_cluster_id_placed (snd ns)"
  by (auto simp: try_cluster_tile_def Let_def split: option.splits prod.splits)

lemma neighbor_dy_placed:
  "loc_to_cluster_id_placed (snd (snd (neighbor_dy cl c seed r dx dys ns))) = loc_to_cluster_id_placed (snd ns)"
  by (induction dys arbitrary: ns) (auto simp: Let_def try_cluster_tile_placed)

lemma neighbor_dx_placed:
  "loc_to_cluster_id_placed (snd (snd (neighbor_dx cl c seed r dxs ns))) = loc_to_cluster_id_placed (snd ns)"
proof (induction dxs arbitrary: ns)
  case Nil
  show ?case by simp
next
  case (Cons dx dxs)
  show ?case
    using neighbor_dy_placed [of cl c seed r dx "[- r .. r]" ns] Cons.IH
    by (auto split: prod.splits)
qed

lemma neighbor_rings_placed:
  "loc_to_cluster_id_placed (snd (snd (neighbor_rings cl c seed rs ns))) = loc_to_cluster_id_placed (snd ns)"
proof (induction rs arbitrary: ns)
  case Nil
  show ?case by simp
next
  case (Cons r rs)
  show ?case
    using neighbor_dx_placed [of cl c seed r "[- r .. r]" ns] Cons.IH
    by (auto split: prod.splits)
qed

lemma grow_neighbor_cluster_placed:
  "grow_neighbor_cluster cl nl radius mol seed ns = Inr (c, ns') \<Longrightarrow>
   loc_to_cluster_id_placed (snd ns') = loc_to_cluster_id_placed (snd ns)"
  by (auto simp: grow_neighbor_cluster_def Let_def neighbor_rings_placed try_cluster_tile_placed
           split: sum.splits)

lemma requeue_molecules_placed:
  "loc_to_cluster_id_placed (snd (requeue_molecules seed mols ns)) = loc_to_cluster_id_placed (snd ns)"
  by (induction mols arbitrary: ns) auto

lemma finish_neighbor_cluster_placed:
  "loc_to_cluster_id_placed (snd (finish_neighbor_cluster cl strategy seed c ns))
     = loc_to_cluster_id_placed (snd ns)"
  using requeue_molecules_placed [of seed "get_cluster_molecules cl c (legalizer (snd ns))" ns]
  by (auto simp: finish_neighbor_cluster_def keep_cluster_def destroy_and_requeue_def
           split: prod.splits)

lemma neighbor_seeds_placed:
  "neighbor_seeds cl nl strategy radius copy ns = Inr ns' \<Longrightarrow>
   loc_to_cluster_id_placed (snd ns') = loc_to_cluster_id_placed (snd ns)"
proof (induction copy arbitrary: ns)
  case Nil
  then show ?case by simp
next
  case (Cons p copy)
  obtain mol seed where p: "p = (mol, seed)" by (cases p)
  show ?case
  proof (cases "mol \<in> fst ns")
    case True
    with Cons p show ?thesis by simp
  next
    case False
    with Cons.prems p obtain c ns1 where
      g: "grow_neighbor_cluster cl nl radius mol seed ns = Inr (c, ns1)" and
      r: "neighbor_seeds cl nl strategy radius copy (finish_neighbor_cluster cl strategy seed c ns1) = Inr ns'"
      by (auto split: sum.splits)
    from Cons.IH [OF r] grow_neighbor_cluster_placed [OF g] show ?thesis
      by (simp add: finish_neighbor_cluster_placed)
  qed
qed

lemma neighbor_cluster_pass_placed:
  "neighbor_cluster_pass cl nl strategy radius st = Inr st' \<Longrightarrow>
   loc_to_cluster_id_placed st' = loc_to_cluster_id_placed st"
  by (auto simp: neighbor_cluster_pass_def split: sum.splits dest!: neighbor_seeds_placed)

lemma finish_reconstruction_preserves:
  "finish_reconstruction cl grid st = Inr st' \<Longrightarrow>
   loc_to_cluster_id_placed st \<subseteq>\<^sub>m loc_to_cluster_id_placed st'"
  using place_remaining_clusters_preserves
          [of "(loc_to_cluster_id_placed st, cluster_id_to_loc_unplaced st)" cl "legalizer st" grid]
  by (auto simp: finish_reconstruction_def split: prod.splits if_splits)

lemma pack_recontruction_pass_preserves:
  assumes "pack_recontruction_pass cl nl ap grid tile_blocks st = Inr st'"
  shows "loc_to_cluster_id_placed st \<subseteq>\<^sub>m loc_to_cluster_id_placed st'"
proof -
  from assms obtain st1 st2 st3 where
    a: "reconstruct_tiles cl nl ap grid tile_blocks
          (st\<lparr>unclustered_blocks := [], unclustered_block_locs := [],
              cluster_id_to_loc_unplaced := [], cluster_created_mid_first_pass := 0\<rparr>) = Inr st1" and
    b: "neighbor_cluster_pass cl nl SKIP_INTRA_LB_ROUTE NEIGHBOR_SEARCH_RADIUS st1 = Inr st2" and
    c: "neighbor_cluster_pass cl nl FULL NEIGHBOR_SEARCH_RADIUS
          (st2\<lparr>legalizer := set_legalization_strategy cl FULL (legalizer st2)\<rparr>) = Inr st3" and
    d: "finish_reconstruction cl grid st3 = Inr st'"
    by (auto simp: pack_recontruction_pass_def reconstruction_clustering_def split: sum.splits)
  have "loc_to_cluster_id_placed st \<subseteq>\<^sub>m loc_to_cluster_id_placed st1"
    using reconstruct_tiles_preserves [OF a] by simp
  also have "loc_to_cluster_id_placed st1 = loc_to_cluster_id_placed st3"
    using neighbor_cluster_pass_placed [OF b] neighbor_cluster_pass_placed [OF c] by simp
  finally show ?thesis
    using finish_reconstruction_preserves [OF d] by (rule map_le_trans)
qed

text \<open>
  C2. No location of the placed-location table is ever bound to a second cluster while
  it is bound: every write of a binding goes to a location that is not in the table.
  The loop over the sub-tiles of the direct pass, the direct pass of a whole tile (which
  only erases bindings that it created itself), the relocation search and the whole
  reconstruction pass leave every binding that they find as it is, and the neighbor
  pass does not touch the table.
\<close>

theorem placed_table_never_rebound:
  "(try_tile_sub_tiles cl nl grid count_created tile_loc block_type mol_id subs cs = Inr (placed, checks, st_a)
      \<longrightarrow> loc_to_cluster_id_placed (snd cs) \<subseteq>\<^sub>m loc_to_cluster_id_placed st_a)
   \<and> (reconstruct_tile cl nl ap grid tb st = Inr st_b
      \<longrightarrow> loc_to_cluster_id_placed st \<subseteq>\<^sub>m loc_to_cluster_id_placed st_b)
   \<and> (neighbor_cluster_pass cl nl strategy radius st = Inr st_c
      \<longrightarrow> loc_to_cluster_id_placed st_c = loc_to_cluster_id_placed st)
   \<and> fst rs \<subseteq>\<^sub>m fst (place_remaining_clusters cl s grid rs)
   \<and> (pack_recontruction_pass cl nl ap grid tile_blocks st = Inr st_d
      \<longrightarrow> loc_to_cluster_id_placed st \<subseteq>\<^sub>m loc_to_cluster_id_placed st_d)"
proof (intro conjI impI)
  assume "try_tile_sub_tiles cl nl grid count_created tile_loc block_type mol_id subs cs
            = Inr (placed, checks, st_a)"
  then show "loc_to_cluster_id_placed (snd cs) \<subseteq>\<^sub>m loc_to_cluster_id_placed st_a"
    by (rule try_tile_sub_tiles_preserves)
next
  assume "reconstruct_tile cl nl ap grid tb st = Inr st_b"
  then show "loc_to_cluster_id_placed st \<subseteq>\<^sub>m loc_to_cluster_id_placed st_b"
    by (rule reconstruct_tile_preserves)
next
  assume "neighbor_cluster_pass cl nl strategy radius st = Inr st_c"
  then show "loc_to_cluster_id_placed st_c = loc_to_cluster_id_placed st"
    by (rule neighbor_cluster_pass_placed)
next
  show "fst rs \<subseteq>\<^sub>m fst (place_remaining_clusters cl s grid rs)"
    by (rule place_remaining_clusters_preserves)
next
  assume "pack_recontruction_pass cl nl ap grid tile_blocks st = Inr st_d"
  then show "loc_to_cluster_id_placed st \<subseteq>\<^sub>m loc_to_cluster_id_placed st_d"
    by (rule pack_recontruction_pass_preserves)
qed

theorem placed_table_never_rebound_witness:
  "\<exists>st. pack_recontruction_pass simple_legalizer mixed_netlist (one_atom_blocks [0, 1, 2]) grid3
           [(centre, [0, 1, 2])] (initial_state west_taken) = Inr st
        \<and> loc_to_cluster_id_placed (initial_state west_taken) \<subseteq>\<^sub>m loc_to_cluster_id_placed st
        \<and> loc_to_cluster_id_placed st \<lparr>pl_x = 0, pl_y = 1, pl_sub_tile = 0, pl_layer = 0\<rparr> = Some 7
        \<and> loc_to_cluster_id_placed st \<lparr>pl_x = 1, pl_y = 1, pl_sub_tile = 0, pl_layer = 0\<rparr> = Some 0
        \<and> loc_to_cluster_id_placed st \<lparr>pl_x = 1, pl_y = 0, pl_sub_tile = 0, pl_layer = 0\<rparr> = Some 1"
proof -
  let ?run = "pack_recontruction_pass simple_legalizer mixed_netlist (one_atom_blocks [0, 1, 2]) grid3
           [(centre, [0, 1, 2])] (initial_state west_taken)"
  have e: "(case ?run of Inl e \<Rightarrow> False
            | Inr st \<Rightarrow>
                loc_to_cluster_id_placed st \<lparr>pl_x = 0, pl_y = 1, pl_sub_tile = 0, pl_layer = 0\<rparr> = Some 7
              \<and> loc_to_cluster_id_placed st \<lparr>pl_x = 1, pl_y = 1, pl_sub_tile = 0, pl_layer = 0\<rparr> = Some 0
              \<and> loc_to_cluster_id_placed st \<lparr>pl_x = 1, pl_y = 0, pl_sub_tile = 0, pl_layer = 0\<rparr> = Some 1)"
    by code_simp
  then obtain st where r: "?run = Inr st" by (cases ?run) auto
  have "loc_to_cluster_id_placed (initial_state west_taken) \<subseteq>\<^sub>m loc_to_cluster_id_placed st"
    using placed_table_never_rebound
            [where cl = simple_legalizer and nl = mixed_netlist and ap = "one_atom_blocks [0, 1, 2]"
               and grid = grid3 and tile_blocks = "[(centre, [0, 1, 2])]"
               and st = "initial_state west_taken" and st_d = st] r
    by simp
  with e r show ?thesis by simp
qed

section \<open>Clusters that the relocation search cannot place\<close>

text \<open>
  C5. On the device of one tile, the molecules 0, 2, 4 and 6 are hinted to the only
  tile. The clustering leaves the clusters 3 and 4 in the unplaced table, both under
  that tile; the relocation search finds no location for either, so both stay there,
  and the pass ends with the fatal error. The number that the error carries is the
  number of entries of the unplaced table, one per desired tile: it is 1, and the
  clusters without a location are two.
\<close>

theorem unplaced_count_is_tile_count:
  "\<not> isl (reconstruction_clustering simple_legalizer mixed_netlist (one_atom_blocks [0, 2, 4, 6]) grid1
             [(origin, [0, 2, 4, 6])] (initial_state Map.empty))
   \<and> cluster_id_to_loc_unplaced
         (projr (reconstruction_clustering simple_legalizer mixed_netlist (one_atom_blocks [0, 2, 4, 6]) grid1
                   [(origin, [0, 2, 4, 6])] (initial_state Map.empty)))
       = [(origin, [3, 4])]
   \<and> snd (place_remaining_clusters simple_legalizer
              \<lparr>sl_clusters = [(0, [0, 2]), (3, [4]), (4, [6])], sl_strategy = FULL, sl_next = 5\<rparr> grid1
              ([\<lparr>pl_x = 0, pl_y = 0, pl_sub_tile = 0, pl_layer = 0\<rparr> \<mapsto> 0], [(origin, [3, 4])]))
       = [(origin, [3, 4])]
   \<and> isl (pack_recontruction_pass simple_legalizer mixed_netlist (one_atom_blocks [0, 2, 4, 6]) grid1
            [(origin, [0, 2, 4, 6])] (initial_state Map.empty))
   \<and> projl (pack_recontruction_pass simple_legalizer mixed_netlist (one_atom_blocks [0, 2, 4, 6]) grid1
              [(origin, [0, 2, 4, 6])] (initial_state Map.empty))
       = Clusters_remain_unplaced 1"
  by code_simp

section \<open>The unclustered molecules across the neighbor passes\<close>

text \<open>
  C8. In the same run the direct pass leaves the two entries of the molecules 4 and 6
  in \<open>unclustered_blocks\<close>. The neighbor pass of the cheap tier builds a cluster of both
  for each of the two seeds; each of the two clusters fails the strict check and is
  destroyed, and each time both molecules are pushed again while their old entries
  stay: after the pass the list has six entries for the two molecules.
\<close>

theorem requeue_duplicates_unclustered_blocks:
  "\<not> isl (reconstruct_tiles simple_legalizer mixed_netlist (one_atom_blocks [0, 2, 4, 6]) grid1
             [(origin, [0, 2, 4, 6])] (initial_state Map.empty))
   \<and> unclustered_blocks
         (projr (reconstruct_tiles simple_legalizer mixed_netlist (one_atom_blocks [0, 2, 4, 6]) grid1
                   [(origin, [0, 2, 4, 6])] (initial_state Map.empty)))
       = [(4, origin), (6, origin)]
   \<and> \<not> isl (neighbor_cluster_pass simple_legalizer mixed_netlist SKIP_INTRA_LB_ROUTE 4
               (projr (reconstruct_tiles simple_legalizer mixed_netlist (one_atom_blocks [0, 2, 4, 6]) grid1
                   [(origin, [0, 2, 4, 6])] (initial_state Map.empty))))
   \<and> unclustered_blocks
         (projr (neighbor_cluster_pass simple_legalizer mixed_netlist SKIP_INTRA_LB_ROUTE 4
               (projr (reconstruct_tiles simple_legalizer mixed_netlist (one_atom_blocks [0, 2, 4, 6]) grid1
                   [(origin, [0, 2, 4, 6])] (initial_state Map.empty)))))
       = [(4, origin), (6, origin), (4, origin), (6, origin), (6, origin), (4, origin)]"
  by code_simp

section \<open>The first candidate type in the direct pass\<close>

text \<open>
  C10, as stated, fails: molecule 1 has the candidate types \<open>[0, 1]\<close>, its first
  candidate type 0 is not compatible with its hinted tile and its second is, and the
  direct pass does not defer it: the cluster that molecule 0 started at the tile takes
  it in.
\<close>

theorem first_candidate_counterexample:
  "get_molecule_logical_block_type mixed_netlist 1 = Some 0
   \<and> primitive_candidate_block_types mixed_netlist (block_model mixed_netlist (molecule_root_atom mixed_netlist 1)) = [0, 1]
   \<and> \<not> is_tile_compatible grid3 (get_physical_type grid3 centre) 0
   \<and> is_tile_compatible grid3 (get_physical_type grid3 centre) 1
   \<and> \<not> isl (reconstruct_tile simple_legalizer mixed_netlist (one_atom_blocks [0, 1]) grid3
               (centre, [0, 1]) (initial_state Map.empty))
   \<and> unclustered_blocks
         (projr (reconstruct_tile simple_legalizer mixed_netlist (one_atom_blocks [0, 1]) grid3
                   (centre, [0, 1]) (initial_state Map.empty))) = []
   \<and> get_cluster_molecules simple_legalizer 0
         (legalizer (projr (reconstruct_tile simple_legalizer mixed_netlist (one_atom_blocks [0, 1]) grid3
                   (centre, [0, 1]) (initial_state Map.empty)))) = [0, 1]"
  by code_simp

lemma try_tile_sub_tiles_incompatible:
  assumes "\<not> is_tile_compatible grid (get_physical_type grid tile_loc) block_type"
  shows "\<exists>placed st'.
           try_tile_sub_tiles cl nl grid count_created tile_loc block_type mol_id subs cs
             = Inr (placed, fst cs, st')
         \<and> loc_to_cluster_id_placed st' = loc_to_cluster_id_placed (snd cs)
         \<and> cluster_id_to_loc_desired st' = cluster_id_to_loc_desired (snd cs)
         \<and> unclustered_blocks st' = unclustered_blocks (snd cs)
         \<and> unclustered_block_locs st' = unclustered_block_locs (snd cs)
         \<and> (placed \<longrightarrow>
               (\<exists>sub_tile cluster_id s.
                   loc_to_cluster_id_placed (snd cs)
                     \<lparr>pl_x = tile_x tile_loc, pl_y = tile_y tile_loc,
                      pl_sub_tile = sub_tile, pl_layer = tile_layer_num tile_loc\<rparr> = Some cluster_id
                 \<and> fst (add_mol_to_cluster cl mol_id cluster_id s) = BLK_PASSED))
         \<and> ((\<forall>sub_tile. loc_to_cluster_id_placed (snd cs)
                     \<lparr>pl_x = tile_x tile_loc, pl_y = tile_y tile_loc,
                      pl_sub_tile = sub_tile, pl_layer = tile_layer_num tile_loc\<rparr> = None)
              \<longrightarrow> \<not> placed \<and> st' = snd cs)"
    (is "?P subs cs")
proof (induction subs arbitrary: cs)
  case Nil
  show ?case by (cases cs) auto
next
  case (Cons sub_tile rest)
  let ?loc = "\<lparr>pl_x = tile_x tile_loc, pl_y = tile_y tile_loc,
                  pl_sub_tile = sub_tile, pl_layer = tile_layer_num tile_loc\<rparr>"
  let ?f = "try_tile_sub_tiles cl nl grid count_created tile_loc block_type mol_id"
  show ?case
  proof (cases "is_root_tile grid tile_loc")
    case False
    then show ?thesis by (cases cs) auto
  next
    case root: True
    show ?thesis
    proof (cases "loc_to_cluster_id_placed (snd cs) ?loc")
      case None
      with root assms have "?f (sub_tile # rest) cs = ?f rest cs"
        by (simp add: Let_def)
      with Cons.IH [of cs] show ?thesis by simp
    next
      case (Some cluster_id)
      show ?thesis
      proof (cases "has_empty_primitive (get_cluster_pb cl cluster_id (legalizer (snd cs)))
                    \<and> is_molecule_compatible cl mol_id cluster_id (legalizer (snd cs))")
        case False
        with root Some have "?f (sub_tile # rest) cs = ?f rest cs"
          by (auto simp: Let_def)
        with Cons.IH [of cs] show ?thesis by simp
      next
        case True
        obtain status s' where
          add: "add_mol_to_cluster cl mol_id cluster_id (legalizer (snd cs)) = (status, s')"
          by (cases "add_mol_to_cluster cl mol_id cluster_id (legalizer (snd cs))")
        have occupied:
          "\<not> (\<forall>sub_tile. loc_to_cluster_id_placed (snd cs)
                     \<lparr>pl_x = tile_x tile_loc, pl_y = tile_y tile_loc,
                      pl_sub_tile = sub_tile, pl_layer = tile_layer_num tile_loc\<rparr> = None)"
        proof
          assume "\<forall>sub_tile. loc_to_cluster_id_placed (snd cs)
                     \<lparr>pl_x = tile_x tile_loc, pl_y = tile_y tile_loc,
                      pl_sub_tile = sub_tile, pl_layer = tile_layer_num tile_loc\<rparr> = None"
          then have "loc_to_cluster_id_placed (snd cs) ?loc = None" by (rule spec)
          with Some show False by simp
        qed
        show ?thesis
        proof (cases "status = BLK_PASSED")
          case passed: True
          have p: "fst (add_mol_to_cluster cl mol_id cluster_id (legalizer (snd cs))) = BLK_PASSED"
            using add passed by simp
          have ex: "\<exists>sub_tile cluster_id s.
                   loc_to_cluster_id_placed (snd cs)
                     \<lparr>pl_x = tile_x tile_loc, pl_y = tile_y tile_loc,
                      pl_sub_tile = sub_tile, pl_layer = tile_layer_num tile_loc\<rparr> = Some cluster_id
                 \<and> fst (add_mol_to_cluster cl mol_id cluster_id s) = BLK_PASSED"
            by (intro exI conjI) (rule Some, rule p)
          have feq: "?f (sub_tile # rest) cs = Inr (True, fst cs, (snd cs)\<lparr>legalizer := s'\<rparr>)"
            using root Some True add passed by (simp add: Let_def)
          show ?thesis
            apply (rule exI [of _ True])
            apply (rule exI [of _ "(snd cs)\<lparr>legalizer := s'\<rparr>"])
            using feq ex occupied by (auto simp del: try_tile_sub_tiles.simps)
        next
          case failed: False
          have eq: "?f (sub_tile # rest) cs = ?f rest (fst cs, (snd cs)\<lparr>legalizer := s'\<rparr>)"
            using root Some True add failed by (simp add: Let_def)
          have "?P rest (fst cs, (snd cs)\<lparr>legalizer := s'\<rparr>)" by (rule Cons.IH)
          then obtain placed st' where
            r: "?f rest (fst cs, (snd cs)\<lparr>legalizer := s'\<rparr>) = Inr (placed, fst cs, st')
               \<and> loc_to_cluster_id_placed st' = loc_to_cluster_id_placed (snd cs)
               \<and> cluster_id_to_loc_desired st' = cluster_id_to_loc_desired (snd cs)
               \<and> unclustered_blocks st' = unclustered_blocks (snd cs)
               \<and> unclustered_block_locs st' = unclustered_block_locs (snd cs)
               \<and> (placed \<longrightarrow>
                 (\<exists>sub_tile cluster_id s.
                     loc_to_cluster_id_placed (snd cs)
                       \<lparr>pl_x = tile_x tile_loc, pl_y = tile_y tile_loc,
                        pl_sub_tile = sub_tile, pl_layer = tile_layer_num tile_loc\<rparr> = Some cluster_id
                   \<and> fst (add_mol_to_cluster cl mol_id cluster_id s) = BLK_PASSED))"
            by (elim exE conjE) simp
          from r have "?f rest (fst cs, (snd cs)\<lparr>legalizer := s'\<rparr>) = Inr (placed, fst cs, st')"
            by (rule conjunct1)
          then have res: "?f (sub_tile # rest) cs = Inr (placed, fst cs, st')"
            by (simp only: eq)
          show ?thesis
            apply (rule exI [of _ placed])
            apply (rule exI [of _ st'])
            using r res occupied by (auto simp del: try_tile_sub_tiles.simps)
        qed
      qed
    qed
  qed
qed

text \<open>
  C10, amended. When the first candidate type of the molecule is not compatible with
  the hinted tile, the direct pass starts no cluster for it (it returns without an
  error, and the placed-location table, the desired locations and the clusters to check
  are as before), whatever the later candidate types are. The molecule is then deferred
  as unclustered, unless a cluster that is bound to a sub-tile of the tile took it in;
  when no sub-tile of the tile is bound it is deferred and nothing else changes.
\<close>

theorem first_candidate_decides_new_cluster:
  assumes "get_molecule_logical_block_type nl mol_id = Some block_type"
    and "\<not> is_tile_compatible grid (get_physical_type grid tile_loc) block_type"
  shows "\<exists>cs'. reconstruct_molecule cl nl grid count_created tile_loc mol_id cs = Inr cs'
           \<and> fst cs' = fst cs
           \<and> loc_to_cluster_id_placed (snd cs') = loc_to_cluster_id_placed (snd cs)
           \<and> cluster_id_to_loc_desired (snd cs') = cluster_id_to_loc_desired (snd cs)
           \<and> (unclustered_blocks (snd cs') = unclustered_blocks (snd cs) @ [(mol_id, tile_loc)]
               \<or> (\<exists>sub_tile cluster_id s.
                     loc_to_cluster_id_placed (snd cs)
                       \<lparr>pl_x = tile_x tile_loc, pl_y = tile_y tile_loc,
                        pl_sub_tile = sub_tile, pl_layer = tile_layer_num tile_loc\<rparr> = Some cluster_id
                   \<and> fst (add_mol_to_cluster cl mol_id cluster_id s) = BLK_PASSED))
           \<and> ((\<forall>sub_tile. loc_to_cluster_id_placed (snd cs)
                     \<lparr>pl_x = tile_x tile_loc, pl_y = tile_y tile_loc,
                      pl_sub_tile = sub_tile, pl_layer = tile_layer_num tile_loc\<rparr> = None)
                \<longrightarrow> snd cs' = (snd cs)\<lparr>unclustered_blocks := unclustered_blocks (snd cs) @ [(mol_id, tile_loc)],
                                        unclustered_block_locs :=
                                          push_back_at tile_loc mol_id (unclustered_block_locs (snd cs))\<rparr>)"
proof -
  from try_tile_sub_tiles_incompatible [OF assms(2), of cl nl count_created mol_id
         "[0 .. capacity grid (get_physical_type grid tile_loc) - 1]" cs]
  obtain placed st' where
    r: "try_tile_sub_tiles cl nl grid count_created tile_loc block_type mol_id
          [0 .. capacity grid (get_physical_type grid tile_loc) - 1] cs = Inr (placed, fst cs, st')"
       "loc_to_cluster_id_placed st' = loc_to_cluster_id_placed (snd cs)"
       "cluster_id_to_loc_desired st' = cluster_id_to_loc_desired (snd cs)"
       "unclustered_blocks st' = unclustered_blocks (snd cs)"
       "unclustered_block_locs st' = unclustered_block_locs (snd cs)"
       "placed \<longrightarrow>
          (\<exists>sub_tile cluster_id s.
              loc_to_cluster_id_placed (snd cs)
                \<lparr>pl_x = tile_x tile_loc, pl_y = tile_y tile_loc,
                 pl_sub_tile = sub_tile, pl_layer = tile_layer_num tile_loc\<rparr> = Some cluster_id
            \<and> fst (add_mol_to_cluster cl mol_id cluster_id s) = BLK_PASSED)"
       "(\<forall>sub_tile. loc_to_cluster_id_placed (snd cs)
                \<lparr>pl_x = tile_x tile_loc, pl_y = tile_y tile_loc,
                 pl_sub_tile = sub_tile, pl_layer = tile_layer_num tile_loc\<rparr> = None)
          \<longrightarrow> \<not> placed \<and> st' = snd cs"
    by blast
  show ?thesis
  proof (cases placed)
    case True
    with r assms(1) show ?thesis
      by (auto simp: reconstruct_molecule_def)
  next
    case False
    with r assms(1) show ?thesis
      by (auto simp: reconstruct_molecule_def)
  qed
qed

theorem first_candidate_decides_new_cluster_witness:
  "get_molecule_logical_block_type mixed_netlist 1 = Some 0
   \<and> \<not> is_tile_compatible grid3 (get_physical_type grid3 centre) 0
   \<and> is_tile_compatible grid3 (get_physical_type grid3 centre) 1
   \<and> (\<exists>cs'. reconstruct_molecule simple_legalizer mixed_netlist grid3 False centre 1
               ([], initial_state Map.empty) = Inr cs'
           \<and> fst cs' = []
           \<and> unclustered_blocks (snd cs') = [(1, centre)]
           \<and> unclustered_block_locs (snd cs') = [(centre, [1])])"
proof -
  have a: "get_molecule_logical_block_type mixed_netlist 1 = Some 0"
    by code_simp
  have b: "\<not> is_tile_compatible grid3 (get_physical_type grid3 centre) 0"
    by code_simp
  have c: "is_tile_compatible grid3 (get_physical_type grid3 centre) 1"
    by code_simp
  have free: "\<And>sub_tile. loc_to_cluster_id_placed (snd ([], initial_state Map.empty))
                     \<lparr>pl_x = tile_x centre, pl_y = tile_y centre,
                      pl_sub_tile = sub_tile, pl_layer = tile_layer_num centre\<rparr> = None"
    by (simp add: initial_state_def)
  from first_candidate_decides_new_cluster
         [OF a b, where cl = simple_legalizer and count_created = False
            and cs = "([], initial_state Map.empty)"]
  obtain cs' where
    r: "reconstruct_molecule simple_legalizer mixed_netlist grid3 False centre 1
          ([], initial_state Map.empty) = Inr cs'" "fst cs' = []"
       "snd cs' = (initial_state Map.empty)
                    \<lparr>unclustered_blocks := unclustered_blocks (initial_state Map.empty) @ [(1, centre)],
                      unclustered_block_locs :=
                        push_back_at centre 1 (unclustered_block_locs (initial_state Map.empty))\<rparr>"
    using free by auto
  from r(3) have "unclustered_blocks (snd cs') = [(1, centre)]"
    "unclustered_block_locs (snd cs') = [(centre, [1])]"
    by (simp_all add: initial_state_def push_back_at_def)
  with a b c r show ?thesis by blast
qed

section \<open>Molecules that stay unclustered\<close>

lemma record_atom_clusters_unclustered:
  "Some a \<in> set atoms \<Longrightarrow> get_atom_cluster cl a s = None \<Longrightarrow>
   \<exists>e. record_atom_clusters cl s atoms m = Inl e"
proof (induction atoms arbitrary: m)
  case Nil
  then show ?case by simp
next
  case (Cons atom atoms)
  show ?case
  proof (cases atom)
    case None
    with Cons show ?thesis by simp
  next
    case (Some b)
    show ?thesis
    proof (cases "b = a")
      case True
      with Some Cons.prems(2) show ?thesis by simp
    next
      case False
      with Some Cons.prems have "Some a \<in> set atoms" by simp
      from Cons.IH [OF this Cons.prems(2)] Some show ?thesis
        by (simp split: option.splits)
    qed
  qed
qed

lemma record_block_clusters_unclustered:
  "blk \<in> set blks \<Longrightarrow> Some a \<in> set (atom_block_ids ap (block_molecule ap blk)) \<Longrightarrow>
   get_atom_cluster cl a s = None \<Longrightarrow>
   \<exists>e. record_block_clusters cl s ap blks m = Inl e"
proof (induction blks arbitrary: m)
  case Nil
  then show ?case by simp
next
  case (Cons b blks)
  show ?case
  proof (cases "record_atom_clusters cl s (atom_block_ids ap (block_molecule ap b)) m")
    case (Inl e)
    then show ?thesis by simp
  next
    case (Inr m')
    have "b \<noteq> blk"
    proof
      assume "b = blk"
      with record_atom_clusters_unclustered [OF Cons.prems(2,3), of m] Inr show False by simp
    qed
    with Cons.prems(1) have "blk \<in> set blks" by simp
    from Cons.IH [OF this Cons.prems(2,3), of m'] Inr show ?thesis by simp
  qed
qed

lemma try_cluster_mols_grows:
  "fst cs \<subseteq> fst (snd (try_cluster_mols cl c mols cs))"
proof (induction mols arbitrary: cs)
  case Nil
  show ?case by simp
next
  case (Cons mol mols)
  show ?case
    using Cons.IH [of cs] Cons.IH [of "(insert mol (fst cs), snd (add_mol_to_cluster cl mol c (snd cs)))"]
          Cons.IH [of "(fst cs, snd (add_mol_to_cluster cl mol c (snd cs)))"]
    by (auto simp: Let_def split: prod.splits if_splits)
qed

lemma try_cluster_tile_grows:
  "fst ns \<subseteq> fst (try_cluster_tile cl c tile_loc ns)
   \<and> unclustered_blocks (snd (try_cluster_tile cl c tile_loc ns)) = unclustered_blocks (snd ns)"
proof (cases "map_of (unclustered_block_locs (snd ns)) tile_loc")
  case None
  then show ?thesis by (simp add: try_cluster_tile_def)
next
  case (Some mol_list)
  with try_cluster_mols_grows [of "(fst ns, legalizer (snd ns))" cl c mol_list]
  show ?thesis
    by (auto simp: try_cluster_tile_def Let_def split: prod.splits)
qed

lemma neighbor_dy_grows:
  "fst ns \<subseteq> fst (snd (neighbor_dy cl c seed r dx dys ns))
   \<and> unclustered_blocks (snd (snd (neighbor_dy cl c seed r dx dys ns))) = unclustered_blocks (snd ns)"
proof (induction dys arbitrary: ns)
  case Nil
  show ?case by simp
next
  case (Cons dy dys)
  let ?t = "\<lparr>tile_x = tile_x seed + dx, tile_y = tile_y seed + dy, tile_layer_num = tile_layer_num seed\<rparr>"
  from Cons.IH [of ns] Cons.IH [of "try_cluster_tile cl c ?t ns"] try_cluster_tile_grows [of ns cl c ?t]
  show ?case
    by (auto simp: Let_def)
qed

lemma neighbor_dx_grows:
  "fst ns \<subseteq> fst (snd (neighbor_dx cl c seed r dxs ns))
   \<and> unclustered_blocks (snd (snd (neighbor_dx cl c seed r dxs ns))) = unclustered_blocks (snd ns)"
proof (induction dxs arbitrary: ns)
  case Nil
  show ?case by simp
next
  case (Cons dx dxs)
  from Cons.IH [of "snd (neighbor_dy cl c seed r dx [- r .. r] ns)"]
       neighbor_dy_grows [of ns cl c seed r dx "[- r .. r]"]
  show ?case
    by (auto split: prod.splits)
qed

lemma neighbor_rings_grows:
  "fst ns \<subseteq> fst (snd (neighbor_rings cl c seed rs ns))
   \<and> unclustered_blocks (snd (snd (neighbor_rings cl c seed rs ns))) = unclustered_blocks (snd ns)"
proof (induction rs arbitrary: ns)
  case Nil
  show ?case by simp
next
  case (Cons r rs)
  from Cons.IH [of "snd (neighbor_dx cl c seed r [- r .. r] ns)"]
       neighbor_dx_grows [of ns cl c seed r "[- r .. r]"]
  show ?case
    by (auto split: prod.splits)
qed

lemma grow_neighbor_cluster_grows:
  assumes "grow_neighbor_cluster cl nl radius mol seed ns = Inr (c, ns')"
  shows "insert mol (fst ns) \<subseteq> fst ns' \<and> unclustered_blocks (snd ns') = unclustered_blocks (snd ns)"
proof -
  from assms obtain s' where
    c: "create_new_cluster cl nl mol (legalizer (snd ns)) = Inr (c, s')" and
    n: "ns' = snd (neighbor_rings cl c seed [1 .. radius]
                  (try_cluster_tile cl c seed (insert mol (fst ns), (snd ns)\<lparr>legalizer := s'\<rparr>)))"
    by (auto simp: grow_neighbor_cluster_def Let_def split: sum.splits)
  let ?n1 = "(insert mol (fst ns), (snd ns)\<lparr>legalizer := s'\<rparr>)"
  from try_cluster_tile_grows [of ?n1 cl c seed]
       neighbor_rings_grows [of "try_cluster_tile cl c seed ?n1" cl c seed "[1 .. radius]"]
  show ?thesis unfolding n by auto
qed

lemma neighbor_seeds_full:
  "neighbor_seeds cl nl FULL radius copy ns = Inr ns' \<Longrightarrow>
   fst ns \<union> fst ` set copy \<subseteq> fst ns' \<and> unclustered_blocks (snd ns') = unclustered_blocks (snd ns)"
proof (induction copy arbitrary: ns)
  case Nil
  then show ?case by simp
next
  case (Cons p copy)
  obtain mol seed where p: "p = (mol, seed)" by (cases p)
  show ?case
  proof (cases "mol \<in> fst ns")
    case True
    with Cons.prems p have "neighbor_seeds cl nl FULL radius copy ns = Inr ns'" by simp
    from Cons.IH [OF this] True p show ?thesis by auto
  next
    case False
    with Cons.prems p obtain c ns1 where
      g: "grow_neighbor_cluster cl nl radius mol seed ns = Inr (c, ns1)" and
      r: "neighbor_seeds cl nl FULL radius copy (finish_neighbor_cluster cl FULL seed c ns1) = Inr ns'"
      by (auto split: sum.splits)
    from Cons.IH [OF r] grow_neighbor_cluster_grows [OF g] p show ?thesis
      by (auto simp: finish_neighbor_cluster_def keep_cluster_def)
  qed
qed

lemma neighbor_cluster_pass_full_empties:
  assumes "neighbor_cluster_pass cl nl FULL radius st = Inr st'"
  shows "unclustered_blocks st' = []"
proof -
  from assms obtain clustered st1 where
    s: "neighbor_seeds cl nl FULL radius (unclustered_blocks st) ({}, st) = Inr (clustered, st1)" and
    e: "st' = st1\<lparr>unclustered_blocks := filter (\<lambda>p. fst p \<notin> clustered) (unclustered_blocks st1)\<rparr>"
    by (auto simp: neighbor_cluster_pass_def split: sum.splits)
  from neighbor_seeds_full [OF s] have
    "fst ` set (unclustered_blocks st) \<subseteq> clustered" "unclustered_blocks st1 = unclustered_blocks st"
    by auto
  then have "filter (\<lambda>p. fst p \<notin> clustered) (unclustered_blocks st1) = []"
    by (auto simp: filter_empty_conv)
  with e show ?thesis by simp
qed

lemma pack_recontruction_pass_all_clustered:
  assumes "pack_recontruction_pass cl nl ap grid tile_blocks st = Inr st'"
  shows "unclustered_blocks st' = []"
proof -
  from assms obtain st2 st3 where
    c: "neighbor_cluster_pass cl nl FULL NEIGHBOR_SEARCH_RADIUS
          (st2\<lparr>legalizer := set_legalization_strategy cl FULL (legalizer st2)\<rparr>) = Inr st3" and
    d: "finish_reconstruction cl grid st3 = Inr st'"
    by (auto simp: pack_recontruction_pass_def reconstruction_clustering_def split: sum.splits)
  from d have "unclustered_blocks st' = unclustered_blocks st3"
    by (auto simp: finish_reconstruction_def split: prod.splits if_splits)
  with neighbor_cluster_pass_full_empties [OF c] show ?thesis by simp
qed

text \<open>
  C9. A run in which a molecule stays unclustered after the passes ends with a fatal
  failure. When the reconstruction pass raises, \<open>legalize\<close> raises the same error. When
  it returns, no entry is left in \<open>unclustered_blocks\<close>: in the second neighbor pass every
  molecule of the list gets a cluster, or the pass raises. And when the legalizer has
  no cluster for an atom of the molecule of some AP block, the loop of \<open>legalize\<close> that
  records the cluster of every atom fails its assertion, before the clustering is
  compressed and written out.
\<close>

theorem unclustered_molecule_is_fatal:
  "(pack_recontruction_pass cl nl ap grid tile_blocks st = Inl e
      \<longrightarrow> legalize_clustering cl nl ap grid tile_blocks st = Inl e)
   \<and> (pack_recontruction_pass cl nl ap grid tile_blocks st = Inr st'
      \<longrightarrow> unclustered_blocks st' = [])
   \<and> (pack_recontruction_pass cl nl ap grid tile_blocks st = Inr st'
       \<and> ap_blk_id \<in> set (blocks ap)
       \<and> Some a \<in> set (atom_block_ids ap (block_molecule ap ap_blk_id))
       \<and> get_atom_cluster cl a (legalizer st') = None
      \<longrightarrow> (\<exists>e'. legalize_clustering cl nl ap grid tile_blocks st = Inl e'))"
proof (intro conjI impI)
  assume "pack_recontruction_pass cl nl ap grid tile_blocks st = Inl e"
  then show "legalize_clustering cl nl ap grid tile_blocks st = Inl e"
    by (simp add: legalize_clustering_def)
next
  assume "pack_recontruction_pass cl nl ap grid tile_blocks st = Inr st'"
  then show "unclustered_blocks st' = []"
    by (rule pack_recontruction_pass_all_clustered)
next
  assume h: "pack_recontruction_pass cl nl ap grid tile_blocks st = Inr st'
       \<and> ap_blk_id \<in> set (blocks ap)
       \<and> Some a \<in> set (atom_block_ids ap (block_molecule ap ap_blk_id))
       \<and> get_atom_cluster cl a (legalizer st') = None"
  then obtain e' where "record_block_clusters cl (legalizer st') ap (blocks ap) Map.empty = Inl e'"
    using record_block_clusters_unclustered [of ap_blk_id "blocks ap" a ap cl "legalizer st'" Map.empty]
    by blast
  with h show "\<exists>e'. legalize_clustering cl nl ap grid tile_blocks st = Inl e'"
    by (simp add: legalize_clustering_def)
qed

theorem unclustered_molecule_is_fatal_witness:
  "\<not> isl (pack_recontruction_pass simple_legalizer mixed_netlist (one_atom_blocks [0, 1, 2]) grid3
             [(centre, [0, 1])] (initial_state Map.empty))
   \<and> 2 \<in> set (blocks (one_atom_blocks [0, 1, 2]))
   \<and> Some 2 \<in> set (atom_block_ids (one_atom_blocks [0, 1, 2]) (block_molecule (one_atom_blocks [0, 1, 2]) 2))
   \<and> get_atom_cluster simple_legalizer 2
        (legalizer (projr (pack_recontruction_pass simple_legalizer mixed_netlist
                             (one_atom_blocks [0, 1, 2]) grid3 [(centre, [0, 1])]
                             (initial_state Map.empty)))) = None
   \<and> isl (legalize_clustering simple_legalizer mixed_netlist (one_atom_blocks [0, 1, 2]) grid3
            [(centre, [0, 1])] (initial_state Map.empty))"
proof -
  let ?run = "pack_recontruction_pass simple_legalizer mixed_netlist (one_atom_blocks [0, 1, 2]) grid3
             [(centre, [0, 1])] (initial_state Map.empty)"
  have a: "\<not> isl ?run" by code_simp
  have b: "2 \<in> set (blocks (one_atom_blocks [0, 1, 2]))"
    "Some 2 \<in> set (atom_block_ids (one_atom_blocks [0, 1, 2]) (block_molecule (one_atom_blocks [0, 1, 2]) 2))"
    by (simp_all add: one_atom_blocks_def)
  have c: "get_atom_cluster simple_legalizer 2 (legalizer (projr ?run)) = None" by code_simp
  from a have r: "?run = Inr (projr ?run)" by (cases ?run) auto
  from unclustered_molecule_is_fatal
         [where cl = simple_legalizer and nl = mixed_netlist and ap = "one_atom_blocks [0, 1, 2]"
            and grid = grid3 and tile_blocks = "[(centre, [0, 1])]"
            and st = "initial_state Map.empty" and st' = "projr ?run" and ap_blk_id = 2 and a = 2]
       r b c
  have "\<exists>e'. legalize_clustering simple_legalizer mixed_netlist (one_atom_blocks [0, 1, 2]) grid3
            [(centre, [0, 1])] (initial_state Map.empty) = Inl e'"
    by blast
  then have "isl (legalize_clustering simple_legalizer mixed_netlist (one_atom_blocks [0, 1, 2]) grid3
            [(centre, [0, 1])] (initial_state Map.empty))"
    by auto
  with a b c show ?thesis by blast
qed

section \<open>Clusters built under the strict strategy\<close>

subsection \<open>The neighbor pass under the contract\<close>

lemma sound_start:
  assumes "strict_tier_sound cl strict" "strict s"
    and "start_new_cluster cl mol type mode s = ((status, c), s')"
  shows "strict s'" and "status = BLK_PASSED \<Longrightarrow> check_cluster_legality cl c s'"
proof -
  from assms(1,2) have
    "strict (snd (start_new_cluster cl mol type mode s))
     \<and> (fst (fst (start_new_cluster cl mol type mode s)) = BLK_PASSED \<longrightarrow>
          check_cluster_legality cl (snd (fst (start_new_cluster cl mol type mode s)))
            (snd (start_new_cluster cl mol type mode s)))"
    unfolding strict_tier_sound_def by blast
  with assms(3) show "strict s'" and "status = BLK_PASSED \<Longrightarrow> check_cluster_legality cl c s'"
    by simp_all
qed

lemma sound_add:
  assumes "strict_tier_sound cl strict" "strict s"
    and "add_mol_to_cluster cl mol c s = (status, s')"
  shows "strict s'" and "check_cluster_legality cl c s \<Longrightarrow> check_cluster_legality cl c s'"
proof -
  from assms(1,2) have
    "strict (snd (add_mol_to_cluster cl mol c s))
     \<and> (check_cluster_legality cl c s \<longrightarrow>
          check_cluster_legality cl c (snd (add_mol_to_cluster cl mol c s)))"
    unfolding strict_tier_sound_def by blast
  with assms(3) show "strict s'" and "check_cluster_legality cl c s \<Longrightarrow> check_cluster_legality cl c s'"
    by simp_all
qed

lemma sound_clean:
  "strict_tier_sound cl strict \<Longrightarrow> strict s \<Longrightarrow> strict (clean_cluster cl c s)"
  unfolding strict_tier_sound_def by blast

lemma create_new_cluster_modes_sound:
  "strict_tier_sound cl strict \<Longrightarrow> strict s \<Longrightarrow>
   create_new_cluster_modes cl seed type nmodes mode s = (r, s') \<Longrightarrow>
   strict s' \<and> (\<forall>c. r = Some c \<longrightarrow> check_cluster_legality cl c s')"
proof (induction cl seed type nmodes mode s rule: create_new_cluster_modes.induct)
  case (1 cl seed type nmodes mode s)
  note eq = "1.prems"(3) [unfolded create_new_cluster_modes.simps [of cl seed type nmodes mode s]]
  show ?case
  proof (cases "mode < nmodes")
    case False
    with eq "1.prems"(2) show ?thesis by simp
  next
    case True
    obtain status c s1 where st: "start_new_cluster cl seed type mode s = ((status, c), s1)"
      by (metis surj_pair)
    note snd = sound_start [OF "1.prems"(1,2) st]
    show ?thesis
    proof (cases "status = BLK_PASSED")
      case passed: True
      with True st eq have "r = Some c" "s' = s1" by simp_all
      with snd passed show ?thesis by simp
    next
      case failed: False
      with True st eq have "create_new_cluster_modes cl seed type nmodes (mode + 1) s1 = (r, s')"
        by simp
      from "1.IH" [OF True st [symmetric] refl failed "1.prems"(1) snd(1) this] show ?thesis .
    qed
  qed
qed

lemma create_new_cluster_types_sound:
  assumes "strict_tier_sound cl strict"
  shows "strict s \<Longrightarrow> create_new_cluster_types cl nl seed types s = (r, s') \<Longrightarrow>
         strict s' \<and> (\<forall>c. r = Some c \<longrightarrow> check_cluster_legality cl c s')"
proof (induction types arbitrary: s)
  case Nil
  then show ?case by simp
next
  case (Cons type types)
  obtain r1 s1 where m: "create_new_cluster_modes cl seed type (num_modes nl type) 0 s = (r1, s1)"
    by (metis surj_pair)
  note snd = create_new_cluster_modes_sound [OF assms Cons.prems(1) m]
  show ?case
  proof (cases r1)
    case None
    with m Cons.prems(2) have "create_new_cluster_types cl nl seed types s1 = (r, s')" by simp
    from Cons.IH [OF _ this] snd show ?thesis by simp
  next
    case (Some c)
    with m Cons.prems(2) have "r = Some c" "s' = s1" by simp_all
    with snd Some show ?thesis by simp
  qed
qed

lemma create_new_cluster_sound:
  assumes "strict_tier_sound cl strict" "strict s"
    and "create_new_cluster cl nl seed s = Inr (c, s')"
  shows "strict s' \<and> check_cluster_legality cl c s'"
proof -
  let ?types = "primitive_candidate_block_types nl (block_model nl (molecule_root_atom nl seed))"
  from assms(3) have "create_new_cluster_types cl nl seed ?types s = (Some c, s')"
    by (auto simp: create_new_cluster_def Let_def split: if_splits prod.splits option.splits)
  from create_new_cluster_types_sound [OF assms(1,2) this] show ?thesis by simp
qed

lemma try_cluster_mols_sound:
  assumes "strict_tier_sound cl strict"
  shows "strict (snd cs) \<Longrightarrow> check_cluster_legality cl c (snd cs) \<Longrightarrow>
         strict (snd (snd (try_cluster_mols cl c mols cs)))
         \<and> check_cluster_legality cl c (snd (snd (try_cluster_mols cl c mols cs)))"
proof (induction mols arbitrary: cs)
  case Nil
  then show ?case by simp
next
  case (Cons mol mols)
  obtain status s1 where a: "add_mol_to_cluster cl mol c (snd cs) = (status, s1)"
    by (metis surj_pair)
  note snd = sound_add [OF assms Cons.prems(1) a]
  from Cons.IH [of cs] Cons.IH [of "(insert mol (fst cs), s1)"] Cons.IH [of "(fst cs, s1)"]
       Cons.prems snd a
  show ?case
    by (auto simp: Let_def split: prod.splits)
qed

lemma try_cluster_tile_sound:
  assumes "strict_tier_sound cl strict"
    and "strict (legalizer (snd ns))" "check_cluster_legality cl c (legalizer (snd ns))"
  shows "strict (legalizer (snd (try_cluster_tile cl c tile_loc ns)))
         \<and> check_cluster_legality cl c (legalizer (snd (try_cluster_tile cl c tile_loc ns)))"
proof (cases "map_of (unclustered_block_locs (snd ns)) tile_loc")
  case None
  with assms show ?thesis by (simp add: try_cluster_tile_def)
next
  case (Some mol_list)
  from try_cluster_mols_sound [OF assms(1), of "(fst ns, legalizer (snd ns))" c mol_list] assms(2,3) Some
  show ?thesis
    by (auto simp: try_cluster_tile_def Let_def split: prod.splits)
qed

lemma neighbor_dy_sound:
  assumes "strict_tier_sound cl strict"
  shows "strict (legalizer (snd ns)) \<Longrightarrow> check_cluster_legality cl c (legalizer (snd ns)) \<Longrightarrow>
         strict (legalizer (snd (snd (neighbor_dy cl c seed r dx dys ns))))
         \<and> check_cluster_legality cl c (legalizer (snd (snd (neighbor_dy cl c seed r dx dys ns))))"
proof (induction dys arbitrary: ns)
  case Nil
  then show ?case by simp
next
  case (Cons dy dys)
  let ?t = "\<lparr>tile_x = tile_x seed + dx, tile_y = tile_y seed + dy, tile_layer_num = tile_layer_num seed\<rparr>"
  from Cons.IH [of ns] Cons.IH [of "try_cluster_tile cl c ?t ns"]
       try_cluster_tile_sound [OF assms Cons.prems, of ?t] Cons.prems
  show ?case
    by (auto simp: Let_def)
qed

lemma neighbor_dx_sound:
  assumes "strict_tier_sound cl strict"
  shows "strict (legalizer (snd ns)) \<Longrightarrow> check_cluster_legality cl c (legalizer (snd ns)) \<Longrightarrow>
         strict (legalizer (snd (snd (neighbor_dx cl c seed r dxs ns))))
         \<and> check_cluster_legality cl c (legalizer (snd (snd (neighbor_dx cl c seed r dxs ns))))"
proof (induction dxs arbitrary: ns)
  case Nil
  then show ?case by simp
next
  case (Cons dx dxs)
  from Cons.IH [of "snd (neighbor_dy cl c seed r dx [- r .. r] ns)"]
       neighbor_dy_sound [OF assms Cons.prems, of seed r dx "[- r .. r]"]
  show ?case
    by (auto split: prod.splits)
qed

lemma neighbor_rings_sound:
  assumes "strict_tier_sound cl strict"
  shows "strict (legalizer (snd ns)) \<Longrightarrow> check_cluster_legality cl c (legalizer (snd ns)) \<Longrightarrow>
         strict (legalizer (snd (snd (neighbor_rings cl c seed rs ns))))
         \<and> check_cluster_legality cl c (legalizer (snd (snd (neighbor_rings cl c seed rs ns))))"
proof (induction rs arbitrary: ns)
  case Nil
  then show ?case by simp
next
  case (Cons r rs)
  from Cons.IH [of "snd (neighbor_dx cl c seed r [- r .. r] ns)"]
       neighbor_dx_sound [OF assms Cons.prems, of seed r "[- r .. r]"]
  show ?case
    by (auto split: prod.splits)
qed

lemma grow_neighbor_cluster_sound:
  assumes "strict_tier_sound cl strict" "strict (legalizer (snd ns))"
    and "grow_neighbor_cluster cl nl radius mol seed ns = Inr (c, ns')"
  shows "strict (legalizer (snd ns')) \<and> check_cluster_legality cl c (legalizer (snd ns'))"
proof -
  from assms(3) obtain s' where
    c: "create_new_cluster cl nl mol (legalizer (snd ns)) = Inr (c, s')" and
    n: "ns' = snd (neighbor_rings cl c seed [1 .. radius]
                  (try_cluster_tile cl c seed (insert mol (fst ns), (snd ns)\<lparr>legalizer := s'\<rparr>)))"
    by (auto simp: grow_neighbor_cluster_def Let_def split: sum.splits)
  let ?n1 = "(insert mol (fst ns), (snd ns)\<lparr>legalizer := s'\<rparr>)"
  from create_new_cluster_sound [OF assms(1,2) c]
  have "strict (legalizer (snd ?n1))" "check_cluster_legality cl c (legalizer (snd ?n1))" by simp_all
  from try_cluster_tile_sound [OF assms(1) this, of seed]
  have "strict (legalizer (snd (try_cluster_tile cl c seed ?n1)))"
       "check_cluster_legality cl c (legalizer (snd (try_cluster_tile cl c seed ?n1)))" by simp_all
  from neighbor_rings_sound [OF assms(1) this, of seed "[1 .. radius]"] show ?thesis
    unfolding n by simp
qed

lemma neighbor_seeds_strict:
  assumes "strict_tier_sound cl strict"
  shows "strict (legalizer (snd ns)) \<Longrightarrow> neighbor_seeds cl nl FULL radius copy ns = Inr ns' \<Longrightarrow>
         strict (legalizer (snd ns'))"
proof (induction copy arbitrary: ns)
  case Nil
  then show ?case by simp
next
  case (Cons p copy)
  obtain mol seed where p: "p = (mol, seed)" by (cases p)
  show ?case
  proof (cases "mol \<in> fst ns")
    case True
    with Cons.prems p have "neighbor_seeds cl nl FULL radius copy ns = Inr ns'" by simp
    from Cons.IH [OF Cons.prems(1) this] show ?thesis .
  next
    case False
    with Cons.prems p obtain c ns1 where
      g: "grow_neighbor_cluster cl nl radius mol seed ns = Inr (c, ns1)" and
      r: "neighbor_seeds cl nl FULL radius copy (finish_neighbor_cluster cl FULL seed c ns1) = Inr ns'"
      by (auto split: sum.splits)
    from grow_neighbor_cluster_sound [OF assms Cons.prems(1) g]
    have "strict (legalizer (snd (finish_neighbor_cluster cl FULL seed c ns1)))"
      by (simp add: finish_neighbor_cluster_def keep_cluster_def sound_clean [OF assms])
    from Cons.IH [OF this r] show ?thesis .
  qed
qed

subsection \<open>The other clusters across the operations of the legalizer\<close>

lemma frame_set:
  assumes "legalizer_frame cl strict live"
  shows "live (set_legalization_strategy cl strategy s) = live s"
    and "check_cluster_legality cl c (set_legalization_strategy cl strategy s)
           = check_cluster_legality cl c s"
    and "strict (set_legalization_strategy cl FULL s)"
proof -
  note k = assms [unfolded legalizer_frame_def]
  from k [THEN conjunct1] show "strict (set_legalization_strategy cl FULL s)" by (rule spec)
  from k [THEN conjunct2, THEN conjunct1, rule_format, of strategy s c]
  show "live (set_legalization_strategy cl strategy s) = live s"
    and "check_cluster_legality cl c (set_legalization_strategy cl strategy s)
           = check_cluster_legality cl c s"
    by simp_all
qed

lemma frame_start:
  assumes "legalizer_frame cl strict live"
    and "start_new_cluster cl mol type mode s = ((status, c), s')"
  shows "status = BLK_PASSED \<Longrightarrow> c \<notin> live s \<and> live s' = insert c (live s)"
    and "status \<noteq> BLK_PASSED \<Longrightarrow> live s' = live s"
    and "c' \<in> live s \<Longrightarrow> check_cluster_legality cl c' s \<Longrightarrow> check_cluster_legality cl c' s'"
proof -
  note k = assms(1) [unfolded legalizer_frame_def, THEN conjunct2, THEN conjunct2, THEN conjunct1,
                     THEN spec, THEN spec, THEN spec, THEN spec, of mol type mode s]
  from k [THEN conjunct1] assms(2)
  show "status = BLK_PASSED \<Longrightarrow> c \<notin> live s \<and> live s' = insert c (live s)"
    by simp
  from k [THEN conjunct2, THEN conjunct1] assms(2)
  show "status \<noteq> BLK_PASSED \<Longrightarrow> live s' = live s" by simp
  from k [THEN conjunct2, THEN conjunct2, THEN spec, of c'] assms(2)
  show "c' \<in> live s \<Longrightarrow> check_cluster_legality cl c' s \<Longrightarrow>
      check_cluster_legality cl c' s'" by simp
qed

lemma frame_add:
  assumes "legalizer_frame cl strict live"
    and "add_mol_to_cluster cl mol c s = (status, s')"
  shows "live s' = live s"
    and "c' \<noteq> c \<Longrightarrow> check_cluster_legality cl c' s \<Longrightarrow> check_cluster_legality cl c' s'"
proof -
  note k = assms(1) [unfolded legalizer_frame_def, THEN conjunct2, THEN conjunct2, THEN conjunct2,
                     THEN conjunct1, THEN spec, THEN spec, THEN spec, of mol c s]
  from k [THEN conjunct1] assms(2) show "live s' = live s" by simp
  from k [THEN conjunct2, THEN spec, of c'] assms(2)
  show "c' \<noteq> c \<Longrightarrow> check_cluster_legality cl c' s \<Longrightarrow>
      check_cluster_legality cl c' s'" by simp
qed

lemma frame_clean:
  assumes "legalizer_frame cl strict live"
  shows "live (clean_cluster cl c s) = live s"
    and "check_cluster_legality cl c' (clean_cluster cl c s) = check_cluster_legality cl c' s"
proof -
  note k = assms(1) [unfolded legalizer_frame_def, THEN conjunct2, THEN conjunct2, THEN conjunct2,
                     THEN conjunct2, THEN conjunct1, THEN spec, THEN spec, of c s]
  from k [THEN conjunct1] show "live (clean_cluster cl c s) = live s" .
  from k [THEN conjunct2, THEN spec, of c']
  show "check_cluster_legality cl c' (clean_cluster cl c s) = check_cluster_legality cl c' s" .
qed

lemma frame_destroy:
  assumes "legalizer_frame cl strict live"
  shows "live (destroy_cluster cl c s) = live s - {c}"
    and "c' \<noteq> c \<Longrightarrow> check_cluster_legality cl c' s \<Longrightarrow>
         check_cluster_legality cl c' (destroy_cluster cl c s)"
proof -
  note k = assms(1) [unfolded legalizer_frame_def, THEN conjunct2, THEN conjunct2, THEN conjunct2,
                     THEN conjunct2, THEN conjunct2, THEN spec, THEN spec, of c s]
  from k [THEN conjunct1] show "live (destroy_cluster cl c s) = live s - {c}" .
  from k [THEN conjunct2, THEN spec, of c']
  show "c' \<noteq> c \<Longrightarrow> check_cluster_legality cl c' s \<Longrightarrow>
         check_cluster_legality cl c' (destroy_cluster cl c s)" by simp
qed

lemma create_new_cluster_modes_frame:
  "legalizer_frame cl strict live \<Longrightarrow>
   create_new_cluster_modes cl seed type nmodes mode s = (r, s') \<Longrightarrow>
   (case r of Some c \<Rightarrow> c \<notin> live s \<and> live s' = insert c (live s) | None \<Rightarrow> live s' = live s)
   \<and> (\<forall>c'. c' \<in> live s \<and> check_cluster_legality cl c' s \<longrightarrow> check_cluster_legality cl c' s')"
proof (induction cl seed type nmodes mode s rule: create_new_cluster_modes.induct)
  case (1 cl seed type nmodes mode s)
  note eq = "1.prems"(2) [unfolded create_new_cluster_modes.simps [of cl seed type nmodes mode s]]
  show ?case
  proof (cases "mode < nmodes")
    case False
    with eq show ?thesis by simp
  next
    case True
    obtain status c s1 where st: "start_new_cluster cl seed type mode s = ((status, c), s1)"
      by (metis surj_pair)
    note fr = frame_start [OF "1.prems"(1) st]
    show ?thesis
    proof (cases "status = BLK_PASSED")
      case passed: True
      with True st eq have "r = Some c" "s' = s1" by simp_all
      with fr(1) [OF passed] fr(3) show ?thesis by simp
    next
      case failed: False
      with True st eq have "create_new_cluster_modes cl seed type nmodes (mode + 1) s1 = (r, s')"
        by simp
      from "1.IH" [OF True st [symmetric] refl failed "1.prems"(1) this] fr(2) [OF failed] fr(3)
      show ?thesis by (auto split: option.splits)
    qed
  qed
qed

lemma create_new_cluster_types_frame:
  assumes "legalizer_frame cl strict live"
  shows "create_new_cluster_types cl nl seed types s = (r, s') \<Longrightarrow>
   (case r of Some c \<Rightarrow> c \<notin> live s \<and> live s' = insert c (live s) | None \<Rightarrow> live s' = live s)
   \<and> (\<forall>c'. c' \<in> live s \<and> check_cluster_legality cl c' s \<longrightarrow> check_cluster_legality cl c' s')"
proof (induction types arbitrary: s)
  case Nil
  then show ?case by simp
next
  case (Cons type types)
  obtain r1 s1 where m: "create_new_cluster_modes cl seed type (num_modes nl type) 0 s = (r1, s1)"
    by (metis surj_pair)
  note fr = create_new_cluster_modes_frame [OF assms m]
  show ?case
  proof (cases r1)
    case None
    with m Cons.prems have "create_new_cluster_types cl nl seed types s1 = (r, s')" by simp
    from Cons.IH [OF this] fr None show ?thesis by (auto split: option.splits)
  next
    case (Some c)
    with m Cons.prems have "r = Some c" "s' = s1" by simp_all
    with fr Some show ?thesis by simp
  qed
qed

lemma create_new_cluster_frame:
  assumes "legalizer_frame cl strict live"
    and "create_new_cluster cl nl seed s = Inr (c, s')"
  shows "c \<notin> live s" and "live s' = insert c (live s)"
    and "c' \<in> live s \<Longrightarrow> check_cluster_legality cl c' s \<Longrightarrow> check_cluster_legality cl c' s'"
proof -
  let ?types = "primitive_candidate_block_types nl (block_model nl (molecule_root_atom nl seed))"
  from assms(2) have "create_new_cluster_types cl nl seed ?types s = (Some c, s')"
    by (auto simp: create_new_cluster_def Let_def split: if_splits prod.splits option.splits)
  note fr = create_new_cluster_types_frame [OF assms(1) this]
  from fr show "c \<notin> live s" and "live s' = insert c (live s)" by simp_all
  from fr show "c' \<in> live s \<Longrightarrow> check_cluster_legality cl c' s \<Longrightarrow>
      check_cluster_legality cl c' s'" by simp
qed

lemma others_kept_refl: "others_kept cl live c st st"
  by (simp add: others_kept_def)

lemma others_kept_trans:
  "others_kept cl live c st st1 \<Longrightarrow> others_kept cl live c st1 st2 \<Longrightarrow> others_kept cl live c st st2"
  by (simp add: others_kept_def)

lemma try_cluster_mols_frame:
  assumes "legalizer_frame cl strict live"
  shows "live (snd (snd (try_cluster_mols cl c mols cs))) = live (snd cs)
         \<and> (\<forall>c'. c' \<noteq> c \<and> check_cluster_legality cl c' (snd cs) \<longrightarrow>
                check_cluster_legality cl c' (snd (snd (try_cluster_mols cl c mols cs))))"
proof (induction mols arbitrary: cs)
  case Nil
  show ?case by simp
next
  case (Cons mol mols)
  obtain status s1 where a: "add_mol_to_cluster cl mol c (snd cs) = (status, s1)"
    by (metis surj_pair)
  note fr = frame_add [OF assms a]
  from Cons.IH [of cs] Cons.IH [of "(insert mol (fst cs), s1)"] Cons.IH [of "(fst cs, s1)"] fr a
  show ?case
    by (auto simp: Let_def split: prod.splits)
qed

lemma try_cluster_tile_frame:
  assumes "legalizer_frame cl strict live"
  shows "others_kept cl live c (snd ns) (snd (try_cluster_tile cl c tile_loc ns))"
proof (cases "map_of (unclustered_block_locs (snd ns)) tile_loc")
  case None
  then show ?thesis by (simp add: try_cluster_tile_def others_kept_def)
next
  case (Some mol_list)
  from try_cluster_mols_frame [OF assms, of c mol_list "(fst ns, legalizer (snd ns))"] Some
  show ?thesis
    by (auto simp: try_cluster_tile_def others_kept_def Let_def split: prod.splits)
qed

lemma neighbor_dy_frame:
  assumes "legalizer_frame cl strict live"
  shows "others_kept cl live c (snd ns) (snd (snd (neighbor_dy cl c seed r dx dys ns)))"
proof (induction dys arbitrary: ns)
  case Nil
  show ?case by (simp add: others_kept_refl)
next
  case (Cons dy dys)
  let ?t = "\<lparr>tile_x = tile_x seed + dx, tile_y = tile_y seed + dy, tile_layer_num = tile_layer_num seed\<rparr>"
  let ?n = "try_cluster_tile cl c ?t ns"
  note t = try_cluster_tile_frame [OF assms, of c ns ?t]
  show ?case
  proof (cases "\<bar>dx\<bar> + \<bar>dy\<bar> \<noteq> r \<or> map_of (unclustered_block_locs (snd ns)) ?t = None")
    case True
    then have "neighbor_dy cl c seed r dx (dy # dys) ns = neighbor_dy cl c seed r dx dys ns"
      by (auto simp: Let_def)
    with Cons.IH [of ns] show ?thesis by simp
  next
    case False
    show ?thesis
    proof (cases "has_empty_primitive (get_cluster_pb cl c (legalizer (snd ?n)))")
      case True
      with False have "neighbor_dy cl c seed r dx (dy # dys) ns = neighbor_dy cl c seed r dx dys ?n"
        by (auto simp: Let_def)
      with others_kept_trans [OF t Cons.IH [of ?n]] show ?thesis by simp
    next
      case full: False
      with False have "neighbor_dy cl c seed r dx (dy # dys) ns = (True, ?n)"
        by (auto simp: Let_def)
      with t show ?thesis by simp
    qed
  qed
qed

lemma neighbor_dx_frame:
  assumes "legalizer_frame cl strict live"
  shows "others_kept cl live c (snd ns) (snd (snd (neighbor_dx cl c seed r dxs ns)))"
proof (induction dxs arbitrary: ns)
  case Nil
  show ?case by (simp add: others_kept_refl)
next
  case (Cons dx dxs)
  obtain skip n where d: "neighbor_dy cl c seed r dx [- r .. r] ns = (skip, n)"
    by (metis surj_pair)
  from neighbor_dy_frame [OF assms, of c ns seed r dx "[- r .. r]"] d
  have t: "others_kept cl live c (snd ns) (snd n)" by simp
  show ?case
  proof (cases skip)
    case True
    with d t show ?thesis by simp
  next
    case False
    with d others_kept_trans [OF t Cons.IH [of n]] show ?thesis by simp
  qed
qed

lemma neighbor_rings_frame:
  assumes "legalizer_frame cl strict live"
  shows "others_kept cl live c (snd ns) (snd (snd (neighbor_rings cl c seed rs ns)))"
proof (induction rs arbitrary: ns)
  case Nil
  show ?case by (simp add: others_kept_refl)
next
  case (Cons r rs)
  obtain skip n where d: "neighbor_dx cl c seed r [- r .. r] ns = (skip, n)"
    by (metis surj_pair)
  from neighbor_dx_frame [OF assms, of c ns seed r "[- r .. r]"] d
  have t: "others_kept cl live c (snd ns) (snd n)" by simp
  show ?case
  proof (cases skip)
    case True
    with d t show ?thesis by simp
  next
    case False
    with d others_kept_trans [OF t Cons.IH [of n]] show ?thesis by simp
  qed
qed

lemma grow_neighbor_cluster_frame:
  assumes "legalizer_frame cl strict live"
    and "grow_neighbor_cluster cl nl radius mol seed ns = Inr (c, ns')"
  shows "c \<notin> live (legalizer (snd ns))"
    and "live (legalizer (snd ns')) = insert c (live (legalizer (snd ns)))"
    and "loc_to_cluster_id_placed (snd ns') = loc_to_cluster_id_placed (snd ns)"
    and "cluster_id_to_loc_unplaced (snd ns') = cluster_id_to_loc_unplaced (snd ns)"
    and "c' \<in> live (legalizer (snd ns)) \<Longrightarrow> check_cluster_legality cl c' (legalizer (snd ns)) \<Longrightarrow>
         check_cluster_legality cl c' (legalizer (snd ns'))"
proof -
  from assms(2) obtain s' where
    c: "create_new_cluster cl nl mol (legalizer (snd ns)) = Inr (c, s')" and
    n: "ns' = snd (neighbor_rings cl c seed [1 .. radius]
                  (try_cluster_tile cl c seed (insert mol (fst ns), (snd ns)\<lparr>legalizer := s'\<rparr>)))"
    by (auto simp: grow_neighbor_cluster_def Let_def split: sum.splits)
  let ?n1 = "(insert mol (fst ns), (snd ns)\<lparr>legalizer := s'\<rparr>)"
  note fr = create_new_cluster_frame [OF assms(1) c]
  have "others_kept cl live c (snd ?n1) (snd ns')"
    unfolding n
    by (rule others_kept_trans [OF try_cluster_tile_frame [OF assms(1)] neighbor_rings_frame [OF assms(1)]])
  then have k: "loc_to_cluster_id_placed (snd ns') = loc_to_cluster_id_placed (snd ns)"
    "cluster_id_to_loc_unplaced (snd ns') = cluster_id_to_loc_unplaced (snd ns)"
    "live (legalizer (snd ns')) = live s'"
    "\<And>c'. c' \<noteq> c \<Longrightarrow> check_cluster_legality cl c' s' \<Longrightarrow>
       check_cluster_legality cl c' (legalizer (snd ns'))"
    by (simp_all add: others_kept_def)
  from fr(1) show "c \<notin> live (legalizer (snd ns))" .
  from k(3) fr(2) show "live (legalizer (snd ns')) = insert c (live (legalizer (snd ns)))" by simp
  from k(1) show "loc_to_cluster_id_placed (snd ns') = loc_to_cluster_id_placed (snd ns)" .
  from k(2) show "cluster_id_to_loc_unplaced (snd ns') = cluster_id_to_loc_unplaced (snd ns)" .
  show "c' \<in> live (legalizer (snd ns)) \<Longrightarrow> check_cluster_legality cl c' (legalizer (snd ns)) \<Longrightarrow>
         check_cluster_legality cl c' (legalizer (snd ns'))"
    using fr(1) fr(3) [of c'] k(4) [of c'] by blast
qed


lemma unplaced_push_back_at:
  "(\<Union>a\<in>set (push_back_at k v m). set (snd a)) = insert v (\<Union>a\<in>set m. set (snd a))"
proof (induction m)
  case Nil
  show ?case by (simp add: push_back_at_def)
next
  case (Cons p m)
  show ?case
  proof (cases "fst p = k")
    case True
    then show ?thesis by (cases p) (auto simp: push_back_at_def)
  next
    case False
    with Cons.IH show ?thesis by (cases p) (auto simp: push_back_at_def)
  qed
qed

lemma requeue_molecules_tables:
  "loc_to_cluster_id_placed (snd (requeue_molecules seed mols ns)) = loc_to_cluster_id_placed (snd ns)
   \<and> cluster_id_to_loc_unplaced (snd (requeue_molecules seed mols ns))
       = cluster_id_to_loc_unplaced (snd ns)
   \<and> legalizer (snd (requeue_molecules seed mols ns)) = legalizer (snd ns)"
  by (induction mols arbitrary: ns) auto

lemma kept_clusters_keep:
  "kept_clusters (keep_cluster cl seed c st) = insert c (kept_clusters st)"
  by (simp add: kept_clusters_def keep_cluster_def unplaced_push_back_at)

lemma finish_neighbor_cluster_all_legal:
  assumes fr: "legalizer_frame cl strict live"
    and inv: "all_legal cl live (snd ns)"
    and g: "grow_neighbor_cluster cl nl radius mol seed ns = Inr (c, ns')"
    and full: "strategy = FULL \<Longrightarrow> check_cluster_legality cl c (legalizer (snd ns'))"
  shows "all_legal cl live (snd (finish_neighbor_cluster cl strategy seed c ns'))"
proof -
  note gf = grow_neighbor_cluster_frame [OF fr g]
  have kept: "kept_clusters (snd ns') = kept_clusters (snd ns)"
    by (simp add: kept_clusters_def gf(3,4))
  from inv have sub: "kept_clusters (snd ns) \<subseteq> live (legalizer (snd ns))"
    and leg: "\<And>c'. c' \<in> kept_clusters (snd ns) \<Longrightarrow> check_cluster_legality cl c' (legalizer (snd ns))"
    by (simp_all add: all_legal_def)
  have leg': "\<And>c'. c' \<in> kept_clusters (snd ns) \<Longrightarrow> check_cluster_legality cl c' (legalizer (snd ns'))"
    using gf(5) sub leg by blast
  have notin: "c \<notin> kept_clusters (snd ns)" using gf(1) sub by blast
  show ?thesis
  proof (cases "strategy = FULL \<or> check_cluster_legality cl c (legalizer (snd ns'))")
    case True
    then have f: "finish_neighbor_cluster cl strategy seed c ns' = (fst ns', keep_cluster cl seed c (snd ns'))"
      by (auto simp: finish_neighbor_cluster_def)
    from True full have c: "check_cluster_legality cl c (legalizer (snd ns'))" by blast
    have l: "legalizer (keep_cluster cl seed c (snd ns')) = clean_cluster cl c (legalizer (snd ns'))"
      by (simp add: keep_cluster_def)
    show ?thesis
      unfolding f all_legal_def
      using sub leg' c gf(2)
      by (auto simp: kept_clusters_keep kept l frame_clean [OF fr])
  next
    case False
    then have f: "finish_neighbor_cluster cl strategy seed c ns' = destroy_and_requeue cl seed c ns'"
      by (auto simp: finish_neighbor_cluster_def)
    let ?q = "requeue_molecules seed (get_cluster_molecules cl c (legalizer (snd ns'))) ns'"
    note rq = requeue_molecules_tables [of seed "get_cluster_molecules cl c (legalizer (snd ns'))" ns']
    have d: "snd (destroy_and_requeue cl seed c ns')
               = (snd ?q)\<lparr>legalizer := destroy_cluster cl c (legalizer (snd ?q))\<rparr>"
      by (simp add: destroy_and_requeue_def split: prod.splits)
    have k2: "kept_clusters (snd (destroy_and_requeue cl seed c ns')) = kept_clusters (snd ns)"
      unfolding d using rq kept by (simp add: kept_clusters_def)
    have l2: "legalizer (snd (destroy_and_requeue cl seed c ns'))
                = destroy_cluster cl c (legalizer (snd ns'))"
      unfolding d using rq by simp
    show ?thesis
      unfolding f all_legal_def k2 l2
      using sub leg' notin gf(1,2) frame_destroy [OF fr, where c = c and s = "legalizer (snd ns')"]
      by (auto; blast)
  qed
qed

lemma neighbor_seeds_all_legal:
  assumes snd: "strict_tier_sound cl strict" and fr: "legalizer_frame cl strict live"
  shows "all_legal cl live (snd ns) \<Longrightarrow>
         (strategy = FULL \<longrightarrow> strict (legalizer (snd ns))) \<Longrightarrow>
         neighbor_seeds cl nl strategy radius copy ns = Inr ns' \<Longrightarrow>
         all_legal cl live (snd ns')"
proof (induction copy arbitrary: ns)
  case Nil
  then show ?case by simp
next
  case (Cons p copy)
  obtain mol seed where p: "p = (mol, seed)" by (cases p)
  show ?case
  proof (cases "mol \<in> fst ns")
    case True
    with Cons.prems p have "neighbor_seeds cl nl strategy radius copy ns = Inr ns'" by simp
    from Cons.IH [OF Cons.prems(1,2) this] show ?thesis .
  next
    case False
    with Cons.prems p obtain c ns1 where
      g: "grow_neighbor_cluster cl nl radius mol seed ns = Inr (c, ns1)" and
      r: "neighbor_seeds cl nl strategy radius copy (finish_neighbor_cluster cl strategy seed c ns1) = Inr ns'"
      by (auto split: sum.splits)
    have full: "strategy = FULL \<Longrightarrow>
          strict (legalizer (snd ns1)) \<and> check_cluster_legality cl c (legalizer (snd ns1))"
      using grow_neighbor_cluster_sound [OF snd _ g] Cons.prems(2) by blast
    have a: "all_legal cl live (snd (finish_neighbor_cluster cl strategy seed c ns1))"
      using finish_neighbor_cluster_all_legal [OF fr Cons.prems(1) g] full by blast
    have b: "strategy = FULL \<longrightarrow> strict (legalizer (snd (finish_neighbor_cluster cl strategy seed c ns1)))"
      using full by (auto simp: finish_neighbor_cluster_def keep_cluster_def sound_clean [OF snd])
    from Cons.IH [OF a b r] show ?thesis .
  qed
qed

lemma neighbor_cluster_pass_all_legal:
  assumes snd: "strict_tier_sound cl strict" and fr: "legalizer_frame cl strict live"
    and inv: "all_legal cl live st"
    and str: "strategy = FULL \<longrightarrow> strict (legalizer st)"
    and p: "neighbor_cluster_pass cl nl strategy radius st = Inr st'"
  shows "all_legal cl live st'"
proof -
  from p obtain cm st1 where
    s: "neighbor_seeds cl nl strategy radius (unclustered_blocks st) ({}, st) = Inr (cm, st1)" and
    e: "st' = st1\<lparr>unclustered_blocks := filter (\<lambda>p. fst p \<notin> cm) (unclustered_blocks st1)\<rparr>"
    by (auto simp: neighbor_cluster_pass_def split: sum.splits)
  from neighbor_seeds_all_legal [OF snd fr _ _ s] inv str
  have "all_legal cl live st1" by simp
  then show ?thesis unfolding e by (simp add: all_legal_def kept_clusters_def)
qed


lemma try_tile_sub_tiles_inv:
  assumes add: "\<And>chk st sub cid status s'.
      P (chk, st) \<Longrightarrow>
      loc_to_cluster_id_placed st
        \<lparr>pl_x = tile_x tile, pl_y = tile_y tile, pl_sub_tile = sub, pl_layer = tile_layer_num tile\<rparr>
        = Some cid \<Longrightarrow>
      add_mol_to_cluster cl mol cid (legalizer st) = (status, s') \<Longrightarrow>
      P (chk, st\<lparr>legalizer := s'\<rparr>)"
    and new: "\<And>chk st sub new_id s' n.
      P (chk, st) \<Longrightarrow>
      loc_to_cluster_id_placed st
        \<lparr>pl_x = tile_x tile, pl_y = tile_y tile, pl_sub_tile = sub, pl_layer = tile_layer_num tile\<rparr>
        = None \<Longrightarrow>
      create_new_cluster cl nl mol (legalizer st) = Inr (new_id, s') \<Longrightarrow>
      P (AList.update new_id
           \<lparr>pl_x = tile_x tile, pl_y = tile_y tile, pl_sub_tile = sub, pl_layer = tile_layer_num tile\<rparr> chk,
         st\<lparr>legalizer := s',
            cluster_created_mid_first_pass := n,
            loc_to_cluster_id_placed := (loc_to_cluster_id_placed st)
              (\<lparr>pl_x = tile_x tile, pl_y = tile_y tile, pl_sub_tile = sub,
                pl_layer = tile_layer_num tile\<rparr> \<mapsto> new_id),
            cluster_id_to_loc_desired := (cluster_id_to_loc_desired st)(new_id \<mapsto> tile)\<rparr>)"
  shows "P cs \<Longrightarrow> try_tile_sub_tiles cl nl grid cc tile bt mol subs cs = Inr (placed, cs') \<Longrightarrow> P cs'"
proof (induction subs arbitrary: cs)
  case Nil
  then show ?case by simp
next
  case (Cons sub rest)
  obtain chk st where cs: "cs = (chk, st)" by (cases cs)
  let ?loc = "\<lparr>pl_x = tile_x tile, pl_y = tile_y tile, pl_sub_tile = sub,
               pl_layer = tile_layer_num tile\<rparr>"
  note run = Cons.prems(2)
  show ?case
  proof (cases "is_root_tile grid tile")
    case False
    with run Cons.prems(1) show ?thesis by simp
  next
    case root: True
    show ?thesis
    proof (cases "loc_to_cluster_id_placed st ?loc")
      case None
      show ?thesis
      proof (cases "is_tile_compatible grid (get_physical_type grid tile) bt")
        case False
        with run cs root None
        have "try_tile_sub_tiles cl nl grid cc tile bt mol rest cs = Inr (placed, cs')"
          by (simp add: Let_def)
        from Cons.IH [OF Cons.prems(1) this] show ?thesis .
      next
        case True
        show ?thesis
        proof (cases "create_new_cluster cl nl mol (legalizer st)")
          case (Inl e)
          with run cs root None True show ?thesis by (simp add: Let_def)
        next
          case (Inr q)
          obtain new_id s' where q: "q = (new_id, s')" by (cases q)
          from run cs root None True Inr q
          have "cs' = (AList.update new_id ?loc chk,
                       st\<lparr>legalizer := s',
                          cluster_created_mid_first_pass :=
                            (if cc then cluster_created_mid_first_pass st + 1
                             else cluster_created_mid_first_pass st),
                          loc_to_cluster_id_placed := (loc_to_cluster_id_placed st)(?loc \<mapsto> new_id),
                          cluster_id_to_loc_desired := (cluster_id_to_loc_desired st)(new_id \<mapsto> tile)\<rparr>)"
            by (simp add: Let_def)
          with new [OF Cons.prems(1) [unfolded cs] None Inr [unfolded q]] show ?thesis by simp
        qed
      qed
    next
      case (Some cid)
      show ?thesis
      proof (cases "has_empty_primitive (get_cluster_pb cl cid (legalizer st))
                    \<and> is_molecule_compatible cl mol cid (legalizer st)")
        case False
        with run cs root Some
        have "try_tile_sub_tiles cl nl grid cc tile bt mol rest cs = Inr (placed, cs')"
          by (auto simp: Let_def split: if_splits)
        from Cons.IH [OF Cons.prems(1) this] show ?thesis .
      next
        case True
        obtain status s' where a: "add_mol_to_cluster cl mol cid (legalizer st) = (status, s')"
          by (metis surj_pair)
        note p = add [OF Cons.prems(1) [unfolded cs] Some a]
        show ?thesis
        proof (cases "status = BLK_PASSED")
          case passed: True
          with run cs root Some True a have "cs' = (chk, st\<lparr>legalizer := s'\<rparr>)"
            by (simp add: Let_def)
          with p show ?thesis by simp
        next
          case failed: False
          with run cs root Some True a
          have "try_tile_sub_tiles cl nl grid cc tile bt mol rest (chk, st\<lparr>legalizer := s'\<rparr>)
                  = Inr (placed, cs')"
            by (simp add: Let_def)
          from Cons.IH [OF p this] show ?thesis .
        qed
      qed
    qed
  qed
qed


lemma reconstruct_molecule_inv:
  assumes add: "\<And>chk st sub cid status s'.
      P (chk, st) \<Longrightarrow>
      loc_to_cluster_id_placed st
        \<lparr>pl_x = tile_x tile, pl_y = tile_y tile, pl_sub_tile = sub, pl_layer = tile_layer_num tile\<rparr>
        = Some cid \<Longrightarrow>
      add_mol_to_cluster cl mol cid (legalizer st) = (status, s') \<Longrightarrow>
      P (chk, st\<lparr>legalizer := s'\<rparr>)"
    and new: "\<And>chk st sub new_id s' n.
      P (chk, st) \<Longrightarrow>
      loc_to_cluster_id_placed st
        \<lparr>pl_x = tile_x tile, pl_y = tile_y tile, pl_sub_tile = sub, pl_layer = tile_layer_num tile\<rparr>
        = None \<Longrightarrow>
      create_new_cluster cl nl mol (legalizer st) = Inr (new_id, s') \<Longrightarrow>
      P (AList.update new_id
           \<lparr>pl_x = tile_x tile, pl_y = tile_y tile, pl_sub_tile = sub, pl_layer = tile_layer_num tile\<rparr> chk,
         st\<lparr>legalizer := s',
            cluster_created_mid_first_pass := n,
            loc_to_cluster_id_placed := (loc_to_cluster_id_placed st)
              (\<lparr>pl_x = tile_x tile, pl_y = tile_y tile, pl_sub_tile = sub,
                pl_layer = tile_layer_num tile\<rparr> \<mapsto> new_id),
            cluster_id_to_loc_desired := (cluster_id_to_loc_desired st)(new_id \<mapsto> tile)\<rparr>)"
    and unc: "\<And>chk st ub ubl. P (chk, st) \<Longrightarrow>
      P (chk, st\<lparr>unclustered_blocks := ub, unclustered_block_locs := ubl\<rparr>)"
    and start: "P cs"
    and run: "reconstruct_molecule cl nl grid cc tile mol cs = Inr cs'"
  shows "P cs'"
proof -
  from run obtain bt placed cs1 where
    t: "try_tile_sub_tiles cl nl grid cc tile bt mol
          [0 .. capacity grid (get_physical_type grid tile) - 1] cs = Inr (placed, cs1)" and
    e: "cs' = (if placed then cs1
               else (fst cs1, (snd cs1)\<lparr>unclustered_blocks := unclustered_blocks (snd cs1) @ [(mol, tile)],
                                         unclustered_block_locs :=
                                           push_back_at tile mol (unclustered_block_locs (snd cs1))\<rparr>))"
    by (auto simp: reconstruct_molecule_def split: option.splits sum.splits if_splits)
  have "P cs1"
    by (rule try_tile_sub_tiles_inv [where P = P, OF add new start t])
  then show ?thesis
    unfolding e using unc [of "fst cs1" "snd cs1"] by simp
qed

lemma reconstruct_molecules_inv:
  assumes add: "\<And>mol chk st sub cid status s'.
      P (chk, st) \<Longrightarrow>
      loc_to_cluster_id_placed st
        \<lparr>pl_x = tile_x tile, pl_y = tile_y tile, pl_sub_tile = sub, pl_layer = tile_layer_num tile\<rparr>
        = Some cid \<Longrightarrow>
      add_mol_to_cluster cl mol cid (legalizer st) = (status, s') \<Longrightarrow>
      P (chk, st\<lparr>legalizer := s'\<rparr>)"
    and new: "\<And>mol chk st sub new_id s' n.
      P (chk, st) \<Longrightarrow>
      loc_to_cluster_id_placed st
        \<lparr>pl_x = tile_x tile, pl_y = tile_y tile, pl_sub_tile = sub, pl_layer = tile_layer_num tile\<rparr>
        = None \<Longrightarrow>
      create_new_cluster cl nl mol (legalizer st) = Inr (new_id, s') \<Longrightarrow>
      P (AList.update new_id
           \<lparr>pl_x = tile_x tile, pl_y = tile_y tile, pl_sub_tile = sub, pl_layer = tile_layer_num tile\<rparr> chk,
         st\<lparr>legalizer := s',
            cluster_created_mid_first_pass := n,
            loc_to_cluster_id_placed := (loc_to_cluster_id_placed st)
              (\<lparr>pl_x = tile_x tile, pl_y = tile_y tile, pl_sub_tile = sub,
                pl_layer = tile_layer_num tile\<rparr> \<mapsto> new_id),
            cluster_id_to_loc_desired := (cluster_id_to_loc_desired st)(new_id \<mapsto> tile)\<rparr>)"
    and unc: "\<And>chk st ub ubl. P (chk, st) \<Longrightarrow>
      P (chk, st\<lparr>unclustered_blocks := ub, unclustered_block_locs := ubl\<rparr>)"
  shows "P cs \<Longrightarrow> reconstruct_molecules cl nl grid cc tile mols cs = Inr cs' \<Longrightarrow> P cs'"
proof (induction mols arbitrary: cs)
  case Nil
  then show ?case by simp
next
  case (Cons mol mols)
  from Cons.prems(2) obtain cs1 where
    m: "reconstruct_molecule cl nl grid cc tile mol cs = Inr cs1" and
    r: "reconstruct_molecules cl nl grid cc tile mols cs1 = Inr cs'"
    by (auto split: sum.splits)
  have "P cs1"
    by (rule reconstruct_molecule_inv [where P = P, OF add new unc Cons.prems(1) m])
  from Cons.IH [OF this r] show ?case .
qed

lemma first_loop_invI:
  assumes "distinct (map fst chk)"
    and "ran (loc_to_cluster_id_placed st) \<subseteq> live (legalizer st)"
    and "\<And>loc c. loc_to_cluster_id_placed st loc = Some c \<Longrightarrow> c \<in> fst ` set chk \<Longrightarrow>
           map_of chk c = Some loc"
    and "\<And>loc c. loc_to_cluster_id_placed st loc = Some c \<Longrightarrow> c \<notin> fst ` set chk \<Longrightarrow>
           check_cluster_legality cl c (legalizer st) \<and> tile_of loc \<noteq> tile"
  shows "first_loop_inv cl live tile (chk, st)"
  unfolding first_loop_inv_def fst_conv snd_conv using assms by blast

lemma first_loop_invD:
  assumes "first_loop_inv cl live tile (chk, st)"
  shows "distinct (map fst chk)"
    and "ran (loc_to_cluster_id_placed st) \<subseteq> live (legalizer st)"
    and "\<And>loc c. loc_to_cluster_id_placed st loc = Some c \<Longrightarrow> c \<in> fst ` set chk \<Longrightarrow>
           map_of chk c = Some loc"
    and "\<And>loc c. loc_to_cluster_id_placed st loc = Some c \<Longrightarrow> c \<notin> fst ` set chk \<Longrightarrow>
           check_cluster_legality cl c (legalizer st) \<and> tile_of loc \<noteq> tile"
  using assms unfolding first_loop_inv_def fst_conv snd_conv by blast+

lemma first_loop_inv_add:
  assumes fr: "legalizer_frame cl strict live"
    and inv: "first_loop_inv cl live tile (chk, st)"
    and bound: "loc_to_cluster_id_placed st
        \<lparr>pl_x = tile_x tile, pl_y = tile_y tile, pl_sub_tile = sub, pl_layer = tile_layer_num tile\<rparr>
        = Some cid"
    and a: "add_mol_to_cluster cl mol cid (legalizer st) = (status, s')"
  shows "first_loop_inv cl live tile (chk, st\<lparr>legalizer := s'\<rparr>)"
proof (rule first_loop_invI)
  let ?loc = "\<lparr>pl_x = tile_x tile, pl_y = tile_y tile, pl_sub_tile = sub,
               pl_layer = tile_layer_num tile\<rparr>"
  note fa = frame_add [OF fr a]
  note d = first_loop_invD [OF inv]
  have t: "tile_of ?loc = tile" by (simp add: tile_of_def)
  from d(4) [OF bound] t have cid: "cid \<in> fst ` set chk" by blast
  from d(1) show "distinct (map fst chk)" .
  from d(2) fa(1)
  show "ran (loc_to_cluster_id_placed (st\<lparr>legalizer := s'\<rparr>)) \<subseteq> live (legalizer (st\<lparr>legalizer := s'\<rparr>))"
    by simp
  fix loc c
  assume b: "loc_to_cluster_id_placed (st\<lparr>legalizer := s'\<rparr>) loc = Some c"
  then have b': "loc_to_cluster_id_placed st loc = Some c" by simp
  show "c \<in> fst ` set chk \<Longrightarrow> map_of chk c = Some loc"
    using d(3) [OF b'] .
  assume n: "c \<notin> fst ` set chk"
  with cid have "c \<noteq> cid" by blast
  with d(4) [OF b' n] fa(2) [of c]
  show "check_cluster_legality cl c (legalizer (st\<lparr>legalizer := s'\<rparr>)) \<and> tile_of loc \<noteq> tile"
    by simp
qed

lemma first_loop_inv_new:
  assumes fr: "legalizer_frame cl strict live"
    and inv: "first_loop_inv cl live tile (chk, st)"
    and free: "loc_to_cluster_id_placed st
        \<lparr>pl_x = tile_x tile, pl_y = tile_y tile, pl_sub_tile = sub, pl_layer = tile_layer_num tile\<rparr>
        = None"
    and c: "create_new_cluster cl nl mol (legalizer st) = Inr (new_id, s')"
  shows "first_loop_inv cl live tile
           (AList.update new_id
              \<lparr>pl_x = tile_x tile, pl_y = tile_y tile, pl_sub_tile = sub,
               pl_layer = tile_layer_num tile\<rparr> chk,
            st\<lparr>legalizer := s',
               cluster_created_mid_first_pass := n,
               loc_to_cluster_id_placed := (loc_to_cluster_id_placed st)
                 (\<lparr>pl_x = tile_x tile, pl_y = tile_y tile, pl_sub_tile = sub,
                   pl_layer = tile_layer_num tile\<rparr> \<mapsto> new_id),
               cluster_id_to_loc_desired := (cluster_id_to_loc_desired st)(new_id \<mapsto> tile)\<rparr>)"
proof (rule first_loop_invI)
  let ?loc = "\<lparr>pl_x = tile_x tile, pl_y = tile_y tile, pl_sub_tile = sub,
               pl_layer = tile_layer_num tile\<rparr>"
  let ?st = "st\<lparr>legalizer := s',
               cluster_created_mid_first_pass := n,
               loc_to_cluster_id_placed := (loc_to_cluster_id_placed st)(?loc \<mapsto> new_id),
               cluster_id_to_loc_desired := (cluster_id_to_loc_desired st)(new_id \<mapsto> tile)\<rparr>"
  note fc = create_new_cluster_frame [OF fr c]
  note d = first_loop_invD [OF inv]
  have keys: "fst ` set (AList.update new_id ?loc chk) = insert new_id (fst ` set chk)"
    by (simp add: AList.dom_update)
  from d(1) show "distinct (map fst (AList.update new_id ?loc chk))"
    by (simp add: distinct_update)
  from d(2) fc(2) free
  show "ran (loc_to_cluster_id_placed ?st) \<subseteq> live (legalizer ?st)"
    by (auto simp: ran_def)
  fix loc c
  assume "loc_to_cluster_id_placed ?st loc = Some c"
  then have b: "((loc_to_cluster_id_placed st)(?loc \<mapsto> new_id)) loc = Some c" by simp
  have old: "loc \<noteq> ?loc \<Longrightarrow> loc_to_cluster_id_placed st loc = Some c \<and> c \<noteq> new_id
               \<and> c \<in> live (legalizer st)"
  proof -
    assume "loc \<noteq> ?loc"
    with b have b': "loc_to_cluster_id_placed st loc = Some c" by simp
    then have "c \<in> ran (loc_to_cluster_id_placed st)" by (auto simp: ran_def)
    with d(2) have "c \<in> live (legalizer st)" by blast
    with fc(1) b' show ?thesis by blast
  qed
  show "c \<in> fst ` set (AList.update new_id ?loc chk) \<Longrightarrow>
        map_of (AList.update new_id ?loc chk) c = Some loc"
  proof (cases "loc = ?loc")
    case True
    with b have "c = new_id" by simp
    with True show ?thesis by (simp add: update_conv')
  next
    case False
    assume "c \<in> fst ` set (AList.update new_id ?loc chk)"
    with old [OF False] keys have "c \<in> fst ` set chk" by blast
    with d(3) old [OF False] show ?thesis by (simp add: update_conv')
  qed
  assume n: "c \<notin> fst ` set (AList.update new_id ?loc chk)"
  with keys have ne: "c \<noteq> new_id" and nk: "c \<notin> fst ` set chk" by blast+
  from ne b have "loc \<noteq> ?loc" by auto
  note o = old [OF this]
  from d(4) [OF o [THEN conjunct1] nk] fc(3) [of c] o
  show "check_cluster_legality cl c (legalizer ?st) \<and> tile_of loc \<noteq> tile"
    by simp
qed

lemma first_loop_legal:
  assumes fr: "legalizer_frame cl strict live"
    and inv: "first_loop_inv cl live tile cs"
    and run: "reconstruct_molecules cl nl grid cc tile mols cs = Inr cs'"
  shows "first_loop_inv cl live tile cs'"
proof (rule reconstruct_molecules_inv [where P = "first_loop_inv cl live tile", OF _ _ _ inv run])
  fix mol chk st sub cid status s'
  assume "first_loop_inv cl live tile (chk, st)"
    and "loc_to_cluster_id_placed st
        \<lparr>pl_x = tile_x tile, pl_y = tile_y tile, pl_sub_tile = sub, pl_layer = tile_layer_num tile\<rparr>
        = Some cid"
    and "add_mol_to_cluster cl mol cid (legalizer st) = (status, s')"
  then show "first_loop_inv cl live tile (chk, st\<lparr>legalizer := s'\<rparr>)"
    by (rule first_loop_inv_add [OF fr])
next
  fix mol chk st sub new_id s' n
  assume "first_loop_inv cl live tile (chk, st)"
    and "loc_to_cluster_id_placed st
        \<lparr>pl_x = tile_x tile, pl_y = tile_y tile, pl_sub_tile = sub, pl_layer = tile_layer_num tile\<rparr>
        = None"
    and "create_new_cluster cl nl mol (legalizer st) = Inr (new_id, s')"
  then show "first_loop_inv cl live tile
           (AList.update new_id
              \<lparr>pl_x = tile_x tile, pl_y = tile_y tile, pl_sub_tile = sub,
               pl_layer = tile_layer_num tile\<rparr> chk,
            st\<lparr>legalizer := s',
               cluster_created_mid_first_pass := n,
               loc_to_cluster_id_placed := (loc_to_cluster_id_placed st)
                 (\<lparr>pl_x = tile_x tile, pl_y = tile_y tile, pl_sub_tile = sub,
                   pl_layer = tile_layer_num tile\<rparr> \<mapsto> new_id),
               cluster_id_to_loc_desired := (cluster_id_to_loc_desired st)(new_id \<mapsto> tile)\<rparr>)"
    by (rule first_loop_inv_new [OF fr])
next
  fix chk st ub ubl
  assume "first_loop_inv cl live tile (chk, st)"
  then show "first_loop_inv cl live tile
               (chk, st\<lparr>unclustered_blocks := ub, unclustered_block_locs := ubl\<rparr>)"
    by (simp add: first_loop_inv_def)
qed


lemma check_invD:
  assumes "check_inv cl live rest st"
  shows "distinct (map fst rest)"
    and "ran (loc_to_cluster_id_placed st) \<subseteq> live (legalizer st)"
    and "\<And>loc c. loc_to_cluster_id_placed st loc = Some c \<Longrightarrow> c \<in> fst ` set rest \<Longrightarrow>
           map_of rest c = Some loc"
    and "\<And>loc c. loc_to_cluster_id_placed st loc = Some c \<Longrightarrow> c \<notin> fst ` set rest \<Longrightarrow>
           check_cluster_legality cl c (legalizer st)"
  using assms unfolding check_inv_def by blast+

lemma check_inv_illegal:
  assumes fr: "legalizer_frame cl strict live"
    and inv: "check_inv cl live ((cid, loc0) # rest) st"
  shows "check_inv cl live rest
           (st\<lparr>loc_to_cluster_id_placed := (loc_to_cluster_id_placed st)(loc0 := None),
               legalizer := destroy_cluster cl cid (legalizer st)\<rparr>)"
proof -
  note d = check_invD [OF inv]
  note fd = frame_destroy [OF fr, where c = cid and s = "legalizer st"]
  have other: "\<And>loc c. loc \<noteq> loc0 \<Longrightarrow> loc_to_cluster_id_placed st loc = Some c \<Longrightarrow> c \<noteq> cid"
  proof
    fix loc c
    assume l: "loc \<noteq> loc0" and b: "loc_to_cluster_id_placed st loc = Some c" and "c = cid"
    with d(3) [OF b] have "map_of ((cid, loc0) # rest) cid = Some loc" by simp
    with l show False by simp
  qed
  show ?thesis
    unfolding check_inv_def
  proof (intro conjI allI impI)
    from d(1) show "distinct (map fst rest)" by simp
  next
    show "ran (loc_to_cluster_id_placed
                 (st\<lparr>loc_to_cluster_id_placed := (loc_to_cluster_id_placed st)(loc0 := None),
                     legalizer := destroy_cluster cl cid (legalizer st)\<rparr>))
          \<subseteq> live (legalizer
                 (st\<lparr>loc_to_cluster_id_placed := (loc_to_cluster_id_placed st)(loc0 := None),
                     legalizer := destroy_cluster cl cid (legalizer st)\<rparr>))"
    proof
      fix c
      assume "c \<in> ran (loc_to_cluster_id_placed
                 (st\<lparr>loc_to_cluster_id_placed := (loc_to_cluster_id_placed st)(loc0 := None),
                     legalizer := destroy_cluster cl cid (legalizer st)\<rparr>))"
      then obtain loc where l: "loc \<noteq> loc0" and b: "loc_to_cluster_id_placed st loc = Some c"
        by (auto simp: ran_def split: if_splits)
      from b have "c \<in> ran (loc_to_cluster_id_placed st)" by (auto simp: ran_def)
      with d(2) other [OF l b] fd(1)
      show "c \<in> live (legalizer
                 (st\<lparr>loc_to_cluster_id_placed := (loc_to_cluster_id_placed st)(loc0 := None),
                     legalizer := destroy_cluster cl cid (legalizer st)\<rparr>))"
        by auto
    qed
  next
    fix loc c
    assume "loc_to_cluster_id_placed
              (st\<lparr>loc_to_cluster_id_placed := (loc_to_cluster_id_placed st)(loc0 := None),
                  legalizer := destroy_cluster cl cid (legalizer st)\<rparr>) loc = Some c"
      and k: "c \<in> fst ` set rest"
    then have l: "loc \<noteq> loc0" and b: "loc_to_cluster_id_placed st loc = Some c"
      by (auto split: if_splits)
    from other [OF l b] d(3) [OF b] k show "map_of rest c = Some loc" by simp
  next
    fix loc c
    assume "loc_to_cluster_id_placed
              (st\<lparr>loc_to_cluster_id_placed := (loc_to_cluster_id_placed st)(loc0 := None),
                  legalizer := destroy_cluster cl cid (legalizer st)\<rparr>) loc = Some c"
      and k: "c \<notin> fst ` set rest"
    then have l: "loc \<noteq> loc0" and b: "loc_to_cluster_id_placed st loc = Some c"
      by (auto split: if_splits)
    from other [OF l b] k have "c \<notin> fst ` set ((cid, loc0) # rest)" by simp
    from d(4) [OF b this] other [OF l b] fd(2) [of c]
    show "check_cluster_legality cl c
            (legalizer (st\<lparr>loc_to_cluster_id_placed := (loc_to_cluster_id_placed st)(loc0 := None),
                           legalizer := destroy_cluster cl cid (legalizer st)\<rparr>))"
      by simp
  qed
qed

lemma check_inv_legal:
  assumes fr: "legalizer_frame cl strict live"
    and inv: "check_inv cl live ((cid, loc0) # rest) st"
    and ok: "check_cluster_legality cl cid (legalizer st)"
  shows "check_inv cl live rest (st\<lparr>legalizer := clean_cluster cl cid (legalizer st)\<rparr>)"
proof -
  note d = check_invD [OF inv]
  note fc = frame_clean [OF fr, where c = cid and s = "legalizer st"]
  from d(1) have nk: "cid \<notin> fst ` set rest" by simp
  show ?thesis
    unfolding check_inv_def
  proof (intro conjI allI impI)
    from d(1) show "distinct (map fst rest)" by simp
    from d(2) fc(1)
    show "ran (loc_to_cluster_id_placed (st\<lparr>legalizer := clean_cluster cl cid (legalizer st)\<rparr>))
          \<subseteq> live (legalizer (st\<lparr>legalizer := clean_cluster cl cid (legalizer st)\<rparr>))"
      by simp
  next
    fix loc c
    assume "loc_to_cluster_id_placed (st\<lparr>legalizer := clean_cluster cl cid (legalizer st)\<rparr>) loc = Some c"
      and k: "c \<in> fst ` set rest"
    then have b: "loc_to_cluster_id_placed st loc = Some c" by simp
    from k nk have "c \<noteq> cid" by blast
    with d(3) [OF b] k show "map_of rest c = Some loc" by simp
  next
    fix loc c
    assume "loc_to_cluster_id_placed (st\<lparr>legalizer := clean_cluster cl cid (legalizer st)\<rparr>) loc = Some c"
      and k: "c \<notin> fst ` set rest"
    then have b: "loc_to_cluster_id_placed st loc = Some c" by simp
    have "check_cluster_legality cl c (legalizer st)"
    proof (cases "c = cid")
      case True
      with ok show ?thesis by simp
    next
      case False
      with k have "c \<notin> fst ` set ((cid, loc0) # rest)" by simp
      from d(4) [OF b this] show ?thesis .
    qed
    with fc(2) [of c]
    show "check_cluster_legality cl c (legalizer (st\<lparr>legalizer := clean_cluster cl cid (legalizer st)\<rparr>))"
      by simp
  qed
qed

lemma check_new_clusters_legal:
  assumes fr: "legalizer_frame cl strict live"
  shows "check_inv cl live rest (snd acc) \<Longrightarrow>
         check_inv cl live [] (snd (check_new_clusters cl rest acc))"
proof (induction rest arbitrary: acc)
  case Nil
  then show ?case by simp
next
  case (Cons p rest)
  obtain cid loc0 where p: "p = (cid, loc0)" by (cases p)
  obtain mols st where acc: "acc = (mols, st)" by (cases acc)
  from Cons.prems have inv: "check_inv cl live ((cid, loc0) # rest) st" by (simp add: p acc)
  show ?case
  proof (cases "check_cluster_legality cl cid (legalizer st)")
    case True
    from Cons.IH [of "(mols, st\<lparr>legalizer := clean_cluster cl cid (legalizer st)\<rparr>)"]
         check_inv_legal [OF fr inv True] True
    show ?thesis by (simp add: p acc Let_def)
  next
    case False
    from Cons.IH [of "(mols @ get_cluster_molecules cl cid (legalizer st),
                       st\<lparr>loc_to_cluster_id_placed := (loc_to_cluster_id_placed st)(loc0 := None),
                          legalizer := destroy_cluster cl cid (legalizer st)\<rparr>)"]
         check_inv_illegal [OF fr inv] False
    show ?thesis by (simp add: p acc Let_def)
  qed
qed

lemma check_new_clusters_tables:
  "cluster_id_to_loc_unplaced (snd (check_new_clusters cl rest acc))
     = cluster_id_to_loc_unplaced (snd acc)
   \<and> (\<forall>loc. loc_to_cluster_id_placed (snd (check_new_clusters cl rest acc)) loc \<noteq> None \<longrightarrow>
             loc_to_cluster_id_placed (snd acc) loc \<noteq> None)"
proof (induction rest arbitrary: acc)
  case Nil
  show ?case by simp
next
  case (Cons p rest)
  obtain cid loc0 where p: "p = (cid, loc0)" by (cases p)
  obtain mols st where acc: "acc = (mols, st)" by (cases acc)
  show ?case
  proof (cases "check_cluster_legality cl cid (legalizer st)")
    case True
    with Cons.IH [of "(mols, st\<lparr>legalizer := clean_cluster cl cid (legalizer st)\<rparr>)"]
    show ?thesis by (simp add: p acc Let_def)
  next
    case False
    let ?a = "(mols @ get_cluster_molecules cl cid (legalizer st),
               st\<lparr>loc_to_cluster_id_placed := (loc_to_cluster_id_placed st)(loc0 := None),
                  legalizer := destroy_cluster cl cid (legalizer st)\<rparr>)"
    from Cons.IH [of ?a]
    have u: "cluster_id_to_loc_unplaced (snd (check_new_clusters cl rest ?a))
               = cluster_id_to_loc_unplaced st"
      and d: "\<And>loc. loc_to_cluster_id_placed (snd (check_new_clusters cl rest ?a)) loc \<noteq> None \<Longrightarrow>
                ((loc_to_cluster_id_placed st)(loc0 := None)) loc \<noteq> None"
      by simp_all
    have "\<And>loc. loc_to_cluster_id_placed (snd (check_new_clusters cl rest ?a)) loc \<noteq> None \<Longrightarrow>
                loc_to_cluster_id_placed st loc \<noteq> None"
      using d by (metis fun_upd_apply)
    with u False show ?thesis by (simp add: p acc Let_def)
  qed
qed


lemma retry_inv_add:
  assumes snd: "strict_tier_sound cl strict" and fr: "legalizer_frame cl strict live"
    and inv: "retry_inv cl strict live (chk, st)"
    and bound: "loc_to_cluster_id_placed st loc = Some cid"
    and a: "add_mol_to_cluster cl mol cid (legalizer st) = (status, s')"
  shows "retry_inv cl strict live (chk, st\<lparr>legalizer := s'\<rparr>)"
proof -
  from inv have str: "strict (legalizer st)"
    and sub: "ran (loc_to_cluster_id_placed st) \<subseteq> live (legalizer st)"
    and leg: "\<And>c. c \<in> ran (loc_to_cluster_id_placed st) \<Longrightarrow> check_cluster_legality cl c (legalizer st)"
    by (simp_all add: retry_inv_def)
  note sa = sound_add [OF snd str a]
  note fa = frame_add [OF fr a]
  from bound have "cid \<in> ran (loc_to_cluster_id_placed st)" by (auto simp: ran_def)
  from leg [OF this] sa(2) have own: "check_cluster_legality cl cid s'" by simp
  have "\<And>c. c \<in> ran (loc_to_cluster_id_placed st) \<Longrightarrow> check_cluster_legality cl c s'"
    using own leg fa(2) by metis
  with sa(1) sub fa(1) show ?thesis by (simp add: retry_inv_def)
qed

lemma retry_inv_new:
  assumes snd: "strict_tier_sound cl strict" and fr: "legalizer_frame cl strict live"
    and inv: "retry_inv cl strict live (chk, st)"
    and c: "create_new_cluster cl nl mol (legalizer st) = Inr (new_id, s')"
  shows "retry_inv cl strict live
           (chk', st\<lparr>legalizer := s',
                      cluster_created_mid_first_pass := n,
                      loc_to_cluster_id_placed := (loc_to_cluster_id_placed st)(loc \<mapsto> new_id),
                      cluster_id_to_loc_desired := d\<rparr>)"
proof -
  from inv have str: "strict (legalizer st)"
    and sub: "ran (loc_to_cluster_id_placed st) \<subseteq> live (legalizer st)"
    and leg: "\<And>c. c \<in> ran (loc_to_cluster_id_placed st) \<Longrightarrow> check_cluster_legality cl c (legalizer st)"
    by (simp_all add: retry_inv_def)
  note sc = create_new_cluster_sound [OF snd str c]
  note fc = create_new_cluster_frame [OF fr c]
  have r: "ran ((loc_to_cluster_id_placed st)(loc \<mapsto> new_id))
             \<subseteq> insert new_id (ran (loc_to_cluster_id_placed st))"
    by (auto simp: ran_def split: if_splits)
  have "\<And>c. c \<in> ran (loc_to_cluster_id_placed st) \<Longrightarrow> check_cluster_legality cl c s'"
    using leg sub fc(3) by (meson subsetD)
  with sc r sub fc(2) show ?thesis by (auto simp: retry_inv_def)
qed

lemma retry_loop_legal:
  assumes snd: "strict_tier_sound cl strict" and fr: "legalizer_frame cl strict live"
    and inv: "retry_inv cl strict live cs"
    and run: "reconstruct_molecules cl nl grid cc tile mols cs = Inr cs'"
  shows "retry_inv cl strict live cs'"
proof (rule reconstruct_molecules_inv [where P = "retry_inv cl strict live", OF _ _ _ inv run])
  fix mol chk st sub cid status s'
  assume "retry_inv cl strict live (chk, st)"
    and "loc_to_cluster_id_placed st
        \<lparr>pl_x = tile_x tile, pl_y = tile_y tile, pl_sub_tile = sub, pl_layer = tile_layer_num tile\<rparr>
        = Some cid"
    and "add_mol_to_cluster cl mol cid (legalizer st) = (status, s')"
  then show "retry_inv cl strict live (chk, st\<lparr>legalizer := s'\<rparr>)"
    by (rule retry_inv_add [OF snd fr])
next
  fix mol chk st sub new_id s' n
  assume "retry_inv cl strict live (chk, st)"
    and "loc_to_cluster_id_placed st
        \<lparr>pl_x = tile_x tile, pl_y = tile_y tile, pl_sub_tile = sub, pl_layer = tile_layer_num tile\<rparr>
        = None"
    and "create_new_cluster cl nl mol (legalizer st) = Inr (new_id, s')"
  then show "retry_inv cl strict live
           (AList.update new_id
              \<lparr>pl_x = tile_x tile, pl_y = tile_y tile, pl_sub_tile = sub,
               pl_layer = tile_layer_num tile\<rparr> chk,
            st\<lparr>legalizer := s',
               cluster_created_mid_first_pass := n,
               loc_to_cluster_id_placed := (loc_to_cluster_id_placed st)
                 (\<lparr>pl_x = tile_x tile, pl_y = tile_y tile, pl_sub_tile = sub,
                   pl_layer = tile_layer_num tile\<rparr> \<mapsto> new_id),
               cluster_id_to_loc_desired := (cluster_id_to_loc_desired st)(new_id \<mapsto> tile)\<rparr>)"
    using retry_inv_new [OF snd fr] by blast
next
  fix chk st ub ubl
  assume "retry_inv cl strict live (chk, st)"
  then show "retry_inv cl strict live
               (chk, st\<lparr>unclustered_blocks := ub, unclustered_block_locs := ubl\<rparr>)"
    by (simp add: retry_inv_def)
qed

lemma molecules_tile_tables:
  assumes inv: "tile_tables st tile cs"
    and run: "reconstruct_molecules cl nl grid cc tile mols cs = Inr cs'"
  shows "tile_tables st tile cs'"
proof (rule reconstruct_molecules_inv [where P = "tile_tables st tile", OF _ _ _ inv run])
  fix mol chk sta sub cid status s'
  assume "tile_tables st tile (chk, sta)"
  then show "tile_tables st tile (chk, sta\<lparr>legalizer := s'\<rparr>)"
    by (simp add: tile_tables_def)
next
  fix mol chk sta sub new_id s' n
  assume "tile_tables st tile (chk, sta)"
  then show "tile_tables st tile
           (AList.update new_id
              \<lparr>pl_x = tile_x tile, pl_y = tile_y tile, pl_sub_tile = sub,
               pl_layer = tile_layer_num tile\<rparr> chk,
            sta\<lparr>legalizer := s',
               cluster_created_mid_first_pass := n,
               loc_to_cluster_id_placed := (loc_to_cluster_id_placed sta)
                 (\<lparr>pl_x = tile_x tile, pl_y = tile_y tile, pl_sub_tile = sub,
                   pl_layer = tile_layer_num tile\<rparr> \<mapsto> new_id),
               cluster_id_to_loc_desired := (cluster_id_to_loc_desired sta)(new_id \<mapsto> tile)\<rparr>)"
    by (simp add: tile_tables_def tile_of_def)
next
  fix chk sta ub ubl
  assume "tile_tables st tile (chk, sta)"
  then show "tile_tables st tile
               (chk, sta\<lparr>unclustered_blocks := ub, unclustered_block_locs := ubl\<rparr>)"
    by (simp add: tile_tables_def)
qed

lemma reconstruct_tile_legal:
  assumes snd: "strict_tier_sound cl strict" and fr: "legalizer_frame cl strict live"
    and sub: "ran (loc_to_cluster_id_placed st) \<subseteq> live (legalizer st)"
    and leg: "\<forall>c \<in> ran (loc_to_cluster_id_placed st). check_cluster_legality cl c (legalizer st)"
    and free: "\<forall>loc. loc_to_cluster_id_placed st loc \<noteq> None \<longrightarrow> tile_of loc \<noteq> tile"
    and run: "reconstruct_tile cl nl ap grid (tile, blks) st = Inr st'"
  shows "ran (loc_to_cluster_id_placed st') \<subseteq> live (legalizer st')"
    and "\<forall>c \<in> ran (loc_to_cluster_id_placed st'). check_cluster_legality cl c (legalizer st')"
    and "cluster_id_to_loc_unplaced st' = cluster_id_to_loc_unplaced st"
    and "\<forall>loc. loc_to_cluster_id_placed st' loc \<noteq> None \<longrightarrow>
               loc_to_cluster_id_placed st loc \<noteq> None \<or> tile_of loc = tile"
proof -
  from run obtain chk sa where
    a: "reconstruct_molecules cl nl grid False tile (map (block_molecule ap) blks) ([], st) = Inr (chk, sa)"
    by (auto simp: reconstruct_tile_def Let_def split: sum.splits prod.splits)
  obtain mols sb where b: "check_new_clusters cl chk ([], sa) = (mols, sb)"
    by (metis surj_pair)
  let ?sc = "sb\<lparr>legalizer := set_legalization_strategy cl FULL (legalizer sb)\<rparr>"
  from run a b obtain chk' sd where
    c: "reconstruct_molecules cl nl grid True tile mols (chk, ?sc) = Inr (chk', sd)" and
    e: "st' = sd\<lparr>legalizer := set_legalization_strategy cl SKIP_INTRA_LB_ROUTE (legalizer sd)\<rparr>"
    by (auto simp: reconstruct_tile_def Let_def split: sum.splits prod.splits)
  have "first_loop_inv cl live tile ([], st)"
  proof (rule first_loop_invI)
    show "distinct (map fst [])" by simp
    from sub show "ran (loc_to_cluster_id_placed st) \<subseteq> live (legalizer st)" .
    fix loc c
    assume l: "loc_to_cluster_id_placed st loc = Some c"
    show "c \<in> fst ` set [] \<Longrightarrow> map_of [] c = Some loc" by simp
    from l have "c \<in> ran (loc_to_cluster_id_placed st)" by (auto simp: ran_def)
    with leg free l show "check_cluster_legality cl c (legalizer st) \<and> tile_of loc \<noteq> tile"
      by auto
  qed
  from first_loop_legal [OF fr this a]
  have "first_loop_inv cl live tile (chk, sa)" .
  note d = first_loop_invD [OF this]
  have "check_inv cl live chk (snd ([]::PackMoleculeId list, sa))"
    unfolding check_inv_def using d by auto
  from check_new_clusters_legal [OF fr this] b
  have ci: "check_inv cl live [] sb" by simp
  have "retry_inv cl strict live (chk, ?sc)"
    unfolding retry_inv_def
    using check_invD(2,4) [OF ci] frame_set [OF fr]
    by (auto simp: ran_def)
  from retry_loop_legal [OF snd fr this c]
  have ri: "retry_inv cl strict live (chk', sd)" .
  from ri show "ran (loc_to_cluster_id_placed st') \<subseteq> live (legalizer st')"
    unfolding e by (simp add: retry_inv_def frame_set [OF fr])
  from ri show "\<forall>c \<in> ran (loc_to_cluster_id_placed st'). check_cluster_legality cl c (legalizer st')"
    unfolding e by (simp add: retry_inv_def frame_set [OF fr])
  have "tile_tables st tile ([], st)" by (simp add: tile_tables_def)
  from molecules_tile_tables [OF this a]
  have ta: "tile_tables st tile (chk, sa)" .
  from check_new_clusters_tables [of cl chk "([], sa)"] b ta
  have "tile_tables st tile (chk, ?sc)"
    by (simp add: tile_tables_def)
  from molecules_tile_tables [OF this c]
  have "tile_tables st tile (chk', sd)" .
  then show "cluster_id_to_loc_unplaced st' = cluster_id_to_loc_unplaced st"
    and "\<forall>loc. loc_to_cluster_id_placed st' loc \<noteq> None \<longrightarrow>
               loc_to_cluster_id_placed st loc \<noteq> None \<or> tile_of loc = tile"
    unfolding e by (simp_all add: tile_tables_def)
qed

lemma reconstruct_tiles_legal:
  assumes snd: "strict_tier_sound cl strict" and fr: "legalizer_frame cl strict live"
  shows "distinct (map fst tile_blocks) \<Longrightarrow>
         ran (loc_to_cluster_id_placed st) \<subseteq> live (legalizer st) \<Longrightarrow>
         \<forall>c \<in> ran (loc_to_cluster_id_placed st). check_cluster_legality cl c (legalizer st) \<Longrightarrow>
         \<forall>loc. loc_to_cluster_id_placed st loc \<noteq> None \<longrightarrow> tile_of loc \<notin> fst ` set tile_blocks \<Longrightarrow>
         reconstruct_tiles cl nl ap grid tile_blocks st = Inr st' \<Longrightarrow>
         ran (loc_to_cluster_id_placed st') \<subseteq> live (legalizer st')
         \<and> (\<forall>c \<in> ran (loc_to_cluster_id_placed st'). check_cluster_legality cl c (legalizer st'))
         \<and> cluster_id_to_loc_unplaced st' = cluster_id_to_loc_unplaced st"
proof (induction tile_blocks arbitrary: st)
  case Nil
  then show ?case by simp
next
  case (Cons tb tile_blocks)
  obtain tile blks where tb: "tb = (tile, blks)" by (cases tb)
  from Cons.prems(5) obtain sa where
    t: "reconstruct_tile cl nl ap grid (tile, blks) st = Inr sa" and
    r: "reconstruct_tiles cl nl ap grid tile_blocks sa = Inr st'"
    by (auto simp: tb split: sum.splits)
  from Cons.prems(4) have free: "\<forall>loc. loc_to_cluster_id_placed st loc \<noteq> None \<longrightarrow> tile_of loc \<noteq> tile"
    by (auto simp: tb)
  note k = reconstruct_tile_legal [OF snd fr Cons.prems(2,3) free t]
  from Cons.prems(1) have d: "distinct (map fst tile_blocks)" and nt: "tile \<notin> fst ` set tile_blocks"
    by (simp_all add: tb)
  have f2: "\<forall>loc. loc_to_cluster_id_placed sa loc \<noteq> None \<longrightarrow> tile_of loc \<notin> fst ` set tile_blocks"
  proof (intro allI impI)
    fix loc
    assume "loc_to_cluster_id_placed sa loc \<noteq> None"
    with k(4) have "loc_to_cluster_id_placed st loc \<noteq> None \<or> tile_of loc = tile" by blast
    with Cons.prems(4) nt show "tile_of loc \<notin> fst ` set tile_blocks" by (auto simp: tb)
  qed
  from Cons.IH [OF d k(1,2) f2 r] k(3) show ?case by simp
qed


lemma reconstruction_clustering_legal:
  assumes snd: "strict_tier_sound cl strict" and fr: "legalizer_frame cl strict live"
    and dist: "distinct (map fst tile_blocks)"
    and sub: "ran (loc_to_cluster_id_placed st) \<subseteq> live (legalizer st)"
    and leg: "\<forall>c \<in> ran (loc_to_cluster_id_placed st). check_cluster_legality cl c (legalizer st)"
    and free: "\<forall>loc. loc_to_cluster_id_placed st loc \<noteq> None \<longrightarrow> tile_of loc \<notin> fst ` set tile_blocks"
    and run: "reconstruction_clustering cl nl ap grid tile_blocks st = Inr st'"
  shows "all_legal cl live st'"
proof -
  let ?s0 = "st\<lparr>unclustered_blocks := [], unclustered_block_locs := [],
                 cluster_id_to_loc_unplaced := [], cluster_created_mid_first_pass := 0\<rparr>"
  from run obtain sa sb where
    a: "reconstruct_tiles cl nl ap grid tile_blocks ?s0 = Inr sa" and
    b: "neighbor_cluster_pass cl nl SKIP_INTRA_LB_ROUTE NEIGHBOR_SEARCH_RADIUS sa = Inr sb" and
    c: "neighbor_cluster_pass cl nl FULL NEIGHBOR_SEARCH_RADIUS
          (sb\<lparr>legalizer := set_legalization_strategy cl FULL (legalizer sb)\<rparr>) = Inr st'"
    by (auto simp: reconstruction_clustering_def split: sum.splits)
  from reconstruct_tiles_legal [OF snd fr dist _ _ _ a] sub leg free
  have "ran (loc_to_cluster_id_placed sa) \<subseteq> live (legalizer sa)
         \<and> (\<forall>c \<in> ran (loc_to_cluster_id_placed sa). check_cluster_legality cl c (legalizer sa))
         \<and> cluster_id_to_loc_unplaced sa = []"
    by simp
  then have "all_legal cl live sa"
    by (simp add: all_legal_def kept_clusters_def)
  from neighbor_cluster_pass_all_legal [OF snd fr this _ b]
  have "all_legal cl live sb" by simp
  then have "all_legal cl live (sb\<lparr>legalizer := set_legalization_strategy cl FULL (legalizer sb)\<rparr>)"
    by (simp add: all_legal_def kept_clusters_def frame_set [OF fr])
  from neighbor_cluster_pass_all_legal [OF snd fr this _ c] frame_set(3) [OF fr]
  show ?thesis by simp
qed

lemma relocate_cluster_ran:
  "ran (fst (relocate_cluster cl s grid orig c st)) \<subseteq> insert c (ran (fst st))"
  by (auto simp: relocate_cluster_def Let_def ran_def split: option.splits if_splits)

lemma relocate_clusters_ran:
  "ran (fst (relocate_clusters cl s grid orig cs st)) \<subseteq> set cs \<union> ran (fst st)"
proof (induction cs arbitrary: st)
  case Nil
  show ?case by simp
next
  case (Cons c cs)
  from Cons.IH [of "relocate_cluster cl s grid orig c st"]
       relocate_cluster_ran [of cl s grid orig c st]
  show ?case by auto
qed

lemma relocate_tiles_ran:
  "ran (fst (relocate_tiles cl s grid copy st)) \<subseteq> (\<Union>a\<in>set copy. set (snd a)) \<union> ran (fst st)"
proof (induction copy arbitrary: st)
  case Nil
  show ?case by simp
next
  case (Cons p copy)
  obtain orig cs where p: "p = (orig, cs)" by (cases p)
  from Cons.IH [of "relocate_clusters cl s grid orig cs st"]
       relocate_clusters_ran [of cl s grid orig cs st]
  show ?case by (auto simp: p)
qed

lemma pack_recontruction_pass_legal:
  assumes snd: "strict_tier_sound cl strict" and fr: "legalizer_frame cl strict live"
    and dist: "distinct (map fst tile_blocks)"
    and sub: "ran (loc_to_cluster_id_placed st) \<subseteq> live (legalizer st)"
    and leg: "\<forall>c \<in> ran (loc_to_cluster_id_placed st). check_cluster_legality cl c (legalizer st)"
    and free: "\<forall>loc. loc_to_cluster_id_placed st loc \<noteq> None \<longrightarrow> tile_of loc \<notin> fst ` set tile_blocks"
    and run: "pack_recontruction_pass cl nl ap grid tile_blocks st = Inr st'"
  shows "\<forall>c \<in> ran (loc_to_cluster_id_placed st'). check_cluster_legality cl c (legalizer st')"
proof -
  from run obtain sa where
    a: "reconstruction_clustering cl nl ap grid tile_blocks st = Inr sa" and
    b: "finish_reconstruction cl grid sa = Inr st'"
    by (auto simp: pack_recontruction_pass_def split: sum.splits)
  from reconstruction_clustering_legal [OF snd fr dist sub leg free a]
  have k: "\<And>c. c \<in> kept_clusters sa \<Longrightarrow> check_cluster_legality cl c (legalizer sa)"
    by (simp add: all_legal_def)
  from b have l: "legalizer st' = legalizer sa"
    and p: "loc_to_cluster_id_placed st'
              = fst (place_remaining_clusters cl (legalizer sa) grid
                       (loc_to_cluster_id_placed sa, cluster_id_to_loc_unplaced sa))"
    by (auto simp: finish_reconstruction_def split: prod.splits if_splits)
  have "ran (loc_to_cluster_id_placed st') \<subseteq> kept_clusters sa"
    unfolding p place_remaining_clusters_def kept_clusters_def
    using relocate_tiles_ran [of cl "legalizer sa" grid "cluster_id_to_loc_unplaced sa"
            "(loc_to_cluster_id_placed sa, cluster_id_to_loc_unplaced sa)"]
    by auto
  with k l show ?thesis by auto
qed

lemma alist_delete_dom: "fst ` set (AList.delete k al) = fst ` set al - {k}"
proof -
  have "set (map fst (AList.delete k al)) = set (removeAll k (map fst al))"
    by (simp only: delete_keys)
  then show ?thesis by simp
qed

lemma simple_legalizer_frame:
  "legalizer_frame simple_legalizer (\<lambda>s. sl_strategy s = FULL) simple_live"
  unfolding legalizer_frame_def
proof (intro conjI allI)
  fix strategy s c
  show "sl_strategy (set_legalization_strategy simple_legalizer FULL s) = FULL"
    by (simp add: simple_legalizer_def)
  show "simple_live (set_legalization_strategy simple_legalizer strategy s) = simple_live s"
    by (simp add: simple_legalizer_def simple_live_def)
  show "check_cluster_legality simple_legalizer c (set_legalization_strategy simple_legalizer strategy s)
          = check_cluster_legality simple_legalizer c s"
    by (simp add: simple_legalizer_def)
next
  fix mol type mode s
  show "fst (fst (start_new_cluster simple_legalizer mol type mode s)) = BLK_PASSED \<longrightarrow>
             snd (fst (start_new_cluster simple_legalizer mol type mode s)) \<notin> simple_live s
             \<and> simple_live (snd (start_new_cluster simple_legalizer mol type mode s))
                 = insert (snd (fst (start_new_cluster simple_legalizer mol type mode s))) (simple_live s)"
    by (auto simp: simple_legalizer_def simple_live_def AList.dom_update)
  show "fst (fst (start_new_cluster simple_legalizer mol type mode s)) \<noteq> BLK_PASSED \<longrightarrow>
               simple_live (snd (start_new_cluster simple_legalizer mol type mode s)) = simple_live s"
    by (auto simp: simple_legalizer_def simple_live_def)
  fix c
  show "c \<in> simple_live s \<and> check_cluster_legality simple_legalizer c s \<longrightarrow>
                 check_cluster_legality simple_legalizer c (snd (start_new_cluster simple_legalizer mol type mode s))"
    by (auto simp: simple_legalizer_def simple_live_def update_conv' split: option.splits)
next
  fix mol c s
  show "simple_live (snd (add_mol_to_cluster simple_legalizer mol c s)) = simple_live s"
    by (auto simp: simple_legalizer_def simple_live_def AList.dom_update
             split: option.splits dest: map_of_SomeD)
       (metis fst_conv image_eqI map_of_SomeD)+
  fix c'
  show "c' \<noteq> c \<and> check_cluster_legality simple_legalizer c' s \<longrightarrow>
                 check_cluster_legality simple_legalizer c' (snd (add_mol_to_cluster simple_legalizer mol c s))"
    by (auto simp: simple_legalizer_def update_conv' split: option.splits)
next
  fix c s
  show "simple_live (clean_cluster simple_legalizer c s) = simple_live s"
    by (simp add: simple_legalizer_def)
  show "simple_live (destroy_cluster simple_legalizer c s) = simple_live s - {c}"
    by (auto simp: simple_legalizer_def simple_live_def alist_delete_dom)
  fix c'
  show "check_cluster_legality simple_legalizer c' (clean_cluster simple_legalizer c s)
          = check_cluster_legality simple_legalizer c' s"
    by (simp add: simple_legalizer_def)
  show "c' \<noteq> c \<and> check_cluster_legality simple_legalizer c' s \<longrightarrow>
                 check_cluster_legality simple_legalizer c' (destroy_cluster simple_legalizer c s)"
    by (auto simp: simple_legalizer_def delete_conv' split: option.splits)
qed



subsection \<open>The greedy clusterer under the contract\<close>

lemma fill_cluster_loop_sound:
  assumes "fill_cluster_loop util c n hf mx fs = Some fs'"
  shows "greedy_strict_sound util cl strict \<longrightarrow>
         strict (fill_legalizer fs) \<and> check_cluster_legality cl c (fill_legalizer fs) \<longrightarrow>
         strict (fill_legalizer fs') \<and> check_cluster_legality cl c (fill_legalizer fs')"
proof (rule fill_cluster_loop.raw_induct
         [where P = "\<lambda>util c n hf mx fs fs'. greedy_strict_sound util cl strict \<longrightarrow>
            strict (fill_legalizer fs) \<and> check_cluster_legality cl c (fill_legalizer fs) \<longrightarrow>
            strict (fill_legalizer fs') \<and> check_cluster_legality cl c (fill_legalizer fs')",
          OF _ assms])
  fix loop :: "('a, 'b) ClusterUtil \<Rightarrow> nat \<Rightarrow> int \<Rightarrow> int \<Rightarrow> int \<Rightarrow> ('a, 'b) fill_state
                 \<Rightarrow> ('a, 'b) fill_state option"
    and util c n hf mx fs fs'
  assume IH: "\<And>util c n hf mx fs fs'. loop util c n hf mx fs = Some fs' \<Longrightarrow>
                greedy_strict_sound util cl strict \<longrightarrow>
                strict (fill_legalizer fs) \<and> check_cluster_legality cl c (fill_legalizer fs) \<longrightarrow>
                strict (fill_legalizer fs') \<and> check_cluster_legality cl c (fill_legalizer fs')"
    and eq: "(if next_molecule fs \<noteq> None \<and> num_repeated_molecules fs < mx
              then loop util c n hf mx
                     (try_fill_cluster util c n hf (fs\<lparr>prev_molecule := next_molecule fs\<rparr>))
              else Some fs) = Some fs'"
  show "greedy_strict_sound util cl strict \<longrightarrow>
        strict (fill_legalizer fs) \<and> check_cluster_legality cl c (fill_legalizer fs) \<longrightarrow>
        strict (fill_legalizer fs') \<and> check_cluster_legality cl c (fill_legalizer fs')"
  proof (intro impI)
    assume snd: "greedy_strict_sound util cl strict"
      and inv: "strict (fill_legalizer fs) \<and> check_cluster_legality cl c (fill_legalizer fs)"
    show "strict (fill_legalizer fs') \<and> check_cluster_legality cl c (fill_legalizer fs')"
    proof (cases "next_molecule fs \<noteq> None \<and> num_repeated_molecules fs < mx")
      case False
      with eq inv show ?thesis by auto
    next
      case True
      let ?fs0 = "fs\<lparr>prev_molecule := next_molecule fs\<rparr>"
      let ?fs1 = "try_fill_cluster util c n hf ?fs0"
      from True eq have l: "loop util c n hf mx ?fs1 = Some fs'" by simp
      from snd have
        "\<forall>c clb_num hf fs.
          strict (fill_legalizer fs) \<and> check_cluster_legality cl c (fill_legalizer fs) \<longrightarrow>
          strict (fill_legalizer (try_fill_cluster util c clb_num hf fs))
          \<and> check_cluster_legality cl c (fill_legalizer (try_fill_cluster util c clb_num hf fs))"
        unfolding greedy_strict_sound_def by (elim conjE)
      then have
        "strict (fill_legalizer ?fs0) \<and> check_cluster_legality cl c (fill_legalizer ?fs0) \<longrightarrow>
          strict (fill_legalizer ?fs1) \<and> check_cluster_legality cl c (fill_legalizer ?fs1)"
        by blast
      with inv have "strict (fill_legalizer ?fs1) \<and> check_cluster_legality cl c (fill_legalizer ?fs1)"
        by simp
      with IH [OF l] snd show ?thesis by blast
    qed
  qed
qed


lemma grow_cluster_unfold:
  assumes "grow_cluster util cl strategy g = Some (Inr (c, g1))"
  shows "\<exists>s1 used x1 hf mx fs0 fs.
      util_start_new_cluster util (istart g)
        (set_legalization_strategy cl strategy (cluster_legalizer g))
        (num_used_type_instances g) (others g) = Inr (c, s1, used, x1)
    \<and> fill_legalizer fs0
        = fst (snd (snd (get_molecule_for_cluster util c 0
                           (fst (update_cluster_stats util (istart g) hf s1 x1))
                           (snd (update_cluster_stats util (istart g) hf s1 x1)))))
    \<and> fill_cluster_loop util c (total_clb_num g + 1) hf mx fs0 = Some fs
    \<and> g1 = g\<lparr>cluster_legalizer := fill_legalizer fs, others := fill_others fs,
             num_used_type_instances := used, total_clb_num := total_clb_num g + 1,
             cluster_stats := fill_stats fs, block_pack_status := fill_pack_status fs\<rparr>"
proof (cases "util_start_new_cluster util (istart g)
        (set_legalization_strategy cl strategy (cluster_legalizer g))
        (num_used_type_instances g) (others g)")
  case (Inl e)
  with assms show ?thesis by (simp add: grow_cluster_def)
next
  case (Inr p)
  obtain c' s1 used x1 where p: "p = (c', s1, used, x1)" by (cases p)
  define hf where "hf = get_threshold util (get_cluster_type cl c' s1)"
  obtain s2 x2 where u: "update_cluster_stats util (istart g) hf s1 x1 = (s2, x2)"
    by (cases "update_cluster_stats util (istart g) hf s1 x1")
  obtain nxt attempts s3 x3 where m: "get_molecule_for_cluster util c' 0 s2 x2 = (nxt, attempts, s3, x3)"
    by (cases "get_molecule_for_cluster util c' 0 s2 x2")
  define mx where "mx = (if num_attraction_groups util x3 > 0
                          then attraction_groups_max_repeated_molecules util else 1)"
  define stats2 where "stats2 = (if timing_driven util
       then (cluster_stats g)
              \<lparr>num_molecules_processed := num_molecules_processed (cluster_stats g) + 1,
               mols_since_last_print := mols_since_last_print (cluster_stats g) + 1,
               blocks_since_last_analysis := blocks_since_last_analysis (cluster_stats g) + 1\<rparr>
       else (cluster_stats g)
              \<lparr>num_molecules_processed := num_molecules_processed (cluster_stats g) + 1,
               mols_since_last_print := mols_since_last_print (cluster_stats g) + 1\<rparr>)
      \<lparr>num_unrelated_clustering_attempts := attempts\<rparr>"
  define fs0 :: "('a, 'b) fill_state" where
    "fs0 = \<lparr>prev_molecule = istart g, next_molecule = nxt, num_repeated_molecules = 0,
            fill_pack_status = block_pack_status g, fill_stats = stats2,
            fill_legalizer = s3, fill_others = x3\<rparr>"
  have eq: "grow_cluster util cl strategy g =
        (case fill_cluster_loop util c' (total_clb_num g + 1) hf mx fs0 of
           None \<Rightarrow> None
         | Some fs \<Rightarrow>
             Some (Inr (c', g\<lparr>cluster_legalizer := fill_legalizer fs, others := fill_others fs,
                               num_used_type_instances := used, total_clb_num := total_clb_num g + 1,
                               cluster_stats := fill_stats fs,
                               block_pack_status := fill_pack_status fs\<rparr>)))"
    using Inr p u m
    by (simp add: grow_cluster_def Let_def hf_def [symmetric] mx_def [symmetric] fs0_def stats2_def)
  with assms obtain fs where
    l: "fill_cluster_loop util c' (total_clb_num g + 1) hf mx fs0 = Some fs" and
    r: "c = c'" "g1 = g\<lparr>cluster_legalizer := fill_legalizer fs, others := fill_others fs,
                               num_used_type_instances := used, total_clb_num := total_clb_num g + 1,
                               cluster_stats := fill_stats fs,
                               block_pack_status := fill_pack_status fs\<rparr>"
    by (auto split: option.splits)
  have "fill_legalizer fs0
        = fst (snd (snd (get_molecule_for_cluster util c 0
                           (fst (update_cluster_stats util (istart g) hf s1 x1))
                           (snd (update_cluster_stats util (istart g) hf s1 x1)))))"
    using u m r(1) by (simp add: fs0_def)
  with Inr p l r show ?thesis by blast
qed

lemma grow_cluster_frame:
  assumes "grow_cluster util cl strategy g = Some (Inr (c, g1))"
  shows "istart g1 = istart g \<and> total_clb_num g1 = total_clb_num g + 1"
  using grow_cluster_unfold [OF assms] by auto

lemma grow_cluster_full_legal:
  assumes snd: "greedy_strict_sound util cl strict"
    and g: "grow_cluster util cl FULL g = Some (Inr (c, g1))"
  shows "check_cluster_legality cl c (cluster_legalizer g1)"
proof -
  from grow_cluster_unfold [OF g] obtain s1 used x1 hf mx fs0 fs where
    a: "util_start_new_cluster util (istart g)
       (set_legalization_strategy cl FULL (cluster_legalizer g))
       (num_used_type_instances g) (others g) = Inr (c, s1, used, x1)" and
    e: "fill_legalizer fs0
        = fst (snd (snd (get_molecule_for_cluster util c 0
                           (fst (update_cluster_stats util (istart g) hf s1 x1))
                           (snd (update_cluster_stats util (istart g) hf s1 x1)))))" and
    l: "fill_cluster_loop util c (total_clb_num g + 1) hf mx fs0 = Some fs" and
    r: "g1 = g\<lparr>cluster_legalizer := fill_legalizer fs, others := fill_others fs,
             num_used_type_instances := used, total_clb_num := total_clb_num g + 1,
             cluster_stats := fill_stats fs, block_pack_status := fill_pack_status fs\<rparr>"
    by blast
  note k = snd [unfolded greedy_strict_sound_def]
  note k0 = k [THEN conjunct1]
  note k1 = k [THEN conjunct2, THEN conjunct1]
  note k2 = k [THEN conjunct2, THEN conjunct2, THEN conjunct1]
  note k3 = k [THEN conjunct2, THEN conjunct2, THEN conjunct2, THEN conjunct1]
  from k0 have c0: "strict (set_legalization_strategy cl FULL (cluster_legalizer g))"
    by (rule spec)
  from k1 [rule_format, OF conjI [OF c0 a]]
  have c1: "strict s1 \<and> check_cluster_legality cl c s1" .
  from k2 [rule_format, OF c1, of "istart g" hf x1]
  have c2: "strict (fst (update_cluster_stats util (istart g) hf s1 x1))
          \<and> check_cluster_legality cl c (fst (update_cluster_stats util (istart g) hf s1 x1))" .
  from k3 [rule_format, OF c2, of c 0 "snd (update_cluster_stats util (istart g) hf s1 x1)"] e
  have c3: "strict (fill_legalizer fs0) \<and> check_cluster_legality cl c (fill_legalizer fs0)"
    by simp
  from fill_cluster_loop_sound [OF l, of cl strict, rule_format, OF snd c3]
  have "check_cluster_legality cl c (fill_legalizer fs)" by simp
  with r show ?thesis by simp
qed

lemma cluster_seed_two_tiers:
  "cluster_seed util cl g =
     (case grow_cluster util cl SKIP_INTRA_LB_ROUTE g of
        None \<Rightarrow> None
      | Some (Inl e) \<Rightarrow> Some (Inl e)
      | Some (Inr (c1, g1)) \<Rightarrow>
          if check_cluster_legality cl c1 (cluster_legalizer g1)
          then Some (Inr (finalize_cluster util cl c1 g1))
          else (case grow_cluster util cl FULL (requeue_cluster cl c1 g1) of
                  None \<Rightarrow> None
                | Some (Inl e) \<Rightarrow> Some (Inl e)
                | Some (Inr (c2, g2)) \<Rightarrow> Some (Inr (finalize_cluster util cl c2 g2))))"
  by (simp add: cluster_seed_def cluster_attempt_def Let_def
           split: option.splits sum.splits prod.splits)

text \<open>
  C4. One seed of the greedy clusterer: the cluster is grown under
  \<open>SKIP_INTRA_LB_ROUTE\<close>; when it passes the check it is finalized; otherwise it is
  requeued and one cluster is grown under \<open>FULL\<close> from the requeued state and finalized,
  and there is no further attempt. Growing leaves the seed \<open>istart\<close> as it is and adds
  one to \<open>total_clb_num\<close>; requeueing leaves the seed as it is, takes \<open>total_clb_num\<close>
  back, takes one from the counter of the cluster's type and destroys the cluster in the
  legalizer, which is then compressed.
\<close>

theorem greedy_two_tier_per_seed:
  "cluster_seed util cl g =
     (case grow_cluster util cl SKIP_INTRA_LB_ROUTE g of
        None \<Rightarrow> None
      | Some (Inl e) \<Rightarrow> Some (Inl e)
      | Some (Inr (c1, g1)) \<Rightarrow>
          if check_cluster_legality cl c1 (cluster_legalizer g1)
          then Some (Inr (finalize_cluster util cl c1 g1))
          else (case grow_cluster util cl FULL (requeue_cluster cl c1 g1) of
                  None \<Rightarrow> None
                | Some (Inl e) \<Rightarrow> Some (Inl e)
                | Some (Inr (c2, g2)) \<Rightarrow> Some (Inr (finalize_cluster util cl c2 g2))))
   \<and> (grow_cluster util cl strategy g = Some (Inr (c, g'))
      \<longrightarrow> istart g' = istart g
        \<and> total_clb_num g' = total_clb_num g + 1
        \<and> istart (requeue_cluster cl c g') = istart g
        \<and> total_clb_num (requeue_cluster cl c g') = total_clb_num g
        \<and> num_used_type_instances (requeue_cluster cl c g')
              (get_cluster_type cl c (cluster_legalizer g'))
            = num_used_type_instances g' (get_cluster_type cl c (cluster_legalizer g')) - 1
        \<and> cluster_legalizer (requeue_cluster cl c g')
            = compress cl (destroy_cluster cl c (cluster_legalizer g')))"
proof (intro conjI impI)
  assume "grow_cluster util cl strategy g = Some (Inr (c, g'))"
  note f = grow_cluster_frame [OF this]
  from f show "istart g' = istart g" by simp
  from f show "total_clb_num g' = total_clb_num g + 1" by simp
  from f show "istart (requeue_cluster cl c g') = istart g"
    by (simp add: requeue_cluster_def Let_def)
  from f show "total_clb_num (requeue_cluster cl c g') = total_clb_num g"
    by (simp add: requeue_cluster_def Let_def)
  show "num_used_type_instances (requeue_cluster cl c g')
              (get_cluster_type cl c (cluster_legalizer g'))
            = num_used_type_instances g' (get_cluster_type cl c (cluster_legalizer g')) - 1"
    by (simp add: requeue_cluster_def Let_def)
  show "cluster_legalizer (requeue_cluster cl c g')
            = compress cl (destroy_cluster cl c (cluster_legalizer g'))"
    by (simp add: requeue_cluster_def Let_def)
qed (rule cluster_seed_two_tiers)

subsection \<open>The naive clusterer under the contract\<close>

lemma naive_fill_sound:
  assumes snd: "strict_tier_sound cl strict" and fr: "legalizer_frame cl strict live"
  shows "strict s \<Longrightarrow> check_cluster_legality cl c s \<Longrightarrow>
         strict (snd (naive_fill cl c mols s))
         \<and> check_cluster_legality cl c (snd (naive_fill cl c mols s))
         \<and> live (snd (naive_fill cl c mols s)) = live s
         \<and> (\<forall>c'. c' \<noteq> c \<and> check_cluster_legality cl c' s \<longrightarrow>
                check_cluster_legality cl c' (snd (naive_fill cl c mols s)))"
proof (induction mols arbitrary: s)
  case Nil
  then show ?case by simp
next
  case (Cons mol mols)
  obtain status sa where a: "add_mol_to_cluster cl mol c s = (status, sa)"
    by (metis surj_pair)
  note sa = sound_add [OF snd Cons.prems(1) a]
  note fa = frame_add [OF fr a]
  from sa(2) Cons.prems(2) have ca: "check_cluster_legality cl c sa" by simp
  note ih = Cons.IH [OF Cons.prems] Cons.IH [OF sa(1) ca]
  show ?case
  proof (cases "is_molecule_compatible cl mol c s")
    case False
    then have "snd (naive_fill cl c (mol # mols) s) = snd (naive_fill cl c mols s)"
      by (simp split: prod.splits)
    with ih(1) show ?thesis by simp
  next
    case True
    have "snd (naive_fill cl c (mol # mols) s) = snd (naive_fill cl c mols sa)"
      using True a by (simp split: prod.splits)
    with ih(2) fa show ?thesis by simp
  qed
qed

lemma naive_cluster_molecules_legal:
  "strict_tier_sound cl strict \<Longrightarrow> legalizer_frame cl strict live \<Longrightarrow>
         strict s \<Longrightarrow> L \<subseteq> live s \<Longrightarrow> \<forall>c \<in> live s - L. check_cluster_legality cl c s \<Longrightarrow>
         naive_cluster_molecules cl nl mols s = Inr s' \<Longrightarrow>
         strict s' \<and> L \<subseteq> live s' \<and> (\<forall>c \<in> live s' - L. check_cluster_legality cl c s')"
proof (induction cl nl mols s rule: naive_cluster_molecules.induct)
  case (1 cl nl s)
  then show ?case by simp
next
  case (2 cl nl seed rest s)
  from "2.prems"(6) obtain c sa where
    c: "create_new_cluster cl nl seed s = Inr (c, sa)"
    by (auto split: sum.splits)
  obtain mol_list sb where f: "naive_fill cl c rest sa = (mol_list, sb)"
    by (metis surj_pair)
  from "2.prems"(6) c f have
    r: "naive_cluster_molecules cl nl mol_list (clean_cluster cl c sb) = Inr s'"
    by simp
  note sc = create_new_cluster_sound [OF "2.prems"(1,3) c]
  note fc = create_new_cluster_frame [OF "2.prems"(2) c]
  from naive_fill_sound [OF "2.prems"(1,2), of sa c rest] sc f
  have nf: "strict sb" "check_cluster_legality cl c sb" "live sb = live sa"
    "\<And>c'. c' \<noteq> c \<Longrightarrow> check_cluster_legality cl c' sa \<Longrightarrow> check_cluster_legality cl c' sb"
    by simp_all
  note cln = frame_clean [OF "2.prems"(2), where c = c and s = sb]
  have a1: "strict (clean_cluster cl c sb)"
    using sound_clean [OF "2.prems"(1) nf(1)] .
  have a2: "L \<subseteq> live (clean_cluster cl c sb)"
    using "2.prems"(4) fc(2) nf(3) cln(1) by auto
  have a3: "\<forall>c' \<in> live (clean_cluster cl c sb) - L. check_cluster_legality cl c' (clean_cluster cl c sb)"
  proof
    fix c'
    assume "c' \<in> live (clean_cluster cl c sb) - L"
    with cln(1) nf(3) fc(2) have m: "c' = c \<or> c' \<in> live s - L" by auto
    have "check_cluster_legality cl c' sb"
    proof (cases "c' = c")
      case True
      with nf(2) show ?thesis by simp
    next
      case False
      with m have k: "c' \<in> live s - L" by simp
      with "2.prems"(5) have "check_cluster_legality cl c' s" by blast
      with fc(3) [of c'] k have "check_cluster_legality cl c' sa" by blast
      from nf(4) [OF False this] show ?thesis .
    qed
    with cln(2) [of c'] show "check_cluster_legality cl c' (clean_cluster cl c sb)" by simp
  qed
  from "2.IH" [OF c refl f [symmetric] "2.prems"(1,2) a1 a2 a3 r] show ?case .
qed

lemma naive_tiles_legal:
  assumes snd: "strict_tier_sound cl strict" and fr: "legalizer_frame cl strict live"
  shows "strict s \<Longrightarrow> L \<subseteq> live s \<Longrightarrow> \<forall>c \<in> live s - L. check_cluster_legality cl c s \<Longrightarrow>
         naive_tiles cl nl ap tiles s = Inr s' \<Longrightarrow>
         strict s' \<and> L \<subseteq> live s' \<and> (\<forall>c \<in> live s' - L. check_cluster_legality cl c s')"
proof (induction tiles arbitrary: s)
  case Nil
  then show ?case by simp
next
  case (Cons blks tiles)
  from Cons.prems(4) obtain sa where
    m: "naive_cluster_molecules cl nl (map (block_molecule ap) blks) s = Inr sa" and
    r: "naive_tiles cl nl ap tiles sa = Inr s'"
    by (auto split: sum.splits)
  from naive_cluster_molecules_legal [OF snd fr Cons.prems(1,2,3) m]
  have "strict sa" "L \<subseteq> live sa" "\<forall>c \<in> live sa - L. check_cluster_legality cl c sa"
    by simp_all
  from Cons.IH [OF this r] show ?case .
qed

lemma create_clusters_legal:
  assumes snd: "strict_tier_sound cl strict" and fr: "legalizer_frame cl strict live"
    and str: "strict (new_legalizer FULL)"
    and run: "create_clusters cl new_legalizer nl ap blocks_in_tiles = Inr s'"
  shows "\<forall>c \<in> live s' - live (new_legalizer FULL). check_cluster_legality cl c s'"
  using naive_tiles_legal [OF snd fr str, of "live (new_legalizer FULL)" nl ap blocks_in_tiles s'] run
  by (simp add: create_clusters_def)

lemma cluster_seed_finalized_grown:
  assumes snd: "greedy_strict_sound util cl strict"
    and r: "cluster_seed util cl g = Some (Inr g')"
  shows "\<exists>strategy g_start c g_grown.
           grow_cluster util cl strategy g_start = Some (Inr (c, g_grown))
         \<and> check_cluster_legality cl c (cluster_legalizer g_grown)
         \<and> g' = finalize_cluster util cl c g_grown"
proof -
  from r obtain c1 g1 where
    a: "grow_cluster util cl SKIP_INTRA_LB_ROUTE g = Some (Inr (c1, g1))"
    unfolding cluster_seed_two_tiers by (auto split: option.splits sum.splits)
  show ?thesis
  proof (cases "check_cluster_legality cl c1 (cluster_legalizer g1)")
    case True
    with r a have "g' = finalize_cluster util cl c1 g1"
      unfolding cluster_seed_two_tiers by simp
    with True a show ?thesis by blast
  next
    case False
    with r a obtain c2 g2 where
      b: "grow_cluster util cl FULL (requeue_cluster cl c1 g1) = Some (Inr (c2, g2))" and
      e: "g' = finalize_cluster util cl c2 g2"
      unfolding cluster_seed_two_tiers by (auto split: option.splits sum.splits)
    from grow_cluster_full_legal [OF snd b] e b show ?thesis by blast
  qed
qed

text \<open>
  C3. Every cluster that is kept passes the strict check, under the contract of the
  legalizer. For the reconstruction: when no cluster is bound at a tile of the run
  before it starts and the clusters that are bound elsewhere are live and pass the
  check (so in particular when the table of placed locations is empty), then every
  cluster that the clustering keeps, bound to a site or waiting in the table of
  unplaced clusters, passes \<open>check_cluster_legality\<close> in the legalizer that the
  clustering returns, and so does every cluster of the table of placed locations when
  \<open>pack_recontruction_pass\<close> returns. This covers the clusters of the direct pass that
  passed the check and were cleaned, the clusters that the retry under the strict
  strategy started or added to, which are kept unchecked, and the clusters of the two
  neighbor passes. For the greedy clusterer: whenever the body of the seed loop returns,
  it has finalized the cluster that one of its two growths built, and that cluster
  passes the check in the state in which it is finalized. For the naive clusterer, which
  cleans every cluster with no check: when the legalizer that is constructed with the
  strict strategy is in a strict state, every cluster that \<open>create_clusters\<close> has
  started passes the check in the legalizer that it returns.
\<close>

theorem finalized_clusters_strictly_legal:
  assumes "strict_tier_sound cl strict" and "legalizer_frame cl strict live"
    and "greedy_strict_sound util cl strict"
  shows "(distinct (map fst tile_blocks)
          \<and> ran (loc_to_cluster_id_placed st) \<subseteq> live (legalizer st)
          \<and> (\<forall>c \<in> ran (loc_to_cluster_id_placed st). check_cluster_legality cl c (legalizer st))
          \<and> (\<forall>loc. loc_to_cluster_id_placed st loc \<noteq> None \<longrightarrow> tile_of loc \<notin> fst ` set tile_blocks)
          \<longrightarrow> (reconstruction_clustering cl nl ap grid tile_blocks st = Inr st_clustered
                 \<longrightarrow> (\<forall>c \<in> kept_clusters st_clustered.
                        check_cluster_legality cl c (legalizer st_clustered)))
              \<and> (pack_recontruction_pass cl nl ap grid tile_blocks st = Inr st_placed
                 \<longrightarrow> (\<forall>c \<in> ran (loc_to_cluster_id_placed st_placed).
                        check_cluster_legality cl c (legalizer st_placed))))
         \<and> (cluster_seed util cl g = Some (Inr g')
            \<longrightarrow> (\<exists>strategy g_start c g_grown.
                   grow_cluster util cl strategy g_start = Some (Inr (c, g_grown))
                 \<and> check_cluster_legality cl c (cluster_legalizer g_grown)
                 \<and> g' = finalize_cluster util cl c g_grown))
         \<and> (strict (new_legalizer FULL)
            \<and> create_clusters cl new_legalizer nl ap blocks_in_tiles = Inr s_naive
            \<longrightarrow> (\<forall>c \<in> live s_naive - live (new_legalizer FULL).
                   check_cluster_legality cl c s_naive))"
proof (intro conjI; rule impI)
  assume h: "distinct (map fst tile_blocks)
          \<and> ran (loc_to_cluster_id_placed st) \<subseteq> live (legalizer st)
          \<and> (\<forall>c \<in> ran (loc_to_cluster_id_placed st). check_cluster_legality cl c (legalizer st))
          \<and> (\<forall>loc. loc_to_cluster_id_placed st loc \<noteq> None \<longrightarrow> tile_of loc \<notin> fst ` set tile_blocks)"
  then have d: "distinct (map fst tile_blocks)"
    and s: "ran (loc_to_cluster_id_placed st) \<subseteq> live (legalizer st)"
    and l: "\<forall>c \<in> ran (loc_to_cluster_id_placed st). check_cluster_legality cl c (legalizer st)"
    and f: "\<forall>loc. loc_to_cluster_id_placed st loc \<noteq> None \<longrightarrow> tile_of loc \<notin> fst ` set tile_blocks"
    by simp_all
  show "(reconstruction_clustering cl nl ap grid tile_blocks st = Inr st_clustered
                 \<longrightarrow> (\<forall>c \<in> kept_clusters st_clustered.
                        check_cluster_legality cl c (legalizer st_clustered)))
              \<and> (pack_recontruction_pass cl nl ap grid tile_blocks st = Inr st_placed
                 \<longrightarrow> (\<forall>c \<in> ran (loc_to_cluster_id_placed st_placed).
                        check_cluster_legality cl c (legalizer st_placed)))"
  proof (rule conjI; rule impI)
    assume "reconstruction_clustering cl nl ap grid tile_blocks st = Inr st_clustered"
    from reconstruction_clustering_legal [OF assms(1,2) d s l f this]
    show "\<forall>c \<in> kept_clusters st_clustered. check_cluster_legality cl c (legalizer st_clustered)"
      by (simp add: all_legal_def)
  next
    assume "pack_recontruction_pass cl nl ap grid tile_blocks st = Inr st_placed"
    then show "\<forall>c \<in> ran (loc_to_cluster_id_placed st_placed).
                 check_cluster_legality cl c (legalizer st_placed)"
      by (rule pack_recontruction_pass_legal [OF assms(1,2) d s l f])
  qed
next
  assume "cluster_seed util cl g = Some (Inr g')"
  then show "\<exists>strategy g_start c g_grown.
                   grow_cluster util cl strategy g_start = Some (Inr (c, g_grown))
                 \<and> check_cluster_legality cl c (cluster_legalizer g_grown)
                 \<and> g' = finalize_cluster util cl c g_grown"
    by (rule cluster_seed_finalized_grown [OF assms(3)])
next
  assume "strict (new_legalizer FULL)
            \<and> create_clusters cl new_legalizer nl ap blocks_in_tiles = Inr s_naive"
  then show "\<forall>c \<in> live s_naive - live (new_legalizer FULL). check_cluster_legality cl c s_naive"
    using create_clusters_legal [OF assms(1,2)] by blast
qed

lemma simple_legalizer_sound:
  "strict_tier_sound simple_legalizer (\<lambda>s. sl_strategy s = FULL)"
  unfolding strict_tier_sound_def
  by (auto simp: simple_legalizer_def update_conv' split: option.splits)

lemma simple_util_sound:
  "greedy_strict_sound simple_util simple_legalizer (\<lambda>s. sl_strategy s = FULL)"
  unfolding greedy_strict_sound_def
  by (auto simp: simple_util_def simple_legalizer_def update_conv'
           split: option.splits if_splits prod.splits)

theorem finalized_clusters_strictly_legal_witness:
  "(\<exists>st'. pack_recontruction_pass simple_legalizer mixed_netlist (one_atom_blocks [0, 2, 4, 6]) grid3
             [(centre, [0, 2, 4, 6])] (initial_state Map.empty) = Inr st'
      \<and> sl_clusters (legalizer st') = [(0, [0, 2]), (3, [4]), (4, [6])]
      \<and> loc_to_cluster_id_placed st' \<lparr>pl_x = 1, pl_y = 1, pl_sub_tile = 0, pl_layer = 0\<rparr> = Some 0
      \<and> check_cluster_legality simple_legalizer 0 (legalizer st')
      \<and> loc_to_cluster_id_placed st' \<lparr>pl_x = 0, pl_y = 1, pl_sub_tile = 0, pl_layer = 0\<rparr> = Some 3
      \<and> check_cluster_legality simple_legalizer 3 (legalizer st')
      \<and> loc_to_cluster_id_placed st' \<lparr>pl_x = 1, pl_y = 0, pl_sub_tile = 0, pl_layer = 0\<rparr> = Some 4
      \<and> check_cluster_legality simple_legalizer 4 (legalizer st'))
   \<and> (\<exists>st'. reconstruction_clustering simple_legalizer mixed_netlist (one_atom_blocks [8, 1, 4, 6, 7]) grid3
             [(centre, [8, 4]), (origin, [6, 7, 1])] (initial_state Map.empty) = Inr st'
      \<and> sl_clusters (legalizer st') = [(1, [8]), (3, [6]), (4, [4, 1]), (5, [7])]
      \<and> loc_to_cluster_id_placed st' \<lparr>pl_x = 1, pl_y = 1, pl_sub_tile = 0, pl_layer = 0\<rparr> = Some 1
      \<and> check_cluster_legality simple_legalizer 1 (legalizer st')
      \<and> loc_to_cluster_id_placed st' \<lparr>pl_x = 0, pl_y = 0, pl_sub_tile = 0, pl_layer = 0\<rparr> = Some 3
      \<and> check_cluster_legality simple_legalizer 3 (legalizer st')
      \<and> cluster_id_to_loc_unplaced st' = [(centre, [4]), (origin, [5])]
      \<and> check_cluster_legality simple_legalizer 4 (legalizer st')
      \<and> check_cluster_legality simple_legalizer 5 (legalizer st'))
   \<and> (\<exists>g' strategy g_start c g_grown.
        cluster_seed simple_util simple_legalizer (initial_clusterer [4, 6, 1]) = Some (Inr g')
      \<and> grow_cluster simple_util simple_legalizer strategy g_start = Some (Inr (c, g_grown))
      \<and> check_cluster_legality simple_legalizer c (cluster_legalizer g_grown)
      \<and> g' = finalize_cluster simple_util simple_legalizer c g_grown)
   \<and> (\<exists>s'. create_clusters simple_legalizer fresh_legalizer mixed_netlist
               (one_atom_blocks [0, 2, 4, 6]) [[0, 2, 4, 6]] = Inr s'
      \<and> sl_clusters s' = [(0, [0, 2]), (1, [4]), (2, [6])]
      \<and> check_cluster_legality simple_legalizer 0 s'
      \<and> check_cluster_legality simple_legalizer 1 s'
      \<and> check_cluster_legality simple_legalizer 2 s')"
proof -
  note main = finalized_clusters_strictly_legal
                [OF simple_legalizer_sound simple_legalizer_frame simple_util_sound]
  have start: "\<And>tbs. ran (loc_to_cluster_id_placed (initial_state Map.empty))
                   \<subseteq> simple_live (legalizer (initial_state Map.empty))
          \<and> (\<forall>c \<in> ran (loc_to_cluster_id_placed (initial_state Map.empty)).
                check_cluster_legality simple_legalizer c (legalizer (initial_state Map.empty)))
          \<and> (\<forall>loc. loc_to_cluster_id_placed (initial_state Map.empty) loc \<noteq> None \<longrightarrow>
                tile_of loc \<notin> fst ` set tbs)"
    by (simp add: initial_state_def)
  let ?P = "pack_recontruction_pass simple_legalizer mixed_netlist (one_atom_blocks [0, 2, 4, 6]) grid3
             [(centre, [0, 2, 4, 6])] (initial_state Map.empty)"
  define sa where "sa = projr ?P"
  have a1: "?P = Inr sa"
    unfolding sa_def by (rule not_isl_projr) code_simp
  have a2: "sl_clusters (legalizer sa) = [(0, [0, 2]), (3, [4]), (4, [6])]
      \<and> loc_to_cluster_id_placed sa \<lparr>pl_x = 1, pl_y = 1, pl_sub_tile = 0, pl_layer = 0\<rparr> = Some 0
      \<and> loc_to_cluster_id_placed sa \<lparr>pl_x = 0, pl_y = 1, pl_sub_tile = 0, pl_layer = 0\<rparr> = Some 3
      \<and> loc_to_cluster_id_placed sa \<lparr>pl_x = 1, pl_y = 0, pl_sub_tile = 0, pl_layer = 0\<rparr> = Some 4"
    unfolding sa_def by code_simp
  have d1: "distinct (map fst [(centre, [0::nat, 2, 4, 6])])" by simp
  from main [where tile_blocks = "[(centre, [0, 2, 4, 6])]" and st = "initial_state Map.empty"
               and nl = mixed_netlist and ap = "one_atom_blocks [0, 2, 4, 6]" and grid = grid3
               and st_placed = sa, THEN conjunct1, rule_format, OF conjI [OF d1 start], THEN conjunct2]
       a1
  have a3: "\<forall>c \<in> ran (loc_to_cluster_id_placed sa).
              check_cluster_legality simple_legalizer c (legalizer sa)"
    by blast
  from a2 have "0 \<in> ran (loc_to_cluster_id_placed sa)" "3 \<in> ran (loc_to_cluster_id_placed sa)"
    "4 \<in> ran (loc_to_cluster_id_placed sa)"
    by (auto simp: ran_def)
  with a3 have a4: "check_cluster_legality simple_legalizer 0 (legalizer sa)"
    "check_cluster_legality simple_legalizer 3 (legalizer sa)"
    "check_cluster_legality simple_legalizer 4 (legalizer sa)"
    by blast+
  let ?C = "reconstruction_clustering simple_legalizer mixed_netlist (one_atom_blocks [8, 1, 4, 6, 7]) grid3
             [(centre, [8, 4]), (origin, [6, 7, 1])] (initial_state Map.empty)"
  define sb where "sb = projr ?C"
  have b1: "?C = Inr sb"
    unfolding sb_def by (rule not_isl_projr) code_simp
  have b2: "sl_clusters (legalizer sb) = [(1, [8]), (3, [6]), (4, [4, 1]), (5, [7])]
      \<and> loc_to_cluster_id_placed sb \<lparr>pl_x = 1, pl_y = 1, pl_sub_tile = 0, pl_layer = 0\<rparr> = Some 1
      \<and> loc_to_cluster_id_placed sb \<lparr>pl_x = 0, pl_y = 0, pl_sub_tile = 0, pl_layer = 0\<rparr> = Some 3
      \<and> cluster_id_to_loc_unplaced sb = [(centre, [4]), (origin, [5])]"
    unfolding sb_def by code_simp
  have d2: "distinct (map fst [(centre, [8::nat, 4]), (origin, [6, 7, 1])])"
    by (simp add: centre_def origin_def)
  from main [where tile_blocks = "[(centre, [8, 4]), (origin, [6, 7, 1])]"
               and st = "initial_state Map.empty"
               and nl = mixed_netlist and ap = "one_atom_blocks [8, 1, 4, 6, 7]" and grid = grid3
               and st_clustered = sb, THEN conjunct1, rule_format, OF conjI [OF d2 start], THEN conjunct1]
       b1
  have b3: "\<forall>c \<in> kept_clusters sb. check_cluster_legality simple_legalizer c (legalizer sb)"
    by blast
  from b2 have "1 \<in> kept_clusters sb" "3 \<in> kept_clusters sb" "4 \<in> kept_clusters sb"
    "5 \<in> kept_clusters sb"
    by (auto simp: kept_clusters_def ran_def)
  with b3 have b4: "check_cluster_legality simple_legalizer 1 (legalizer sb)"
    "check_cluster_legality simple_legalizer 3 (legalizer sb)"
    "check_cluster_legality simple_legalizer 4 (legalizer sb)"
    "check_cluster_legality simple_legalizer 5 (legalizer sb)"
    by blast+
  let ?seed = "cluster_seed simple_util simple_legalizer (initial_clusterer [4, 6, 1])"
  have "case ?seed of Some (Inr g') \<Rightarrow> True | _ \<Rightarrow> False" by code_simp
  then obtain g' where r: "?seed = Some (Inr g')"
    by (auto split: option.splits sum.splits)
  from main [THEN conjunct2, THEN conjunct1, rule_format, OF r]
  obtain strategy g_start c g_grown where
    "grow_cluster simple_util simple_legalizer strategy g_start = Some (Inr (c, g_grown))"
    "check_cluster_legality simple_legalizer c (cluster_legalizer g_grown)"
    "g' = finalize_cluster simple_util simple_legalizer c g_grown"
    by blast
  then have gr: "\<exists>g' strategy g_start c g_grown.
        cluster_seed simple_util simple_legalizer (initial_clusterer [4, 6, 1]) = Some (Inr g')
      \<and> grow_cluster simple_util simple_legalizer strategy g_start = Some (Inr (c, g_grown))
      \<and> check_cluster_legality simple_legalizer c (cluster_legalizer g_grown)
      \<and> g' = finalize_cluster simple_util simple_legalizer c g_grown"
    using r by blast
  define sn where "sn = \<lparr>sl_clusters = [(0, [0, 2]), (1, [4]), (2, [6])], sl_strategy = FULL,
                          sl_next = 3\<rparr>"
  have n1: "create_clusters simple_legalizer fresh_legalizer mixed_netlist
               (one_atom_blocks [0, 2, 4, 6]) [[0, 2, 4, 6]] = Inr sn"
    unfolding sn_def by code_simp
  have n2: "sl_strategy (fresh_legalizer FULL) = FULL" by (simp add: fresh_legalizer_def)
  from main [where new_legalizer = fresh_legalizer and nl = mixed_netlist
               and ap = "one_atom_blocks [0, 2, 4, 6]" and blocks_in_tiles = "[[0, 2, 4, 6]]"
               and s_naive = sn, THEN conjunct2, THEN conjunct2] n1 n2
  have n3: "\<forall>c \<in> simple_live sn - simple_live (fresh_legalizer FULL).
              check_cluster_legality simple_legalizer c sn"
    by blast
  have "0 \<in> simple_live sn - simple_live (fresh_legalizer FULL)"
    "1 \<in> simple_live sn - simple_live (fresh_legalizer FULL)"
    "2 \<in> simple_live sn - simple_live (fresh_legalizer FULL)"
    by (simp_all add: simple_live_def sn_def fresh_legalizer_def)
  with n3 have n4: "check_cluster_legality simple_legalizer 0 sn"
    "check_cluster_legality simple_legalizer 1 sn" "check_cluster_legality simple_legalizer 2 sn"
    by blast+
  have n5: "sl_clusters sn = [(0, [0, 2]), (1, [4]), (2, [6])]" by (simp add: sn_def)
  from a1 a2 a4 have p1: "\<exists>st'. pack_recontruction_pass simple_legalizer mixed_netlist (one_atom_blocks [0, 2, 4, 6]) grid3
             [(centre, [0, 2, 4, 6])] (initial_state Map.empty) = Inr st'
      \<and> sl_clusters (legalizer st') = [(0, [0, 2]), (3, [4]), (4, [6])]
      \<and> loc_to_cluster_id_placed st' \<lparr>pl_x = 1, pl_y = 1, pl_sub_tile = 0, pl_layer = 0\<rparr> = Some 0
      \<and> check_cluster_legality simple_legalizer 0 (legalizer st')
      \<and> loc_to_cluster_id_placed st' \<lparr>pl_x = 0, pl_y = 1, pl_sub_tile = 0, pl_layer = 0\<rparr> = Some 3
      \<and> check_cluster_legality simple_legalizer 3 (legalizer st')
      \<and> loc_to_cluster_id_placed st' \<lparr>pl_x = 1, pl_y = 0, pl_sub_tile = 0, pl_layer = 0\<rparr> = Some 4
      \<and> check_cluster_legality simple_legalizer 4 (legalizer st')"
    by blast
  from b1 b2 b4 have p2: "\<exists>st'. reconstruction_clustering simple_legalizer mixed_netlist (one_atom_blocks [8, 1, 4, 6, 7]) grid3
             [(centre, [8, 4]), (origin, [6, 7, 1])] (initial_state Map.empty) = Inr st'
      \<and> sl_clusters (legalizer st') = [(1, [8]), (3, [6]), (4, [4, 1]), (5, [7])]
      \<and> loc_to_cluster_id_placed st' \<lparr>pl_x = 1, pl_y = 1, pl_sub_tile = 0, pl_layer = 0\<rparr> = Some 1
      \<and> check_cluster_legality simple_legalizer 1 (legalizer st')
      \<and> loc_to_cluster_id_placed st' \<lparr>pl_x = 0, pl_y = 0, pl_sub_tile = 0, pl_layer = 0\<rparr> = Some 3
      \<and> check_cluster_legality simple_legalizer 3 (legalizer st')
      \<and> cluster_id_to_loc_unplaced st' = [(centre, [4]), (origin, [5])]
      \<and> check_cluster_legality simple_legalizer 4 (legalizer st')
      \<and> check_cluster_legality simple_legalizer 5 (legalizer st')"
    by blast
  from n1 n4 n5 have p4: "\<exists>s'. create_clusters simple_legalizer fresh_legalizer mixed_netlist
               (one_atom_blocks [0, 2, 4, 6]) [[0, 2, 4, 6]] = Inr s'
      \<and> sl_clusters s' = [(0, [0, 2]), (1, [4]), (2, [6])]
      \<and> check_cluster_legality simple_legalizer 0 s'
      \<and> check_cluster_legality simple_legalizer 1 s'
      \<and> check_cluster_legality simple_legalizer 2 s'"
    by blast
  from p1 p2 gr p4 show ?thesis by (intro conjI)
qed

theorem greedy_two_tier_per_seed_witness:
  "\<exists>g1 g'. grow_cluster simple_util simple_legalizer SKIP_INTRA_LB_ROUTE (initial_clusterer [4, 6, 1])
              = Some (Inr (0, g1))
      \<and> \<not> check_cluster_legality simple_legalizer 0 (cluster_legalizer g1)
      \<and> istart g1 = Some 4
      \<and> total_clb_num g1 = 1
      \<and> istart (requeue_cluster simple_legalizer 0 g1) = Some 4
      \<and> total_clb_num (requeue_cluster simple_legalizer 0 g1) = 0
      \<and> cluster_seed simple_util simple_legalizer (initial_clusterer [4, 6, 1]) = Some (Inr g')
      \<and> sl_clusters (cluster_legalizer g') = [(1, [4])]
      \<and> istart g' = Some 6
      \<and> total_clb_num g' = 1"
proof -
  let ?g = "initial_clusterer [4, 6, 1]"
  let ?grow = "grow_cluster simple_util simple_legalizer SKIP_INTRA_LB_ROUTE ?g"
  let ?seed = "cluster_seed simple_util simple_legalizer ?g"
  have "case ?grow of Some (Inr (c, g1)) \<Rightarrow>
           c = 0 \<and> \<not> check_cluster_legality simple_legalizer 0 (cluster_legalizer g1) | _ \<Rightarrow> False"
    by code_simp
  then obtain g1 where
    a: "?grow = Some (Inr (0, g1))" "\<not> check_cluster_legality simple_legalizer 0 (cluster_legalizer g1)"
    by (auto split: option.splits sum.splits)
  have i: "istart ?g = Some 4" "total_clb_num ?g = 0" by code_simp+
  from greedy_two_tier_per_seed
         [where util = simple_util and cl = simple_legalizer and g = ?g
            and strategy = SKIP_INTRA_LB_ROUTE and c = 0 and g' = g1, THEN conjunct2] a(1) i
  have f: "istart g1 = Some 4" "total_clb_num g1 = 1"
    "istart (requeue_cluster simple_legalizer 0 g1) = Some 4"
    "total_clb_num (requeue_cluster simple_legalizer 0 g1) = 0"
    by simp_all
  have "case ?seed of Some (Inr g') \<Rightarrow>
           sl_clusters (cluster_legalizer g') = [(1, [4])] \<and> istart g' = Some 6 \<and> total_clb_num g' = 1
        | _ \<Rightarrow> False"
    by code_simp
  then obtain g' where
    "?seed = Some (Inr g')" "sl_clusters (cluster_legalizer g') = [(1, [4])]"
    "istart g' = Some 6" "total_clb_num g' = 1"
    by (auto split: option.splits sum.splits)
  with a f show ?thesis by blast
qed

end
